(* ===== verification/Prelude.thy ===== *)
theory Prelude
  imports Main "HOL-Library.Word" "HOL-Library.Multiset"
begin

text \<open>
  What every component of the development shares: the names of the machine types, the model
  of how a Rust function leaves its body, and the automation that the component proofs use.

  A Rust function of the repository leaves in one of three ways: it returns a value, it returns
  \<open>Err\<close> (directly or through the question mark operator), or it panics (\<open>unwrap\<close>, \<open>expect\<close>, an
  out of range buffer access). The state it has changed so far stays changed in all three cases:
  the pallets are built for a FRAME version whose dispatchables do not roll back on \<open>Err\<close>, and an
  off-chain worker's writes persist whatever happens later. So a computation is a function from
  the state to an exit and the state at that exit.
\<close>

section \<open>Machine types\<close>

type_synonym u8 = "8 word"
type_synonym u16 = "16 word"
type_synonym u32 = "32 word"
type_synonym u64 = "64 word"
type_synonym bytes = "u8 list"

named_theorems rust_defs \<open>the combinators of the computation model\<close>
named_theorems exit_simps \<open>how each combinator behaves on a given state\<close>
named_theorems quiet_intros \<open>computations that neither return \<open>Err\<close> nor change the state\<close>
named_theorems pallet_defs \<open>the operations of the pallets\<close>

section \<open>Computations\<close>

datatype panic =
    Expect string      \<comment> \<open>\<open>.expect(msg)\<close> on \<open>None\<close> or \<open>Err\<close>\<close>
  | Unwrap string      \<comment> \<open>\<open>.unwrap()\<close>; the string names the expression unwrapped\<close>
  | OutOfRange string  \<comment> \<open>a buffer operation past the end; the string names the operation\<close>

datatype ('e, 'a) exit = Ret 'a | Err 'e | Panic panic

type_synonym ('s, 'e, 'a) rust = "'s \<Rightarrow> ('e, 'a) exit \<times> 's"

definition ret :: "'a \<Rightarrow> ('s, 'e, 'a) rust" where
  [rust_defs]: "ret x = (\<lambda>s. (Ret x, s))"

definition throw :: "'e \<Rightarrow> ('s, 'e, 'a) rust" where
  [rust_defs]: "throw e = (\<lambda>s. (Err e, s))"

definition panic_with :: "panic \<Rightarrow> ('s, 'e, 'a) rust" where
  [rust_defs]: "panic_with p = (\<lambda>s. (Panic p, s))"

definition rbind :: "('s, 'e, 'a) rust \<Rightarrow> ('a \<Rightarrow> ('s, 'e, 'b) rust) \<Rightarrow> ('s, 'e, 'b) rust" where
  [rust_defs]: "rbind m f = (\<lambda>s. case m s of
     (Ret x, t) \<Rightarrow> f x t
   | (Err e, t) \<Rightarrow> (Err e, t)
   | (Panic p, t) \<Rightarrow> (Panic p, t))"

definition gets :: "('s \<Rightarrow> 'a) \<Rightarrow> ('s, 'e, 'a) rust" where
  [rust_defs]: "gets f = (\<lambda>s. (Ret (f s), s))"

definition modify :: "('s \<Rightarrow> 's) \<Rightarrow> ('s, 'e, unit) rust" where
  [rust_defs]: "modify f = (\<lambda>s. (Ret (), f s))"

text \<open>\<open>opt.expect(msg)\<close> and \<open>opt.unwrap()\<close>.\<close>

definition expect :: "string \<Rightarrow> 'a option \<Rightarrow> ('s, 'e, 'a) rust" where
  [rust_defs]: "expect msg x = (case x of Some v \<Rightarrow> ret v | None \<Rightarrow> panic_with (Expect msg))"

definition unwrap :: "string \<Rightarrow> 'a option \<Rightarrow> ('s, 'e, 'a) rust" where
  [rust_defs]: "unwrap what x = (case x of Some v \<Rightarrow> ret v | None \<Rightarrow> panic_with (Unwrap what))"

text \<open>
  Binding the result of a call to a variable without the question mark operator: \<open>Err\<close> becomes
  a value that the caller inspects, a panic still propagates.
\<close>

definition attempt :: "('s, 'e, 'a) rust \<Rightarrow> ('s, 'f, 'e + 'a) rust" where
  [rust_defs]: "attempt m = (\<lambda>s. case m s of
     (Ret x, t) \<Rightarrow> (Ret (Inr x), t)
   | (Err e, t) \<Rightarrow> (Ret (Inl e), t)
   | (Panic p, t) \<Rightarrow> (Panic p, t))"

text \<open>\<open>result.expect(msg)\<close> on a \<open>Result\<close> value.\<close>

definition expect_ok :: "string \<Rightarrow> 'e + 'a \<Rightarrow> ('s, 'f, 'a) rust" where
  [rust_defs]: "expect_ok msg r = (case r of Inr v \<Rightarrow> ret v | Inl _ \<Rightarrow> panic_with (Expect msg))"

text \<open>\<open>m.map_err(f)\<close>, as used before the question mark operator.\<close>

definition map_err :: "('e \<Rightarrow> 'f) \<Rightarrow> ('s, 'e, 'a) rust \<Rightarrow> ('s, 'f, 'a) rust" where
  [rust_defs]: "map_err f m = (\<lambda>s. case m s of
     (Ret x, t) \<Rightarrow> (Ret x, t)
   | (Err e, t) \<Rightarrow> (Err (f e), t)
   | (Panic p, t) \<Rightarrow> (Panic p, t))"

text \<open>\<open>iter.map(f).collect()\<close>: the closure runs on the elements in order.\<close>

fun map_collect :: "('a \<Rightarrow> ('s, 'e, 'b) rust) \<Rightarrow> 'a list \<Rightarrow> ('s, 'e, 'b list) rust" where
  "map_collect f [] = ret []"
| "map_collect f (x # xs) =
     rbind (f x) (\<lambda>y. rbind (map_collect f xs) (\<lambda>ys. ret (y # ys)))"

text \<open>
  \<open>log::info!(...)\<close> evaluates its arguments only when the maximum log level lets the record
  through, so an \<open>expect\<close> inside the arguments panics only then. The first argument says
  whether it does.
\<close>

definition log_info :: "bool \<Rightarrow> ('s, 'e, unit) rust \<Rightarrow> ('s, 'e, unit) rust" where
  [rust_defs]: "log_info enabled args = (if enabled then args else ret ())"

section \<open>Laws of the computations\<close>

lemma rbind_ret [simp]: "rbind (ret x) f = f x"
  by (simp add: rust_defs)

lemma rbind_ret_right [simp]: "rbind m ret = m" "rbind n (\<lambda>u. ret ()) = n"
  by (auto simp: rust_defs fun_eq_iff split: prod.splits exit.splits)

lemma rbind_assoc: "rbind (rbind m f) g = rbind m (\<lambda>x. rbind (f x) g)"
  by (rule ext) (simp add: rbind_def split: prod.splits exit.splits)

lemma rbind_throw [simp]: "rbind (throw e) f = throw e"
  by (simp add: rust_defs)

lemma rbind_panic [simp]: "rbind (panic_with p) f = panic_with p"
  by (simp add: rust_defs)

lemma expect_Some [simp]: "expect msg (Some x) = ret x"
  and expect_None [simp]: "expect msg None = panic_with (Expect msg)"
  and unwrap_Some [simp]: "unwrap what (Some x) = ret x"
  and unwrap_None [simp]: "unwrap what None = panic_with (Unwrap what)"
  and expect_ok_Inr [simp]: "expect_ok msg (Inr x) = ret x"
  and expect_ok_Inl [simp]: "expect_ok msg (Inl e) = panic_with (Expect msg)"
  and log_off [simp]: "log_info False m = ret ()"
  and log_on [simp]: "log_info True m = m"
  by (simp_all add: rust_defs)

lemma ret_apply [simp]: "ret x s = (Ret x, s)"
  and throw_apply [simp]: "throw e s = (Err e, s)"
  and panic_apply [simp]: "panic_with p s = (Panic p, s)"
  and gets_apply [simp]: "gets f s = (Ret (f s), s)"
  and modify_apply [simp]: "modify g s = (Ret (), g s)"
  and rbind_gets [simp]: "rbind (gets f) h s = h (f s) s"
  and rbind_modify [simp]: "rbind (modify g) k s = k () (g s)"
  by (simp_all add: rust_defs)

text \<open>The same for an exit written as a pair, which is how simp leaves a constant computation.\<close>

lemma rbind_Pair [simp]:
  "rbind (Pair (Ret x)) f = f x"
  "rbind (Pair (Err e)) f = Pair (Err e)"
  "rbind (Pair (Panic p)) f = Pair (Panic p)"
  by (simp_all add: rbind_def fun_eq_iff)

lemma Pair_Ret_eq [simp]: "(Pair (Ret x) = ret y) = (x = y)" "(ret y = Pair (Ret x)) = (x = y)"
  by (auto simp: rust_defs fun_eq_iff)

text \<open>One step of a sequence, when the exit of its first part is known.\<close>

lemma rbind_Ret: "m s = (Ret x, t) \<Longrightarrow> rbind m f s = f x t"
  and rbind_Err: "m s = (Err e, t) \<Longrightarrow> rbind m f s = (Err e, t)"
  and rbind_Panic: "m s = (Panic p, t) \<Longrightarrow> rbind m f s = (Panic p, t)"
  by (simp_all add: rbind_def)

lemma rbind_eq_Ret:
  "rbind m f s = (Ret y, u) \<longleftrightarrow> (\<exists>x t. m s = (Ret x, t) \<and> f x t = (Ret y, u))"
  by (auto simp: rbind_def split: prod.splits exit.splits)

lemma attempt_Ret: "m s = (Ret x, t) \<Longrightarrow> attempt m s = (Ret (Inr x), t)"
  and attempt_Err: "m s = (Err e, t) \<Longrightarrow> attempt m s = (Ret (Inl e), t)"
  and attempt_Panic: "m s = (Panic p, t) \<Longrightarrow> attempt m s = (Panic p, t)"
  by (simp_all add: attempt_def)

lemma attempt_never_errs: "fst (attempt m s) \<noteq> Err e"
  by (simp add: attempt_def split: prod.splits exit.splits)

lemma expect_eq_Ret: "expect msg x s = (Ret v, t) \<longleftrightarrow> x = Some v \<and> t = s"
  by (cases x) auto

lemma unwrap_eq_Ret: "unwrap msg x s = (Ret v, t) \<longleftrightarrow> x = Some v \<and> t = s"
  by (cases x) auto

lemmas exit_intros = rbind_Ret rbind_Err rbind_Panic

subsection \<open>Collecting\<close>

lemma map_collect_total:
  assumes "\<And>x. x \<in> set xs \<Longrightarrow> f x s = (Ret (g x), s)"
  shows "map_collect f xs s = (Ret (map g xs), s)"
  using assms by (induction xs) (simp_all add: rbind_def)

lemma map_collect_map_total:
  assumes "\<And>x. x \<in> set xs \<Longrightarrow> f (h x) s = (Ret (g x), s)"
  shows "map_collect f (map h xs) s = (Ret (map g xs), s)"
  using assms by (induction xs) (simp_all add: rbind_def)

lemma map_collect_first_panic:
  assumes "\<And>x. x \<in> set xs \<Longrightarrow> f (h x) s = (Ret (g x), s)" and "f (h y) s = (Panic p, s)"
  shows "map_collect f (map h (xs @ y # ys)) s = (Panic p, s)"
  using assms by (induction xs) (simp_all add: rbind_def)

lemma map_collect_Ret_iff:
  assumes "\<And>x. snd (f x s) = s"
  shows "map_collect f xs s = (Ret ys, t) \<longleftrightarrow> t = s \<and> list_all2 (\<lambda>x y. fst (f x s) = Ret y) xs ys"
proof (induction xs arbitrary: ys t)
  case Nil
  then show ?case by auto
next
  case (Cons x xs)
  from assms [of x] show ?case
    by (cases "f x s") (auto simp: rbind_eq_Ret Cons.IH list_all2_Cons1)
qed

section \<open>What a computation may leave behind\<close>

text \<open>
  \<open>keeps P m\<close>: however \<open>m\<close> leaves, the states before and after are related by \<open>P\<close>. With a
  reflexive and transitive \<open>P\<close> it composes along \<open>rbind\<close>; invariants and frame conditions of
  the operations are instances.
\<close>

definition keeps :: "('s \<Rightarrow> 's \<Rightarrow> bool) \<Rightarrow> ('s, 'e, 'a) rust \<Rightarrow> bool" where
  "keeps P m \<longleftrightarrow> (\<forall>s. P s (snd (m s)))"

definition preorder_rel :: "('s \<Rightarrow> 's \<Rightarrow> bool) \<Rightarrow> bool" where
  "preorder_rel P \<longleftrightarrow> (\<forall>s. P s s) \<and> (\<forall>s t u. P s t \<longrightarrow> P t u \<longrightarrow> P s u)"

lemma keepsD: "keeps P m \<Longrightarrow> P s (snd (m s))"
  by (simp add: keeps_def)

lemma keeps_pure:
  assumes "preorder_rel P"
  shows "keeps P (ret x)" "keeps P (throw e)" "keeps P (panic_with p)" "keeps P (gets f)"
    "keeps P (expect msg z)" "keeps P (unwrap msg z)" "keeps P (expect_ok msg r)"
  using assms
  by (auto simp: keeps_def preorder_rel_def expect_def unwrap_def expect_ok_def
      split: option.splits sum.splits)

lemma keeps_rbind:
  assumes P: "preorder_rel P" and m: "keeps P m" and f: "\<And>x. keeps P (f x)"
  shows "keeps P (rbind m f)"
  unfolding keeps_def
proof
  fix s
  obtain r t where mt: "m s = (r, t)" by fastforce
  with keepsD [OF m, of s] have st: "P s t" by simp
  show "P s (snd (rbind m f s))"
  proof (cases r)
    case (Ret x)
    from keepsD [OF f, of t x] have "P t (snd (f x t))" .
    with st P mt Ret show ?thesis
      by (auto simp: rbind_def preorder_rel_def)
  next
    case (Err e)
    with st mt show ?thesis by (simp add: rbind_def)
  next
    case (Panic p)
    with st mt show ?thesis by (simp add: rbind_def)
  qed
qed

lemma keeps_log: "preorder_rel P \<Longrightarrow> keeps P m \<Longrightarrow> keeps P (log_info b m)"
  by (cases b) (simp_all add: keeps_pure)

lemma keeps_map_collect:
  assumes "preorder_rel P" and "\<And>x. keeps P (f x)"
  shows "keeps P (map_collect f xs)"
  using assms by (induction xs) (simp_all add: keeps_pure keeps_rbind)

lemma keeps_attempt: "keeps P m \<Longrightarrow> keeps P (attempt m)"
  and keeps_map_err: "keeps P m \<Longrightarrow> keeps P (map_err g m)"
  by (auto simp: keeps_def attempt_def map_err_def split: prod.splits exit.splits; metis snd_conv)+

lemma keeps_modify: "(\<And>s. P s (g s)) \<Longrightarrow> keeps P (modify g)"
  by (simp add: keeps_def)

text \<open>Two relations used again and again: the state is unchanged, and a field is unchanged.\<close>

lemma preorder_eq: "preorder_rel (\<lambda>s t. t = s)"
  and preorder_field: "preorder_rel (\<lambda>s t. f t = f s)"
  and preorder_inv: "preorder_rel (\<lambda>s t. I s \<longrightarrow> I t)"
  by (auto simp: preorder_rel_def)

text \<open>
  A quiet computation returns or panics, and never changes the state: the reads, checks and log
  statements between a dispatchable's guard and its first write.
\<close>

definition quiet :: "('s, 'e, 'a) rust \<Rightarrow> bool" where
  "quiet m \<longleftrightarrow> (\<forall>s. snd (m s) = s \<and> (\<forall>e. fst (m s) \<noteq> Err e))"

lemma quiet_basic [quiet_intros]:
  "quiet (ret x)" "quiet (panic_with p)" "quiet (gets f)" "quiet (expect msg z)"
  "quiet (unwrap msg z)" "quiet (expect_ok msg r)"
  by (auto simp: quiet_def expect_def unwrap_def expect_ok_def split: option.splits sum.splits)

lemma quiet_Pair [simp]: "quiet (Pair (Ret x))"
  by (simp add: quiet_def)

lemma quiet_cases:
  assumes "quiet m"
  obtains x where "m s = (Ret x, s)" | p where "m s = (Panic p, s)"
proof -
  obtain r t where m: "m s = (r, t)" by fastforce
  with assms have "t = s" "\<And>e. r \<noteq> Err e" by (auto simp: quiet_def dest: spec [of _ s])
  with m that show thesis by (cases r) auto
qed

lemma quiet_fst: "quiet m \<Longrightarrow> fst (m s) = r \<longleftrightarrow> m s = (r, s)"
  by (auto simp: quiet_def prod_eq_iff)

lemma quiet_rbind [quiet_intros]: "quiet m \<Longrightarrow> (\<And>x. quiet (f x)) \<Longrightarrow> quiet (rbind m f)"
  unfolding quiet_def rbind_def by (auto split: prod.splits exit.splits; metis fst_conv snd_conv)

lemma quiet_log [quiet_intros]: "quiet m \<Longrightarrow> quiet (log_info b m)"
  by (cases b) (simp_all add: quiet_intros)

lemma quiet_map_collect [quiet_intros]: "(\<And>x. quiet (f x)) \<Longrightarrow> quiet (map_collect f xs)"
  by (induction xs) (simp_all add: quiet_intros)

lemma keeps_quiet: "preorder_rel P \<Longrightarrow> quiet m \<Longrightarrow> keeps P m"
  by (simp add: keeps_def quiet_def preorder_rel_def)

text \<open>
  The rules for one such relation: every frame condition of the development is an interpretation, and
  its rules walk along the body of an operation.
\<close>

locale kept_relation =
  fixes P :: "'s \<Rightarrow> 's \<Rightarrow> bool"
  assumes preorder: "preorder_rel P"
begin

lemmas kept_pure = keeps_pure [OF preorder]
lemmas kept_rbind = keeps_rbind [OF preorder]
lemmas kept_quiet = keeps_quiet [OF preorder]
lemmas kept_log = keeps_log [OF preorder]
lemmas kept_collect = keeps_map_collect [OF preorder]

lemma kept_trans: "P s t \<Longrightarrow> P t u \<Longrightarrow> P s u"
  using preorder unfolding preorder_rel_def by blast

end

interpretation field_rel: kept_relation "\<lambda>s t. f t = f s" for f
  by (rule kept_relation.intro) (rule preorder_field)

interpretation invariant_rel: kept_relation "\<lambda>s t. I s \<longrightarrow> I t" for I
  by (rule kept_relation.intro) (rule preorder_inv)

text \<open>To show \<open>Q\<close> of a sequence that begins with a quiet part, show it after that part.\<close>

lemma quiet_step:
  assumes "quiet m" and "\<And>x. m s = (Ret x, s) \<Longrightarrow> Q (f x s)" and "\<And>p. m s = (Panic p, s) \<Longrightarrow> Q (Panic p, s)"
  shows "Q (rbind m f s)"
  using quiet_cases [OF assms(1), of s] assms(2,3) by (metis rbind_Ret rbind_Panic)

section \<open>Invariants of step relations\<close>

locale step_invariant =
  fixes step :: "'s \<Rightarrow> 's \<Rightarrow> bool"
    and inv :: "'s \<Rightarrow> bool"
  assumes inv_step: "step s t \<Longrightarrow> inv s \<Longrightarrow> inv t"
begin

lemma inv_run: "step\<^sup>*\<^sup>* s t \<Longrightarrow> inv s \<Longrightarrow> inv t"
  by (induction rule: rtranclp_induct) (auto intro: inv_step)

end

section \<open>Small facts about lists and words\<close>

lemma map_nth_inj_on:
  assumes "distinct xs" "\<forall>i \<in> set is. i < length xs" "\<forall>j \<in> set js. j < length xs"
  shows "map ((!) xs) is = map ((!) xs) js \<longleftrightarrow> is = js"
proof
  assume "map ((!) xs) is = map ((!) xs) js"
  moreover have "inj_on ((!) xs) (set is \<union> set js)"
    using assms by (auto simp: inj_on_def nth_eq_iff_index_eq)
  ultimately show "is = js" by (simp add: inj_on_map_eq_map)
qed simp

lemma unat_word_of_nat_u8: "n < 256 \<Longrightarrow> unat (word_of_nat n :: u8) = n"
  by (simp add: unat_of_nat)

lemma unat_u8_less: "unat (b :: u8) < 256"
  using unsigned_less [where 'b = 8 and 'a = nat, of b] by simp

end
