(* ===== verification/Rust_Std.thy ===== *)
theory Rust_Std
  imports Prelude
begin

text \<open>
  The parts of the Rust language and standard library that the pallets compute with: byte string
  literals, UTF-8 (\<open>str::from_utf8\<close>, \<open>str::chars\<close>), \<open>char::to_digit\<close>, \<open>u8::try_from\<close>,
  big endian integers, \<open>checked_next_power_of_two\<close> and the \<open>f32\<close> product of the display
  request. A \<open>String\<close> of the program is its UTF-8 byte list, so that \<open>from_utf8(v).to_owned()\<close>
  and \<open>s.bytes().collect()\<close> keep the bytes and only validity is checked; a \<open>char\<close> is its
  code point.
\<close>

section \<open>Byte string literals\<close>

definition byte_of :: "nat \<Rightarrow> u8" where
  "byte_of n = word_of_nat n"

lemma unat_byte_of [simp]: "n < 256 \<Longrightarrow> unat (byte_of n) = n"
  by (simp add: byte_of_def unat_word_of_nat_u8)

lemma byte_of_unat [simp]: "byte_of (unat b) = b"
  by (simp add: byte_of_def)

definition ascii :: "string \<Rightarrow> bytes" where
  "ascii s = map (\<lambda>c. byte_of (of_char c)) s"

lemma length_ascii [simp]: "length (ascii s) = length s"
  by (simp add: ascii_def)

lemma ascii_append: "ascii (s @ t) = ascii s @ ascii t"
  by (simp add: ascii_def)

section \<open>UTF-8\<close>

definition cont_byte :: "u8 \<Rightarrow> bool" where
  "cont_byte b \<longleftrightarrow> 0x80 \<le> unat b \<and> unat b < 0xC0"

definition low6 :: "u8 \<Rightarrow> nat" where
  "low6 b = unat b mod 64"

text \<open>
  The well-formed sequences of the Unicode standard: no overlong form, no surrogate, nothing
  above \<open>0x10FFFF\<close>. \<open>utf8_step b bs\<close> is the code point that starts with byte \<open>b\<close> followed by
  \<open>bs\<close>, with the bytes after it.
\<close>

definition utf8_step :: "u8 \<Rightarrow> bytes \<Rightarrow> (nat \<times> bytes) option" where
  "utf8_step b bs = (let n = unat b in
     if n < 0x80 then Some (n, bs)
     else if 0xC2 \<le> n \<and> n < 0xE0 then
       (case bs of
          b1 # r \<Rightarrow> (if cont_byte b1 then Some ((n - 0xC0) * 64 + low6 b1, r) else None)
        | _ \<Rightarrow> None)
     else if 0xE0 \<le> n \<and> n < 0xF0 then
       (case bs of
          b1 # b2 # r \<Rightarrow>
            (let c = (n - 0xE0) * 4096 + low6 b1 * 64 + low6 b2 in
             if cont_byte b1 \<and> cont_byte b2 \<and> 0x800 \<le> c \<and> \<not> (0xD800 \<le> c \<and> c < 0xE000)
             then Some (c, r) else None)
        | _ \<Rightarrow> None)
     else if 0xF0 \<le> n \<and> n < 0xF5 then
       (case bs of
          b1 # b2 # b3 # r \<Rightarrow>
            (let c = (n - 0xF0) * 262144 + low6 b1 * 4096 + low6 b2 * 64 + low6 b3 in
             if cont_byte b1 \<and> cont_byte b2 \<and> cont_byte b3 \<and> 0x10000 \<le> c \<and> c < 0x110000
             then Some (c, r) else None)
        | _ \<Rightarrow> None)
     else None)"

lemma utf8_step_shorter: "utf8_step b bs = Some (c, r) \<Longrightarrow> length r \<le> length bs"
  by (auto simp: utf8_step_def Let_def split: if_splits list.splits)

function utf8_chars :: "bytes \<Rightarrow> nat list option" where
  "utf8_chars [] = Some []"
| "utf8_chars (b # bs) =
     (case utf8_step b bs of
        None \<Rightarrow> None
      | Some (c, r) \<Rightarrow> map_option ((#) c) (utf8_chars r))"
  by pat_completeness auto
termination
  by (relation "measure length") (auto dest: utf8_step_shorter)

text \<open>\<open>str::from_utf8(v)\<close>: the same bytes when they are valid.\<close>

definition from_utf8 :: "bytes \<Rightarrow> bytes option" where
  "from_utf8 v = (case utf8_chars v of Some _ \<Rightarrow> Some v | None \<Rightarrow> None)"

definition valid_utf8 :: "bytes \<Rightarrow> bool" where
  "valid_utf8 v \<longleftrightarrow> utf8_chars v \<noteq> None"

lemma from_utf8_valid: "from_utf8 v = (if valid_utf8 v then Some v else None)"
  by (auto simp: from_utf8_def valid_utf8_def split: option.splits)

definition is_ascii :: "bytes \<Rightarrow> bool" where
  "is_ascii v \<longleftrightarrow> (\<forall>b \<in> set v. unat b < 0x80)"

lemma utf8_chars_ascii: "is_ascii v \<Longrightarrow> utf8_chars v = Some (map unat v)"
  by (induction v) (auto simp: is_ascii_def utf8_step_def)

lemma valid_ascii: "is_ascii v \<Longrightarrow> valid_utf8 v"
  by (simp add: valid_utf8_def utf8_chars_ascii)

text \<open>A byte from 0x80 up that stands alone is never valid.\<close>

lemma utf8_high_alone: "0x80 \<le> unat b \<Longrightarrow> utf8_chars [b] = None"
  by (simp add: utf8_step_def Let_def)

text \<open>
  The decoder is exact: what it accepts is the encoding of the code points it returns. The
  encoder is the standard's table.
\<close>

definition utf8_encode :: "nat \<Rightarrow> bytes" where
  "utf8_encode c = map byte_of
     (if c < 0x80 then [c]
      else if c < 0x800 then [0xC0 + c div 64, 0x80 + c mod 64]
      else if c < 0x10000 then [0xE0 + c div 4096, 0x80 + c div 64 mod 64, 0x80 + c mod 64]
      else [0xF0 + c div 262144, 0x80 + c div 4096 mod 64, 0x80 + c div 64 mod 64, 0x80 + c mod 64])"

definition scalar_value :: "nat \<Rightarrow> bool" where
  "scalar_value c \<longleftrightarrow> c < 0xD800 \<or> 0xE000 \<le> c \<and> c < 0x110000"

lemma cont_byte_encode:
  "k < 64 \<Longrightarrow> cont_byte (byte_of (0x80 + k))"
  "k < 64 \<Longrightarrow> low6 (byte_of (0x80 + k)) = k"
  using mod_mult_self4 [of 64 2 k] by (simp_all add: cont_byte_def low6_def)

lemma div_64_parts:
  fixes c :: nat
  shows "c = c div 64 * 64 + c mod 64"
    and "c = c div 4096 * 4096 + c div 64 mod 64 * 64 + c mod 64"
    and "c = c div 262144 * 262144 + c div 4096 mod 64 * 4096 + c div 64 mod 64 * 64 + c mod 64"
proof -
  have d: "c div 4096 = c div 64 div 64" "c div 262144 = c div 4096 div 64"
    by (simp_all add: div_mult2_eq [symmetric])
  show 1: "c = c div 64 * 64 + c mod 64" by simp
  have 2: "c div 64 = c div 4096 * 64 + c div 64 mod 64" unfolding d(1) by simp
  have 3: "c div 4096 = c div 262144 * 64 + c div 4096 mod 64" unfolding d(2) by simp
  show "c = c div 4096 * 4096 + c div 64 mod 64 * 64 + c mod 64" using 1 2 by linarith
  show "c = c div 262144 * 262144 + c div 4096 mod 64 * 4096 + c div 64 mod 64 * 64 + c mod 64"
    using 1 2 3 by linarith
qed

lemma utf8_step_encode:
  assumes "scalar_value c"
  shows "\<exists>b bs. utf8_encode c = b # bs \<and> utf8_step b (bs @ r) = Some (c, r)"
proof -
  have m: "c mod 64 < 64" "c div 64 mod 64 < 64" "c div 4096 mod 64 < 64" by simp_all
  note cb = m [THEN cont_byte_encode(1)] m [THEN cont_byte_encode(2)]
  note p = div_64_parts [of c, symmetric]
  consider "c < 0x80" | "0x80 \<le> c" "c < 0x800" | "0x800 \<le> c" "c < 0x10000" | "0x10000 \<le> c"
    by linarith
  then show ?thesis
  proof cases
    case 1
    then show ?thesis by (simp add: utf8_encode_def utf8_step_def)
  next
    case 2
    define q where "q = c div 64"
    from 2 have "q < 32" "2 \<le> q" unfolding q_def by auto
    with 2 cb(1,4) p(1) show ?thesis
      unfolding utf8_encode_def q_def [symmetric] by (simp add: utf8_step_def Let_def)
  next
    case 3
    define q where "q = c div 4096"
    from 3 have "q < 16" unfolding q_def by auto
    with 3 cb(1,2,4,5) p(2) assms show ?thesis
      unfolding utf8_encode_def q_def [symmetric]
      by (auto simp: utf8_step_def Let_def scalar_value_def)
  next
    case 4
    define q where "q = c div 262144"
    from 4 assms have c: "c < 0x110000" by (auto simp: scalar_value_def)
    then have "q < 5" unfolding q_def by auto
    with 4 c cb p(3) show ?thesis
      unfolding utf8_encode_def q_def [symmetric]
      by (auto simp: utf8_step_def Let_def)
  qed
qed

lemma utf8_roundtrip:
  "\<forall>c \<in> set cs. scalar_value c \<Longrightarrow> utf8_chars (concat (map utf8_encode cs)) = Some cs"
proof (induction cs)
  case (Cons c cs)
  obtain b bs where "utf8_encode c = b # bs"
    and "utf8_step b (bs @ concat (map utf8_encode cs)) = Some (c, concat (map utf8_encode cs))"
    using utf8_step_encode [of c "concat (map utf8_encode cs)"] Cons.prems by auto
  with Cons show ?case by simp
qed simp

section \<open>Characters and integers\<close>

text \<open>\<open>c.to_digit(10)\<close>.\<close>

definition to_digit10 :: "nat \<Rightarrow> nat option" where
  "to_digit10 c = (if 48 \<le> c \<and> c \<le> 57 then Some (c - 48) else None)"

text \<open>\<open>u8::try_from(n)\<close> for a \<open>u32\<close>.\<close>

definition u8_try_from :: "nat \<Rightarrow> u8 option" where
  "u8_try_from n = (if n < 256 then Some (byte_of n) else None)"

text \<open>\<open>put_u32\<close> and \<open>get_u32\<close> are big endian.\<close>

definition be_u32 :: "u32 \<Rightarrow> bytes" where
  "be_u32 w = map byte_of
     [unat w div 2 ^ 24, unat w div 2 ^ 16 mod 256, unat w div 2 ^ 8 mod 256, unat w mod 256]"

definition u32_of_be :: "u8 \<Rightarrow> u8 \<Rightarrow> u8 \<Rightarrow> u8 \<Rightarrow> nat" where
  "u32_of_be a b c d = unat a * 2 ^ 24 + unat b * 2 ^ 16 + unat c * 2 ^ 8 + unat d"

lemma div_256_parts:
  fixes n :: nat
  shows "n div 2 ^ 24 * 2 ^ 24 + n div 2 ^ 16 mod 256 * 2 ^ 16 + n div 2 ^ 8 mod 256 * 2 ^ 8 + n mod 256 = n"
proof -
  have d: "n div 2 ^ 16 = n div 2 ^ 8 div 256" "n div 2 ^ 24 = n div 2 ^ 16 div 256"
    by (simp_all add: div_mult2_eq [symmetric])
  have 1: "n = n div 2 ^ 8 * 256 + n mod 256" by simp
  have 2: "n div 2 ^ 8 = n div 2 ^ 16 * 256 + n div 2 ^ 8 mod 256" unfolding d(1) by simp
  have 3: "n div 2 ^ 16 = n div 2 ^ 24 * 256 + n div 2 ^ 16 mod 256" unfolding d(2) by simp
  have k: "(2::nat) ^ 24 = 16777216" "(2::nat) ^ 16 = 65536" "(2::nat) ^ 8 = 256" by simp_all
  from 1 2 3 show ?thesis unfolding k by linarith
qed

lemma u32_be_roundtrip:
  obtains a b c d where "be_u32 w = [a, b, c, d]" "u32_of_be a b c d = unat w"
proof
  have "unat w < 2 ^ 32"
    using unsigned_less [where 'b = 32 and 'a = nat, of w] by simp
  then have "unat w div 2 ^ 24 < 256" by auto
  then show "u32_of_be (byte_of (unat w div 2 ^ 24)) (byte_of (unat w div 2 ^ 16 mod 256))
      (byte_of (unat w div 2 ^ 8 mod 256)) (byte_of (unat w mod 256)) = unat w"
    unfolding u32_of_be_def by (subst unat_byte_of, simp)+ (rule div_256_parts)
qed (simp add: be_u32_def)

lemma length_be_u32 [simp]: "length (be_u32 w) = 4"
  by (simp add: be_u32_def)

lemma be_u32_of_be: "be_u32 (word_of_nat (u32_of_be a b c d)) = [a, b, c, d]"
proof -
  let ?n = "u32_of_be a b c d"
  note lt = unat_u8_less [of a] unat_u8_less [of b] unat_u8_less [of c] unat_u8_less [of d]
  have n: "?n = unat a * 16777216 + (unat b * 65536 + (unat c * 256 + unat d))"
    by (simp add: u32_of_be_def)
  have d: "?n div 16777216 = unat a" "?n div 65536 = unat a * 256 + unat b"
    "?n div 256 = unat a * 65536 + unat b * 256 + unat c"
    using lt unfolding n by (intro div_nat_eqI; simp)+
  have m: "?n div 65536 mod 256 = unat b" "?n div 256 mod 256 = unat c"
    using lt mod_mult_self3 [of "unat a * 256 + unat b" 256 "unat c"]
    unfolding d by (simp_all add: algebra_simps)
  have m': "?n mod 256 = unat d"
    using lt mod_mult_self3 [of "unat a * 65536 + unat b * 256 + unat c" 256 "unat d"]
    unfolding n by (simp add: algebra_simps)
  have "?n < 2 ^ 32" using lt unfolding n by simp
  then have "unat (word_of_nat ?n :: u32) = ?n" by (simp add: unat_of_nat)
  then show ?thesis by (simp add: be_u32_def d(1) m m')
qed

lemma u32_of_be_less: "u32_of_be a b c d < 2 ^ 32"
  using unat_u8_less [of a] unat_u8_less [of b] unat_u8_less [of c] unat_u8_less [of d]
  by (simp add: u32_of_be_def)

section \<open>Powers of two\<close>

text \<open>\<open>u32::checked_next_power_of_two\<close>.\<close>

definition checked_next_power_of_two :: "u32 \<Rightarrow> u32 option" where
  "checked_next_power_of_two x = find (\<lambda>p. x \<le> p) (map (\<lambda>k. 2 ^ k) [0..<32])"

section \<open>The f32 product\<close>

text \<open>
  Finite \<open>f32\<close> values between 0 and \<open>2 ^ 24\<close>: \<open>F32 m k\<close> is \<open>m / 2 ^ k\<close>, with the 24 bit
  significand \<open>m\<close>. A literal and a product are the exact quotient rounded to nearest, ties to even;
  the exponent range ends at \<open>2 ^ -149\<close>.
\<close>

datatype f32 = F32 (significand: nat) (scale: nat)

definition rne_div :: "nat \<Rightarrow> nat \<Rightarrow> nat" where
  "rne_div p q = (let d = p div q; r = p mod q in
     if 2 * r < q then d else if q < 2 * r then Suc d else d + d mod 2)"

definition f32_of_frac :: "nat \<Rightarrow> nat \<Rightarrow> f32" where
  "f32_of_frac p q =
     (let k = (case find (\<lambda>k. 2 ^ 23 * q \<le> p * 2 ^ k) [0..<150] of Some k \<Rightarrow> k | None \<Rightarrow> 149);
          m = rne_div (p * 2 ^ k) q
      in if m = 2 ^ 24 \<and> 0 < k then F32 (2 ^ 23) (k - 1) else F32 m k)"

definition f32_of_nat :: "nat \<Rightarrow> f32" where
  "f32_of_nat n = f32_of_frac n 1"

definition f32_mul :: "f32 \<Rightarrow> f32 \<Rightarrow> f32" where
  "f32_mul x y = f32_of_frac (significand x * significand y) (2 ^ (scale x + scale y))"

lemma f32_tenth: "f32_of_frac 1 10 = F32 13421773 27"
  by (simp add: f32_of_frac_def rne_div_def upt_rec Let_def)

text \<open>The order of the values; different pairs may be the same value, so it is a preorder.\<close>

instantiation f32 :: preorder
begin

definition less_eq_f32 :: "f32 \<Rightarrow> f32 \<Rightarrow> bool" where
  "less_eq_f32 x y \<longleftrightarrow> significand x * 2 ^ scale y \<le> significand y * 2 ^ scale x"

definition less_f32 :: "f32 \<Rightarrow> f32 \<Rightarrow> bool" where
  "less_f32 x y \<longleftrightarrow> significand x * 2 ^ scale y < significand y * 2 ^ scale x"

instance
proof
  fix x y z :: f32
  show "x < y \<longleftrightarrow> x \<le> y \<and> \<not> y \<le> x" by (auto simp: less_eq_f32_def less_f32_def)
  show "x \<le> x" by (simp add: less_eq_f32_def)
  show "x \<le> z" if "x \<le> y" "y \<le> z"
  proof -
    from that have "significand x * 2 ^ scale y * 2 ^ scale z \<le> significand y * 2 ^ scale x * 2 ^ scale z"
      "significand y * 2 ^ scale z * 2 ^ scale x \<le> significand z * 2 ^ scale y * 2 ^ scale x"
      by (auto simp only: less_eq_f32_def intro: mult_le_mono1)
    then have "(significand x * 2 ^ scale z) * 2 ^ scale y \<le> (significand z * 2 ^ scale x) * 2 ^ scale y"
      by (simp only: ac_simps)
    then show ?thesis by (simp add: less_eq_f32_def)
  qed
qed

end

text \<open>A quotient whose exponent is known, and the products of the display requests.\<close>

lemma f32_of_frac_at:
  assumes "k < 150" "2 ^ 23 * q \<le> p * 2 ^ k" "k = 0 \<or> p * 2 ^ (k - 1) < 2 ^ 23 * q"
  shows "f32_of_frac p q = (let m = rne_div (p * 2 ^ k) q in
    if m = 2 ^ 24 \<and> 0 < k then F32 (2 ^ 23) (k - 1) else F32 m k)"
proof -
  have "\<not> 2 ^ 23 * q \<le> p * 2 ^ j" if "j < k" for j
  proof -
    from that have "p * 2 ^ j \<le> p * 2 ^ (k - 1)" by (intro mult_le_mono2 power_increasing) auto
    with assms(3) that show ?thesis by linarith
  qed
  with assms(1,2) have "find (\<lambda>k. 2 ^ 23 * q \<le> p * 2 ^ k) [0..<150] = Some k"
    by (subst find_Some_iff) (intro exI [of _ k], auto)
  then show ?thesis by (simp add: f32_of_frac_def Let_def)
qed

lemma f32_of_frac_0: "0 < q \<Longrightarrow> f32_of_frac 0 q = F32 0 149"
proof -
  assume "0 < q"
  then have "find (\<lambda>k. 2 ^ 23 * q \<le> 0 * 2 ^ k) [0..<150] = None"
    by (simp add: find_None_iff)
  then show ?thesis by (simp add: f32_of_frac_def Let_def rne_div_def)
qed

lemma f32_naturals:
  "f32_of_nat 0 = F32 0 149" "f32_of_nat 1 = F32 (2 ^ 23) 23" "f32_of_nat 2 = F32 (2 ^ 23) 22"
  "f32_of_nat 3 = F32 (3 * 2 ^ 22) 22" "f32_of_nat 4 = F32 (2 ^ 23) 21" "f32_of_nat 5 = F32 (5 * 2 ^ 21) 21"
  "f32_of_nat 6 = F32 (6 * 2 ^ 21) 21" "f32_of_nat 7 = F32 (7 * 2 ^ 21) 21" "f32_of_nat 8 = F32 (2 ^ 23) 20"
  "f32_of_nat 9 = F32 (9 * 2 ^ 20) 20" "f32_of_nat 10 = F32 (10 * 2 ^ 20) 20"
  by (simp_all add: f32_of_nat_def f32_of_frac_0 rne_div_def
      f32_of_frac_at [of 23] f32_of_frac_at [of 22] f32_of_frac_at [of 21] f32_of_frac_at [of 20])

lemma f32_tenths:
  "f32_mul (f32_of_frac 1 10) (f32_of_nat 0) = F32 0 149"
  "f32_mul (f32_of_frac 1 10) (f32_of_nat 1) = F32 13421773 27"
  "f32_mul (f32_of_frac 1 10) (f32_of_nat 2) = F32 13421773 26"
  "f32_mul (f32_of_frac 1 10) (f32_of_nat 3) = F32 10066330 25"
  "f32_mul (f32_of_frac 1 10) (f32_of_nat 4) = F32 13421773 25"
  "f32_mul (f32_of_frac 1 10) (f32_of_nat 5) = F32 (2 ^ 23) 24"
  "f32_mul (f32_of_frac 1 10) (f32_of_nat 6) = F32 10066330 24"
  "f32_mul (f32_of_frac 1 10) (f32_of_nat 7) = F32 11744051 24"
  "f32_mul (f32_of_frac 1 10) (f32_of_nat 8) = F32 13421773 24"
  "f32_mul (f32_of_frac 1 10) (f32_of_nat 9) = F32 15099495 24"
  "f32_mul (f32_of_frac 1 10) (f32_of_nat 10) = F32 (2 ^ 23) 23"
  unfolding f32_naturals f32_tenth f32_mul_def
  by (simp_all add: f32_of_frac_0 rne_div_def
      f32_of_frac_at [of 27] f32_of_frac_at [of 26] f32_of_frac_at [of 25] f32_of_frac_at [of 24] f32_of_frac_at [of 23])

end
