(* ===== verification/Frame.thy ===== *)
theory Frame
  imports Rust_Std
begin

text \<open>
  What the pallets declare through FRAME: call origins and \<open>ensure_signed\<close>, dispatch errors,
  the event enums of the four pallets and their sum in the runtime, the state every pallet
  writes to (deposited events, buffered off-chain index writes), bounded vectors, and the two
  interfaces that the pallets share: a storage map and a call that only signed origins may make.

  Each pallet's storage is a record that extends \<open>system\<close>; the records form a chain
  (\<open>system\<close>, mobile-registry, tx-validation, ocw-circuits, ocw-garble), and the operations of a
  pallet are polymorphic in the extension, so they run unchanged on the runtime's whole state.
\<close>

section \<open>Origins and dispatch errors\<close>

datatype 'acct origin = RootOrigin | SignedOrigin 'acct | NoneOrigin

datatype 'e dispatch_error = BadOrigin | Module 'e

definition ensure_signed :: "'acct origin \<Rightarrow> ('s, 'e dispatch_error, 'acct) rust" where
  [rust_defs]: "ensure_signed o' = (case o' of SignedOrigin who \<Rightarrow> ret who | _ \<Rightarrow> throw BadOrigin)"

lemma ensure_signed_Signed [simp]: "ensure_signed (SignedOrigin who) = ret who"
  and ensure_signed_Root [simp]: "ensure_signed RootOrigin = throw BadOrigin"
  and ensure_signed_None [simp]: "ensure_signed NoneOrigin = throw BadOrigin"
  by (simp_all add: ensure_signed_def)

definition signed_by :: "'acct origin \<Rightarrow> 'acct option" where
  "signed_by o' = (case o' of SignedOrigin who \<Rightarrow> Some who | _ \<Rightarrow> None)"

lemma not_signed_cases: "signed_by o' = None \<Longrightarrow> o' = RootOrigin \<or> o' = NoneOrigin"
  by (cases o') (simp_all add: signed_by_def)

context kept_relation
begin

lemma kept_signed: "keeps P (ensure_signed origin)"
  by (cases origin) (simp_all add: kept_pure)

end

section \<open>Events\<close>

datatype 'acct mobile_event = NewMobileRegistered 'acct

datatype 'acct tx_event = TxPass 'acct | TxFail 'acct | DEBUGNewDigitsSet bytes bytes

datatype circuits_event =
    NewSkcdIpfsCid bytes
  | NewDisplaySkcdPackageIpfsCid bytes bytes

datatype garble_event =
    NewGarbledIpfsCid bytes
  | NewGarbleAndStrippedIpfsCid bytes bytes bytes bytes

text \<open>The runtime's event type holds the event type of every pallet of \<open>construct_runtime!\<close>.\<close>

datatype 'acct event =
    MobileRegistryEvent "'acct mobile_event"
  | OcwCircuitsEvent circuits_event
  | OcwGarbleEvent garble_event
  | TxValidationEvent "'acct tx_event"

record 'acct system =
  events :: "'acct event list"
  offchain_index_writes :: "(bytes \<times> bytes) list"

definition deposit_event :: "'acct event \<Rightarrow> (('acct, 'z) system_scheme, 'e, unit) rust" where
  [rust_defs]: "deposit_event e = modify (\<lambda>s. s\<lparr>events := events s @ [e]\<rparr>)"

text \<open>\<open>sp_io::offchain_index::set(key, value)\<close>: buffered, the node commits it with the block.\<close>

definition offchain_index_set :: "bytes \<Rightarrow> bytes \<Rightarrow> (('acct, 'z) system_scheme, 'e, unit) rust" where
  [rust_defs]: "offchain_index_set k v =
     modify (\<lambda>s. s\<lparr>offchain_index_writes := offchain_index_writes s @ [(k, v)]\<rparr>)"

section \<open>Bounded vectors\<close>

text \<open>
  \<open>TryInto::<BoundedVec<_, ConstU32<n>>>::try_into(v)\<close> fails on a vector longer than \<open>n\<close>, and
  \<open>try_push\<close> fails on a full one; the elements are otherwise those of the vector.
\<close>

definition bounded :: "nat \<Rightarrow> 'a list \<Rightarrow> 'a list option" where
  "bounded n v = (if length v \<le> n then Some v else None)"

definition try_push :: "nat \<Rightarrow> 'a list \<Rightarrow> 'a \<Rightarrow> 'a list option" where
  "try_push n v x = (if length v < n then Some (v @ [x]) else None)"

lemma bounded_Some [simp]: "length v \<le> n \<Longrightarrow> bounded n v = Some v"
  and bounded_None [simp]: "n < length v \<Longrightarrow> bounded n v = None"
  by (simp_all add: bounded_def)

lemma bounded_eq_Some: "bounded n v = Some w \<longleftrightarrow> w = v \<and> length v \<le> n"
  by (auto simp: bounded_def)

lemma try_push_bound: "try_push n v x = Some w \<Longrightarrow> length w \<le> n \<and> w = v @ [x]"
  by (auto simp: try_push_def split: if_splits)

section \<open>The storage map interface\<close>

text \<open>
  What a pallet relies on when it declares a \<open>StorageMap\<close> or \<open>StorageDoubleMap\<close>: a lookup
  after an insert finds the value inserted under that key and nothing else changed.
\<close>

locale storage_map =
  fixes lookup :: "'s \<Rightarrow> 'k \<Rightarrow> 'v option"
    and insert_at :: "'k \<Rightarrow> 'v \<Rightarrow> 's \<Rightarrow> 's"
  assumes lookup_insert: "lookup (insert_at k v s) j = (if j = k then Some v else lookup s j)"
begin

lemma lookup_same: "lookup (insert_at k v s) k = Some v"
  by (simp add: lookup_insert)

lemma lookup_other: "j \<noteq> k \<Longrightarrow> lookup (insert_at k v s) j = lookup s j"
  by (simp add: lookup_insert)

lemma last_insert_wins: "lookup (insert_at k w (insert_at k v s)) = lookup (insert_at k w s)"
  by (rule ext) (simp add: lookup_insert)

lemma insert_commutes:
  "j \<noteq> k \<Longrightarrow> lookup (insert_at j w (insert_at k v s)) = lookup (insert_at k v (insert_at j w s))"
  by (rule ext) (simp add: lookup_insert)

text \<open>An invariant on the stored values needs to be checked for the value inserted only.\<close>

lemma all_values_insert:
  assumes "\<forall>j u. lookup s j = Some u \<longrightarrow> I u" and "I v"
  shows "\<forall>j u. lookup (insert_at k v s) j = Some u \<longrightarrow> I u"
  using assms by (simp add: lookup_insert)

end

section \<open>Calls that only a signed origin may make\<close>

locale signed_call =
  fixes call :: "'acct origin \<Rightarrow> ('s, 'e dispatch_error, unit) rust"
  assumes rejects: "signed_by o' = None \<Longrightarrow> call o' s = (Err BadOrigin, s)"
begin

lemma effect_needs_signature:
  assumes "call o' s = (r, t)" and "t \<noteq> s \<or> r \<noteq> Err BadOrigin"
  shows "\<exists>who. o' = SignedOrigin who"
  using assms rejects [of o' s] by (cases o') (auto simp: signed_by_def)

lemma root_rejected: "call RootOrigin s = (Err BadOrigin, s)"
  and none_rejected: "call NoneOrigin s = (Err BadOrigin, s)"
  by (simp_all add: rejects signed_by_def)

end

text \<open>Every call of the pallets starts with \<open>ensure_signed(origin)?\<close>.\<close>

lemma ensure_signed_first:
  assumes "\<And>o'. call o' = rbind (ensure_signed o') (body o')"
  shows "signed_call call"
proof
  fix o' :: "'a origin" and s
  assume "signed_by o' = None"
  then show "call o' s = (Err BadOrigin, s)"
    by (auto simp: assms dest: not_signed_cases)
qed

end
