(* ===== verification/Mobile_Registry.thy ===== *)
theory Mobile_Registry
  imports Frame
begin

text \<open>
  The pallet \<open>pallets/mobile-registry\<close>: an account registers the public key of its mobile. The
  key must have at least 32 bytes and is stored in a vector bounded at 256 bytes.
\<close>

section \<open>Data and operations\<close>

definition MAX_PUB_KEY_LEN :: nat where
  "MAX_PUB_KEY_LEN = 256"

record mobile_package =
  pub_key :: bytes

record 'acct mobile = "'acct system" +
  mobile_registry_map :: "'acct \<Rightarrow> mobile_package option"

datatype mobile_error = InvalidKeySize

definition mobile_insert ::
  "'acct \<Rightarrow> mobile_package \<Rightarrow> ('acct, 'z) mobile_scheme \<Rightarrow> ('acct, 'z) mobile_scheme" where
  "mobile_insert who p s = s\<lparr>mobile_registry_map := (mobile_registry_map s)(who := Some p)\<rparr>"

definition ensure_pub_key_valid :: "bytes \<Rightarrow> ('s, mobile_error, unit) rust" where
  [pallet_defs]: "ensure_pub_key_valid k = (if 32 \<le> length k then ret () else throw InvalidKeySize)"

definition register_mobile ::
  "'acct origin \<Rightarrow> bytes \<Rightarrow> (('acct, 'z) mobile_scheme, mobile_error dispatch_error, unit) rust" where
  [pallet_defs]: "register_mobile origin k =
     rbind (ensure_signed origin) (\<lambda>who.
     rbind (map_err Module (ensure_pub_key_valid k)) (\<lambda>_.
     rbind (deposit_event (MobileRegistryEvent (NewMobileRegistered who))) (\<lambda>_.
     rbind (unwrap ''pub_key'' (bounded MAX_PUB_KEY_LEN k)) (\<lambda>k'.
     modify (mobile_insert who \<lparr>pub_key = k'\<rparr>)))))"

section \<open>The interfaces it provides\<close>

interpretation mobile_map: storage_map mobile_registry_map mobile_insert
  by unfold_locales (simp add: mobile_insert_def)

interpretation mobile_call: signed_call "\<lambda>origin. register_mobile origin k" for k
  by (rule ensure_signed_first, unfold register_mobile_def) (rule refl)

lemma mobile_insert_frame [simp]:
  "events (mobile_insert who p s) = events s"
  "offchain_index_writes (mobile_insert who p s) = offchain_index_writes s"
  "mobile.more (mobile_insert who p s) = mobile.more s"
  by (simp_all add: mobile_insert_def)

lemma map_err_ensure_pub_key [simp]:
  "map_err f (ensure_pub_key_valid k) = (if 32 \<le> length k then ret () else throw (f InvalidKeySize))"
  by (simp add: ensure_pub_key_valid_def map_err_def rust_defs)

text \<open>The three ways the call leaves for a signed origin, by the length of the key.\<close>

lemma register_mobile_short:
  "length k < 32 \<Longrightarrow>
   register_mobile (SignedOrigin who) k s = (Err (Module InvalidKeySize), s)"
  by (simp add: register_mobile_def)

abbreviation mobile_registered ::
  "'acct \<Rightarrow> ('acct, 'z) mobile_scheme \<Rightarrow> ('acct, 'z) mobile_scheme" where
  "mobile_registered who s \<equiv>
     s\<lparr>events := events s @ [MobileRegistryEvent (NewMobileRegistered who)]\<rparr>"

lemma register_mobile_ok:
  assumes "32 \<le> length k" "length k \<le> 256"
  shows "register_mobile (SignedOrigin who) k s =
    (Ret (), mobile_insert who \<lparr>pub_key = k\<rparr> (mobile_registered who s))"
  using assms by (simp add: register_mobile_def deposit_event_def MAX_PUB_KEY_LEN_def)

lemma register_mobile_long:
  "256 < length k \<Longrightarrow> register_mobile (SignedOrigin who) k s =
    (Panic (Unwrap ''pub_key''), mobile_registered who s)"
  by (simp add: register_mobile_def deposit_event_def MAX_PUB_KEY_LEN_def)

lemma register_mobile_cases:
  obtains (not_signed) "signed_by origin = None" "register_mobile origin k s = (Err BadOrigin, s)"
  | (short) who where "origin = SignedOrigin who" "length k < 32"
      "register_mobile origin k s = (Err (Module InvalidKeySize), s)"
  | (ok) who where "origin = SignedOrigin who" "32 \<le> length k" "length k \<le> 256"
      "register_mobile origin k s =
         (Ret (), mobile_insert who \<lparr>pub_key = k\<rparr> (mobile_registered who s))"
  | (long) who where "origin = SignedOrigin who" "256 < length k"
      "register_mobile origin k s = (Panic (Unwrap ''pub_key''), mobile_registered who s)"
proof (cases "signed_by origin")
  case None
  with not_signed mobile_call.rejects show thesis by blast
next
  case (Some who)
  then have o: "origin = SignedOrigin who" by (cases origin) (simp_all add: signed_by_def)
  consider "length k < 32" | "32 \<le> length k" "length k \<le> 256" | "256 < length k" by linarith
  then show thesis
  proof cases
    case 1
    then show thesis by (intro short [OF o]) (simp_all add: o register_mobile_short)
  next
    case 2
    then show thesis by (intro ok [OF o]) (simp_all add: o register_mobile_ok)
  next
    case 3
    then show thesis by (intro long [OF o]) (simp_all add: o register_mobile_long)
  qed
qed

section \<open>Properties\<close>

definition mobile_inv :: "('acct, 'z) mobile_scheme \<Rightarrow> bool" where
  "mobile_inv s \<longleftrightarrow> (\<forall>who p. mobile_registry_map s who = Some p \<longrightarrow>
     32 \<le> length (pub_key p) \<and> length (pub_key p) \<le> MAX_PUB_KEY_LEN)"

lemma mobile_inv_registered [simp]: "mobile_inv (mobile_registered who s) = mobile_inv s"
  by (simp add: mobile_inv_def)

lemma mobile_inv_insert:
  assumes "mobile_inv s" "32 \<le> length k" "length k \<le> 256"
  shows "mobile_inv (mobile_insert who \<lparr>pub_key = k\<rparr> s)"
  using assms unfolding mobile_inv_def
  by (intro mobile_map.all_values_insert) (simp_all add: MAX_PUB_KEY_LEN_def)

lemma register_mobile_keeps_inv: "mobile_inv s \<Longrightarrow> mobile_inv (snd (register_mobile origin k s))"
  by (rule register_mobile_cases [of origin k s]) (simp_all add: mobile_inv_insert)

text \<open>
  What the registry promises: a map from accounts to keys in which the last acceptable
  registration of an account wins and every other registration is ignored.
\<close>

definition acceptable :: "'acct \<Rightarrow> 'acct origin \<Rightarrow> bytes \<Rightarrow> bool" where
  "acceptable who origin k \<longleftrightarrow> origin = SignedOrigin who \<and> 32 \<le> length k \<and> length k \<le> 256"

fun registry_spec :: "('acct origin \<times> bytes) list \<Rightarrow> ('acct \<Rightarrow> bytes option) \<Rightarrow> 'acct \<Rightarrow> bytes option" where
  "registry_spec [] m = m"
| "registry_spec ((origin, k) # cs) m =
     registry_spec cs (\<lambda>who. if acceptable who origin k then Some k else m who)"

fun run_registrations ::
  "('acct origin \<times> bytes) list \<Rightarrow> ('acct, 'z) mobile_scheme \<Rightarrow> ('acct, 'z) mobile_scheme" where
  "run_registrations [] s = s"
| "run_registrations ((origin, k) # cs) s = run_registrations cs (snd (register_mobile origin k s))"

definition registry_of :: "('acct, 'z) mobile_scheme \<Rightarrow> 'acct \<Rightarrow> bytes option" where
  "registry_of s who = map_option pub_key (mobile_registry_map s who)"

lemma register_mobile_refines:
  "registry_of (snd (register_mobile origin k s)) =
    (\<lambda>who. if acceptable who origin k then Some k else registry_of s who)"
  by (rule register_mobile_cases [of origin k s])
    (auto simp: fun_eq_iff registry_of_def acceptable_def mobile_map.lookup_insert
      dest!: not_signed_cases)

definition mobile_genesis :: "'acct mobile" where
  "mobile_genesis = \<lparr>events = [], offchain_index_writes = [], mobile_registry_map = (\<lambda>_. None)\<rparr>"

text \<open>C13: Over any sequence of calls, accepted, refused or panicking, the registry refines its
  specification: each account is bound to the key of its last signed registration whose length is
  between 32 and 256, and to what it was bound to before if there is none.\<close>

theorem registry_refines_spec:
  "registry_of (run_registrations cs s) = registry_spec cs (registry_of s)"
  by (induction cs s rule: run_registrations.induct) (simp_all add: register_mobile_refines)

text \<open>register_mobile panics exactly when a signed caller gives a key longer than 256 bytes: it
  has then passed the size check and deposited NewMobileRegistered, and nothing is stored.\<close>

lemma register_mobile_panics_iff:
  "fst (register_mobile origin k s) = Panic p \<longleftrightarrow>
     p = Unwrap ''pub_key'' \<and> 256 < length k \<and> (\<exists>who. origin = SignedOrigin who)"
  by (rule register_mobile_cases [of origin k s]) (auto simp: signed_by_def)

text \<open>Every stored mobile key has at least 32 and at most 256 bytes, and registrations keep it so.\<close>

lemma mobile_keys_bounded:
  assumes "mobile_inv s"
  shows "mobile_inv (run_registrations cs s)"
  using assms
  by (induction cs s rule: run_registrations.induct) (simp_all add: register_mobile_keeps_inv)

lemma mobile_keys_bounded_witness:
  "mobile_inv (run_registrations [(SignedOrigin (1 :: nat), replicate 32 0), (NoneOrigin, [])] mobile_genesis)"
  by (rule mobile_keys_bounded) (simp add: mobile_inv_def mobile_genesis_def)

end
