(* ===== verification/Tx_Validation.thy ===== *)
theory Tx_Validation
  imports Mobile_Registry
begin

text \<open>
  The pallet \<open>pallets/tx-validation\<close>: for an account and the identifier of a garbled message
  circuit it stores the digits displayed by the message and the permutation displayed by the
  pinpad, and later compares what the user typed with them.
\<close>

section \<open>Data and storage\<close>

record display_validation_package =
  message_digits :: bytes
  pinpad_digits :: bytes

datatype tx_error = TxWrongCodeGiven | TxInvalidInputsGiven | StorageOverflow

record 'acct txval = "'acct mobile" +
  circuit_server_metadata_map :: "'acct \<times> bytes \<Rightarrow> display_validation_package option"

definition metadata_insert ::
  "'acct \<times> bytes \<Rightarrow> display_validation_package \<Rightarrow> ('acct, 'z) txval_scheme \<Rightarrow> ('acct, 'z) txval_scheme" where
  "metadata_insert k v s =
     s\<lparr>circuit_server_metadata_map := (circuit_server_metadata_map s)(k := Some v)\<rparr>"

interpretation metadata_map: storage_map circuit_server_metadata_map metadata_insert
  by unfold_locales (simp add: metadata_insert_def)

lemma metadata_insert_frame [simp]:
  "events (metadata_insert k v s) = events s"
  "offchain_index_writes (metadata_insert k v s) = offchain_index_writes s"
  "mobile_registry_map (metadata_insert k v s) = mobile_registry_map s"
  "txval.more (metadata_insert k v s) = txval.more s"
  by (simp_all add: metadata_insert_def)

section \<open>store_metadata\<close>

definition store_metadata_aux ::
  "'acct origin \<Rightarrow> bytes \<Rightarrow> bytes \<Rightarrow> bytes \<Rightarrow> (('acct, 'z) txval_scheme, tx_error dispatch_error, unit) rust" where
  [pallet_defs]: "store_metadata_aux origin message_pgarbled_cid msg pin =
     rbind (ensure_signed origin) (\<lambda>who.
     rbind (deposit_event (TxValidationEvent (DEBUGNewDigitsSet msg pin))) (\<lambda>_.
     rbind (unwrap ''message_pgarbled_cid'' (bounded 64 message_pgarbled_cid)) (\<lambda>cid.
     rbind (unwrap ''message_digits'' (bounded 10 msg)) (\<lambda>m.
     rbind (unwrap ''pinpad_digits'' (bounded 10 pin)) (\<lambda>p.
     modify (metadata_insert (who, cid) \<lparr>message_digits = m, pinpad_digits = p\<rparr>))))))"

definition store_metadata ::
  "'acct origin \<Rightarrow> bytes \<Rightarrow> bytes \<Rightarrow> bytes \<Rightarrow> (('acct, 'z) txval_scheme, tx_error dispatch_error, unit) rust" where
  [pallet_defs]: "store_metadata origin message_pgarbled_cid msg pin =
     store_metadata_aux origin message_pgarbled_cid msg pin"

section \<open>check_input\<close>

text \<open>\<open>u8::try_from(c.to_digit(10).unwrap_or(c as u32))\<close>.\<close>

definition input_digit :: "nat \<Rightarrow> u8 option" where
  "input_digit c = u8_try_from (case to_digit10 c of Some d \<Rightarrow> d | None \<Rightarrow> c)"

text \<open>\<open>v.get(i)\<close>.\<close>

definition vec_get :: "'a list \<Rightarrow> nat \<Rightarrow> 'a option" where
  "vec_get v i = (if i < length v then Some (v ! i) else None)"

text \<open>The first argument says whether the log level lets \<open>log::info!\<close> records through.\<close>

definition check_input ::
  "bool \<Rightarrow> 'acct origin \<Rightarrow> bytes \<Rightarrow> bytes \<Rightarrow> (('acct, 'z) txval_scheme, tx_error dispatch_error, unit) rust" where
  [pallet_defs]: "check_input lg origin ipfs_cid input_digits =
     rbind (ensure_signed origin) (\<lambda>who.
     rbind (unwrap ''ipfs_cid'' (bounded 64 ipfs_cid)) (\<lambda>cid.
     rbind (gets (\<lambda>s. circuit_server_metadata_map s (who, cid))) (\<lambda>entry.
     rbind (unwrap ''display_validation_package'' entry) (\<lambda>pkg.
     rbind (expect ''input_digits utf8'' (utf8_chars input_digits)) (\<lambda>chars.
     rbind (map_collect (\<lambda>c. unwrap ''u8::try_from'' (input_digit c)) chars) (\<lambda>input_digits_int.
     rbind (log_info lg
       (rbind (expect ''input_digits_int utf8'' (from_utf8 input_digits_int)) (\<lambda>_.
        rbind (expect ''pinpad_permutation utf8'' (from_utf8 (pinpad_digits pkg))) (\<lambda>_.
        ret ())))) (\<lambda>_.
     rbind (map_collect (\<lambda>i. unwrap ''pinpad_permutation.get'' (vec_get (pinpad_digits pkg) (unat i)))
       input_digits_int) (\<lambda>computed_inputs_from_permutation.
     if message_digits pkg = computed_inputs_from_permutation
     then rbind (deposit_event (TxValidationEvent (TxPass who))) (\<lambda>_. ret ())
     else rbind (deposit_event (TxValidationEvent (TxFail who))) (\<lambda>_.
       throw (Module TxWrongCodeGiven))))))))))"

section \<open>The interfaces it provides\<close>

interpretation store_call: signed_call "\<lambda>origin. store_metadata origin cid msg pin" for cid msg pin
  by (rule ensure_signed_first, unfold store_metadata_def store_metadata_aux_def) (rule refl)

interpretation check_call: signed_call "\<lambda>origin. check_input lg origin cid input" for lg cid input
  by (rule ensure_signed_first, unfold check_input_def) (rule refl)

abbreviation deposited :: "'acct event \<Rightarrow> ('acct, 'z) system_scheme \<Rightarrow> ('acct, 'z) system_scheme" where
  "deposited e s \<equiv> s\<lparr>events := events s @ [e]\<rparr>"

lemma deposited_frame [simp]:
  "circuit_server_metadata_map (deposited e s) = circuit_server_metadata_map s"
  "mobile_registry_map (deposited e s') = mobile_registry_map s'"
  "offchain_index_writes (deposited e s'') = offchain_index_writes s''"
  by simp_all

lemma rbind_deposit [simp]: "rbind (deposit_event e) f s = f () (deposited e s)"
  by (simp add: deposit_event_def)

lemma deposit_apply [simp]: "deposit_event e s = (Ret (), deposited e s)"
  by (simp add: deposit_event_def)

lemma store_metadata_ok:
  assumes "length cid \<le> 64" "length msg \<le> 10" "length pin \<le> 10"
  shows "store_metadata (SignedOrigin who) cid msg pin s =
    (Ret (), metadata_insert (who, cid) \<lparr>message_digits = msg, pinpad_digits = pin\<rparr>
       (deposited (TxValidationEvent (DEBUGNewDigitsSet msg pin)) s))"
  using assms by (simp add: store_metadata_def store_metadata_aux_def)

lemma store_metadata_too_long:
  assumes "64 < length cid \<or> 10 < length msg \<or> 10 < length pin"
  shows "\<exists>site. store_metadata (SignedOrigin who) cid msg pin s =
    (Panic (Unwrap site), deposited (TxValidationEvent (DEBUGNewDigitsSet msg pin)) s)"
  using assms
  by (cases "64 < length cid"; cases "10 < length msg")
    (auto simp: store_metadata_def store_metadata_aux_def not_less)

subsection \<open>What was typed\<close>

text \<open>
  Either the ASCII digits of a text box or the digits themselves: the byte typed, as an index
  into the pinpad.
\<close>

definition typed_index :: "u8 \<Rightarrow> nat" where
  "typed_index b = (if 48 \<le> unat b \<and> unat b \<le> 57 then unat b - 48 else unat b)"

lemma typed_index_less: "unat b < 128 \<Longrightarrow> typed_index b < 128"
  by (auto simp: typed_index_def)

lemma input_digit_ascii:
  "unat b < 128 \<Longrightarrow> input_digit (unat b) = Some (byte_of (typed_index b))"
  by (auto simp: input_digit_def to_digit10_def u8_try_from_def typed_index_def split: if_splits)

lemma rbind_typed:
  assumes "is_ascii input"
  shows "rbind (map_collect (\<lambda>c. unwrap what (input_digit c)) (map unat input)) k s =
    k (map (\<lambda>b. byte_of (typed_index b)) input) s"
  using assms
  by (intro rbind_Ret map_collect_map_total) (simp add: is_ascii_def input_digit_ascii)

lemma typed_valid: "is_ascii input \<Longrightarrow> valid_utf8 (map (\<lambda>b. byte_of (typed_index b)) input)"
  by (intro valid_ascii) (auto simp: is_ascii_def dest!: typed_index_less)

text \<open>What the log statement demands of the stored permutation, when it is evaluated.\<close>

definition log_safe :: "bool \<Rightarrow> display_validation_package \<Rightarrow> bool" where
  "log_safe lg pkg \<longleftrightarrow> (lg \<longrightarrow> valid_utf8 (pinpad_digits pkg))"

lemma check_input_reaches_pinpad:
  assumes "length cid \<le> 64" "circuit_server_metadata_map s (who, cid) = Some pkg"
    and "is_ascii input" "log_safe lg pkg"
  shows "check_input lg (SignedOrigin who) cid input s =
    rbind (map_collect (\<lambda>i. unwrap ''pinpad_permutation.get'' (vec_get (pinpad_digits pkg) (unat i)))
       (map (\<lambda>b. byte_of (typed_index b)) input)) (\<lambda>computed.
     if message_digits pkg = computed
     then rbind (deposit_event (TxValidationEvent (TxPass who))) (\<lambda>_. ret ())
     else rbind (deposit_event (TxValidationEvent (TxFail who))) (\<lambda>_.
       throw (Module TxWrongCodeGiven))) s"
  using assms typed_valid [OF assms(3)]
  by (cases lg) (simp_all add: check_input_def utf8_chars_ascii rbind_typed
      from_utf8_valid log_safe_def)

definition in_pinpad :: "bytes \<Rightarrow> u8 \<Rightarrow> bool" where
  "in_pinpad pin b \<longleftrightarrow> unat b < 128 \<and> typed_index b < length pin"

definition computed_inputs :: "bytes \<Rightarrow> bytes \<Rightarrow> bytes" where
  "computed_inputs pin input = map (\<lambda>b. pin ! typed_index b) input"

lemma in_pinpad_ascii: "\<forall>b \<in> set input. in_pinpad pin b \<Longrightarrow> is_ascii input"
  by (simp add: in_pinpad_def is_ascii_def)

lemma rbind_pinpad:
  assumes "\<forall>b \<in> set input. in_pinpad pin b"
  shows "rbind (map_collect (\<lambda>i. unwrap what (vec_get pin (unat i)))
      (map (\<lambda>b. byte_of (typed_index b)) input)) k s = k (computed_inputs pin input) s"
proof -
  have step: "unwrap what (vec_get pin (unat (byte_of (typed_index b)))) s = (Ret (pin ! typed_index b), s)"
    if "b \<in> set input" for b
    using assms that typed_index_less [of b] by (simp add: in_pinpad_def vec_get_def)
  show ?thesis unfolding computed_inputs_def
    by (rule rbind_Ret, rule map_collect_map_total) (rule step)
qed

lemma check_input_verdict:
  assumes "length cid \<le> 64" "circuit_server_metadata_map s (who, cid) = Some pkg"
    and "\<forall>b \<in> set input. in_pinpad (pinpad_digits pkg) b" "log_safe lg pkg"
  shows "check_input lg (SignedOrigin who) cid input s =
    (if message_digits pkg = computed_inputs (pinpad_digits pkg) input
     then (Ret (), deposited (TxValidationEvent (TxPass who)) s)
     else (Err (Module TxWrongCodeGiven), deposited (TxValidationEvent (TxFail who)) s))"
  unfolding check_input_reaches_pinpad [OF assms(1,2) in_pinpad_ascii [OF assms(3)] assms(4)]
    rbind_pinpad [OF assms(3)]
  by simp

section \<open>Properties\<close>

subsection \<open>Every exit of check_input\<close>

lemma check_input_exit_cases:
  assumes "check_input lg origin cid input s = (r, t)"
  shows "(\<exists>who. origin = SignedOrigin who \<and>
       (r = Ret () \<and> t = deposited (TxValidationEvent (TxPass who)) s
        \<or> r = Err (Module TxWrongCodeGiven) \<and> t = deposited (TxValidationEvent (TxFail who)) s
        \<or> (\<exists>p. r = Panic p) \<and> t = s))
     \<or> signed_by origin = None \<and> r = Err BadOrigin \<and> t = s"
proof (cases "signed_by origin")
  case None
  with assms check_call.rejects [OF None, of lg cid input s] show ?thesis by simp
next
  case (Some who)
  then have o: "origin = SignedOrigin who" by (cases origin) (simp_all add: signed_by_def)
  define Q :: "(tx_error dispatch_error, unit) exit \<times> ('a, 'b) txval_scheme \<Rightarrow> bool" where
    "Q = (\<lambda>(r, t). r = Ret () \<and> t = deposited (TxValidationEvent (TxPass who)) s
        \<or> r = Err (Module TxWrongCodeGiven) \<and> t = deposited (TxValidationEvent (TxFail who)) s
        \<or> (\<exists>p. r = Panic p) \<and> t = s)"
  have "Q (check_input lg origin cid input s)"
    unfolding o check_input_def ensure_signed_Signed rbind_ret
    by (intro quiet_step [of _ _ Q] quiet_intros) (auto simp: Q_def)
  with assms o show ?thesis by (auto simp: Q_def)
qed

lemma check_input_storage [simp]:
  "circuit_server_metadata_map (snd (check_input lg origin cid input s)) = circuit_server_metadata_map s"
  using check_input_exit_cases [of lg origin cid input s "fst (check_input lg origin cid input s)"
      "snd (check_input lg origin cid input s)"] by auto

subsection \<open>A pinpad and the code it asks for\<close>

text \<open>
  \<open>(0..10).collect()\<close> in the garble pallet, shuffled: a pinpad shows each digit once.
\<close>

definition is_pinpad :: "bytes \<Rightarrow> bool" where
  "is_pinpad pin \<longleftrightarrow> mset pin = mset (map byte_of [0..<10])"

definition digit :: "u8 \<Rightarrow> bool" where
  "digit b \<longleftrightarrow> unat b < 10"

lemma digits_distinct: "distinct (map byte_of [0..<10])"
  by (simp add: byte_of_def upt_rec)

lemma pinpad_facts:
  assumes "is_pinpad pin"
  shows "length pin = 10" "distinct pin" "set pin = {b. digit b}"
proof -
  from assms have m: "mset pin = mset (map byte_of [0..<10])" by (simp add: is_pinpad_def)
  from mset_eq_length [OF m] show "length pin = 10" by simp
  from mset_eq_imp_distinct_iff [OF m] digits_distinct show "distinct pin" by simp
  from mset_eq_setD [OF m] show "set pin = {b. digit b}"
    by (auto simp: digit_def image_iff) (metis atLeastLessThan_iff byte_of_unat le0)
qed

lemma digit_ascii: "\<forall>b \<in> set v. digit b \<Longrightarrow> is_ascii v"
  by (auto simp: is_ascii_def digit_def)

lemma pinpad_log_safe: "is_pinpad (pinpad_digits pkg) \<Longrightarrow> log_safe lg pkg"
  by (simp add: log_safe_def valid_ascii digit_ascii pinpad_facts)

lemma typed_index_digit: "digit b \<Longrightarrow> typed_index b = unat b"
  by (simp add: typed_index_def digit_def)

lemma digit_in_pinpad: "is_pinpad pin \<Longrightarrow> digit b \<Longrightarrow> in_pinpad pin b"
  by (simp add: in_pinpad_def pinpad_facts typed_index_digit) (simp add: digit_def)

lemma computed_inputs_digits:
  "\<forall>b \<in> set input. digit b \<Longrightarrow> computed_inputs pin input = map ((!) pin) (map unat input)"
  by (simp add: computed_inputs_def typed_index_digit)

lemma unique_code:
  assumes pin: "is_pinpad pin" and msg: "\<forall>d \<in> set msg. digit d"
  shows "\<exists>!input. (\<forall>b \<in> set input. digit b) \<and> computed_inputs pin input = msg"
proof -
  note p = pinpad_facts [OF pin]
  have "\<forall>d \<in> set msg. \<exists>i < 10. pin ! i = d"
    using msg p by (metis in_set_conv_nth mem_Collect_eq)
  then obtain f where f: "\<forall>d \<in> set msg. f d < 10 \<and> pin ! f d = d"
    by metis
  define code where "code = map (\<lambda>d. byte_of (f d)) msg"
  have u: "unat (byte_of (f d)) = f d" if "d \<in> set msg" for d
    using f that by (intro unat_byte_of) force
  have code: "\<forall>b \<in> set code. digit b" "computed_inputs pin code = msg"
    using f u by (auto simp: code_def digit_def computed_inputs_digits map_idI)
  moreover have "input = code"
    if i: "\<forall>b \<in> set input. digit b" and c: "computed_inputs pin input = msg" for input
  proof -
    have "map ((!) pin) (map unat input) = map ((!) pin) (map unat code)"
      using c code i by (simp only: computed_inputs_digits)
    then have "map unat input = map unat code"
      using i code(1) by (subst (asm) map_nth_inj_on) (auto simp: p digit_def)
    then show ?thesis by (metis byte_of_unat map_idI map_map comp_apply)
  qed
  ultimately show ?thesis by blast
qed

subsection \<open>Bounds of the stored packages\<close>

definition txval_inv :: "('acct, 'z) txval_scheme \<Rightarrow> bool" where
  "txval_inv s \<longleftrightarrow> (\<forall>who cid pkg. circuit_server_metadata_map s (who, cid) = Some pkg \<longrightarrow>
     length cid \<le> 64 \<and> length (message_digits pkg) \<le> 10 \<and> length (pinpad_digits pkg) \<le> 10)"

lemma store_metadata_exit_cases:
  obtains (not_signed) "signed_by origin = None" "store_metadata origin cid msg pin s = (Err BadOrigin, s)"
  | (stored) who where "origin = SignedOrigin who" "length cid \<le> 64" "length msg \<le> 10" "length pin \<le> 10"
      "store_metadata origin cid msg pin s =
        (Ret (), metadata_insert (who, cid) \<lparr>message_digits = msg, pinpad_digits = pin\<rparr>
           (deposited (TxValidationEvent (DEBUGNewDigitsSet msg pin)) s))"
  | (too_long) who site where "origin = SignedOrigin who"
      "64 < length cid \<or> 10 < length msg \<or> 10 < length pin"
      "store_metadata origin cid msg pin s =
        (Panic (Unwrap site), deposited (TxValidationEvent (DEBUGNewDigitsSet msg pin)) s)"
proof (cases "signed_by origin")
  case None
  show thesis by (rule not_signed [OF None store_call.rejects [OF None]])
next
  case (Some who)
  then have o: "origin = SignedOrigin who" by (cases origin) (simp_all add: signed_by_def)
  show thesis
  proof (cases "64 < length cid \<or> 10 < length msg \<or> 10 < length pin")
    case True
    from store_metadata_too_long [OF True, of who s] obtain site
      where "store_metadata (SignedOrigin who) cid msg pin s =
        (Panic (Unwrap site), deposited (TxValidationEvent (DEBUGNewDigitsSet msg pin)) s)" ..
    with o True show thesis by (intro too_long [OF o True]) simp
  next
    case False
    with o show thesis by (intro stored [OF o]) (simp_all add: store_metadata_ok)
  qed
qed

lemma store_metadata_keeps_inv: "txval_inv s \<Longrightarrow> txval_inv (snd (store_metadata origin cid msg pin s))"
  by (rule store_metadata_exit_cases [of origin cid msg pin s])
    (auto simp: txval_inv_def metadata_map.lookup_insert)

lemma check_input_keeps_inv: "txval_inv s \<Longrightarrow> txval_inv (snd (check_input lg origin cid input s))"
  by (simp add: txval_inv_def)

lemma digit_plus_48: "digit d \<Longrightarrow> unat (d + 48) = unat d + 48"
  by (simp add: digit_def unat_word_ariths)

lemma typed_index_ascii: "digit d \<Longrightarrow> typed_index (d + 48) = unat d"
  by (simp add: typed_index_def digit_plus_48) (simp add: digit_def)

text \<open>The genesis storage of the pallets so far, for the concrete runs below.\<close>

definition txval_genesis :: "'acct txval" where
  "txval_genesis = \<lparr>events = [], offchain_index_writes = [], mobile_registry_map = (\<lambda>_. None),
     circuit_server_metadata_map = (\<lambda>_. None)\<rparr>"

text \<open>The package of the repository's tests: message 3, 4 on a shuffled pinpad.\<close>

definition demo_package :: display_validation_package where
  "demo_package = \<lparr>message_digits = [3, 4], pinpad_digits = [4, 5, 6, 0, 1, 2, 3, 7, 8, 9]\<rparr>"

definition demo_state :: "nat txval" where
  "demo_state = metadata_insert (42, [1, 2]) demo_package txval_genesis"

lemma demo_facts:
  "circuit_server_metadata_map demo_state (42, [1, 2]) = Some demo_package"
  "is_pinpad (pinpad_digits demo_package)"
  "\<forall>d \<in> set (message_digits demo_package). digit d"
  by (simp_all add: demo_state_def demo_package_def metadata_map.lookup_insert digit_def is_pinpad_def
      byte_of_def upt_rec add_mset_commute)

subsection \<open>Histories of attempts\<close>

text \<open>Any calls of check_input, by anyone, on any circuit, at any log level.\<close>

fun run_attempts ::
  "(bool \<times> 'acct origin \<times> bytes \<times> bytes) list \<Rightarrow> ('acct, 'z) txval_scheme \<Rightarrow> ('acct, 'z) txval_scheme" where
  "run_attempts [] s = s"
| "run_attempts ((lg, origin, cid, input) # as) s =
     run_attempts as (snd (check_input lg origin cid input s))"

lemma run_attempts_storage [simp]:
  "circuit_server_metadata_map (run_attempts as s) = circuit_server_metadata_map s"
  by (induction as s rule: run_attempts.induct) simp_all

subsection \<open>The properties\<close>

text \<open>C4: With a pinpad that shows each digit once and a message made of digits, there is exactly one
  sequence of digits that check_input accepts for the account and circuit it was stored for.\<close>

theorem check_input_unique_answer:
  assumes "length cid \<le> 64" "circuit_server_metadata_map s (who, cid) = Some pkg"
    and "is_pinpad (pinpad_digits pkg)" "\<forall>d \<in> set (message_digits pkg). digit d"
  shows "\<exists>!input. (\<forall>b \<in> set input. digit b)
    \<and> fst (check_input lg (SignedOrigin who) cid input s) = Ret ()"
proof -
  have "fst (check_input lg (SignedOrigin who) cid input s) = Ret () \<longleftrightarrow>
      computed_inputs (pinpad_digits pkg) input = message_digits pkg"
    if "\<forall>b \<in> set input. digit b" for input
    using that assms by (subst check_input_verdict) (auto simp: digit_in_pinpad pinpad_log_safe)
  with unique_code [OF assms(3,4)] show ?thesis by (metis (no_types, lifting))
qed

theorem check_input_unique_answer_witness:
  "\<exists>!input. (\<forall>b \<in> set input. digit b)
    \<and> fst (check_input True (SignedOrigin 42) [1, 2] input demo_state) = Ret ()"
  by (rule check_input_unique_answer [OF _ demo_facts]) simp

text \<open>Typing the digits as ASCII characters or as raw digits is the same call, for every
  caller, circuit and state.\<close>

lemma check_input_ascii_or_raw:
  assumes "\<forall>d \<in> set ds. digit d"
  shows "check_input lg origin cid (map (\<lambda>d. d + 48) ds) s = check_input lg origin cid ds s"
proof -
  have a: "is_ascii ds" "is_ascii (map (\<lambda>d. d + 48) ds)"
    using assms by (auto simp: is_ascii_def digit_plus_48 digit_def)
  have t: "map (\<lambda>b. byte_of (typed_index b)) (map (\<lambda>d. d + 48) ds) = map (\<lambda>b. byte_of (typed_index b)) ds"
    using assms by (simp add: typed_index_ascii typed_index_digit)
  have eq: "rbind (map_collect (\<lambda>c. unwrap what (input_digit c)) (map unat (map (\<lambda>d. d + 48) ds))) k =
      rbind (map_collect (\<lambda>c. unwrap what (input_digit c)) (map unat ds)) k"
    for what k
    by (rule ext) (simp only: rbind_typed [OF a(1)] rbind_typed [OF a(2)] t)
  show ?thesis
    unfolding check_input_def utf8_chars_ascii [OF a(1)] utf8_chars_ascii [OF a(2)]
      expect_Some rbind_ret eq ..
qed

lemma check_input_ascii_or_raw_witness:
  "check_input True (SignedOrigin 42) [1, 2] [54, 48] demo_state =
   check_input True (SignedOrigin 42) [1, 2] [6, 0] demo_state"
  using check_input_ascii_or_raw [of "[6, 0]" True "SignedOrigin 42" "[1, 2]" demo_state]
  by (simp add: digit_def)

text \<open>C20: However check_input leaves, it writes no storage: it deposits one TxPass event and
  returns Ok, deposits one TxFail event and returns TxWrongCodeGiven, rejects an unsigned origin, or
  panics. The declared errors TxInvalidInputsGiven and StorageOverflow are never returned.\<close>

theorem check_input_exits:
  "case check_input lg origin cid input s of
     (Ret _, t) \<Rightarrow> \<exists>who. origin = SignedOrigin who \<and> t = deposited (TxValidationEvent (TxPass who)) s
   | (Err (Module e), t) \<Rightarrow> e = TxWrongCodeGiven
       \<and> (\<exists>who. origin = SignedOrigin who \<and> t = deposited (TxValidationEvent (TxFail who)) s)
   | (Err BadOrigin, t) \<Rightarrow> signed_by origin = None \<and> t = s
   | (Panic _, t) \<Rightarrow> t = s"
proof -
  obtain r t where c: "check_input lg origin cid input s = (r, t)" by fastforce
  from check_input_exit_cases [OF c] c show ?thesis by auto
qed

text \<open>A typed character that is no index of the pinpad makes check_input panic, whatever
  is typed after it, although the error TxInvalidInputsGiven is declared for such inputs.\<close>

lemma check_input_bad_digit_panics:
  assumes "length cid \<le> 64" "circuit_server_metadata_map s (who, cid) = Some pkg" "log_safe lg pkg"
    and "\<forall>x \<in> set xs. in_pinpad (pinpad_digits pkg) x"
    and "unat b < 128" "length (pinpad_digits pkg) \<le> typed_index b" "is_ascii ys"
  shows "check_input lg (SignedOrigin who) cid (xs @ b # ys) s =
    (Panic (Unwrap ''pinpad_permutation.get''), s)"
proof -
  let ?f = "\<lambda>i :: u8. unwrap ''pinpad_permutation.get'' (vec_get (pinpad_digits pkg) (unat i))"
  let ?t = "\<lambda>b. byte_of (typed_index b)"
  have step: "?f (?t x) s = (Ret (pinpad_digits pkg ! typed_index x), s)" if "x \<in> set xs" for x
    using assms(4) that typed_index_less [of x] by (simp add: in_pinpad_def vec_get_def)
  have "?f (?t b) s = (Panic (Unwrap ''pinpad_permutation.get''), s)"
    using assms(5,6) typed_index_less [of b] by (simp add: vec_get_def)
  with step have "map_collect ?f (map ?t (xs @ b # ys)) s = (Panic (Unwrap ''pinpad_permutation.get''), s)"
    by (rule map_collect_first_panic [where f = ?f and h = ?t
          and g = "\<lambda>x. pinpad_digits pkg ! typed_index x"])
  moreover have ascii: "is_ascii (xs @ b # ys)"
    using assms(4,5,7) by (auto simp: is_ascii_def in_pinpad_def)
  ultimately show ?thesis
    unfolding check_input_reaches_pinpad [OF assms(1,2) ascii assms(3)] by (intro rbind_Panic)
qed

lemma check_input_bad_digit_panics_witness:
  "check_input True (SignedOrigin 42) [1, 2] [6, 97] demo_state =
    (Panic (Unwrap ''pinpad_permutation.get''), demo_state)"
  using check_input_bad_digit_panics [of "[1, 2]" demo_state 42 demo_package True "[6]" 97 "[]"]
    pinpad_log_safe [OF demo_facts(2)]
  by (simp add: demo_facts in_pinpad_def typed_index_def is_ascii_def) (simp add: demo_package_def)

text \<open>The outcome of check_input does not depend on the attempts made before it: after any
  history of attempts, right or wrong, by anyone, a code is accepted, refused or makes the call panic
  exactly as it did before. Nothing limits the number of tries, and an accepted code can be replayed.\<close>

lemma check_input_allows_retry:
  assumes "length cid \<le> 64" "circuit_server_metadata_map s (who, cid) = Some pkg"
    and "\<forall>b \<in> set input. in_pinpad (pinpad_digits pkg) b" "log_safe lg pkg"
  shows "fst (check_input lg (SignedOrigin who) cid input (run_attempts as s)) =
         fst (check_input lg (SignedOrigin who) cid input s)"
  using assms by (simp add: check_input_verdict)

lemma check_input_allows_retry_witness:
  "fst (check_input True (SignedOrigin 42) [1, 2] [6, 0]
     (run_attempts [(True, SignedOrigin 42, [1, 2], [0, 0]), (True, SignedOrigin 42, [1, 2], [6, 0])] demo_state)) =
   fst (check_input True (SignedOrigin 42) [1, 2] [6, 0] demo_state)"
  using demo_facts digit_in_pinpad [OF demo_facts(2)]
  by (intro check_input_allows_retry pinpad_log_safe) (auto simp: digit_def)

text \<open>Any account can pass its own validation without a circuit: after storing digits of its
  choice under any identifier with store_metadata, typing them on the pinpad it also chose passes, and
  the event TxPass is deposited for it.\<close>

lemma self_issued_code_passes:
  assumes "length cid \<le> 64" "length msg \<le> 10" "\<forall>d \<in> set msg. digit d"
  shows "\<exists>t. store_metadata (SignedOrigin who) cid msg (map byte_of [0..<10]) s = (Ret (), t) \<and>
     check_input lg (SignedOrigin who) cid msg t = (Ret (), deposited (TxValidationEvent (TxPass who)) t)"
proof -
  let ?pin = "map byte_of [0..<10]"
  have pin: "is_pinpad ?pin" by (simp add: is_pinpad_def)
  have "map ((!) ?pin) (map unat msg) = msg"
    using assms(3) by (auto simp: digit_def nth_append intro!: map_idI)
  then have c: "computed_inputs ?pin msg = msg"
    using assms(3) by (simp only: computed_inputs_digits)
  have pass: "check_input lg (SignedOrigin who) cid msg (metadata_insert (who, cid) \<lparr>message_digits = msg, pinpad_digits = ?pin\<rparr> u) =
      (Ret (), deposited (TxValidationEvent (TxPass who)) (metadata_insert (who, cid) \<lparr>message_digits = msg, pinpad_digits = ?pin\<rparr> u))"
    for u
    using assms pin c digit_in_pinpad [OF pin]
    by (subst check_input_verdict [where pkg = "\<lparr>message_digits = msg, pinpad_digits = ?pin\<rparr>"])
      (simp_all add: metadata_map.lookup_same pinpad_log_safe)
  have "length ?pin \<le> 10" by simp
  from store_metadata_ok [OF assms(1,2) this] show ?thesis by (intro exI conjI) (assumption, rule pass)
qed

lemma self_issued_code_passes_witness:
  "\<exists>t. store_metadata (SignedOrigin 42) [1, 2] [3, 4] (map byte_of [0..<10]) txval_genesis = (Ret (), t) \<and>
     check_input True (SignedOrigin (42 :: nat)) [1, 2] [3, 4] t =
       (Ret (), deposited (TxValidationEvent (TxPass 42)) t)"
  by (rule self_issued_code_passes) (simp_all add: digit_def)

text \<open>store_metadata and check_input keep every stored entry within the bounds of its key and
  of its two digit vectors, however they leave.\<close>

lemma txval_bounds_invariant:
  assumes "txval_inv s"
  shows "txval_inv (snd (store_metadata origin cid msg pin s))
    \<and> txval_inv (snd (check_input lg origin cid input s))"
  using assms by (intro conjI store_metadata_keeps_inv check_input_keeps_inv)

lemma txval_bounds_invariant_witness:
  "txval_inv (snd (store_metadata (SignedOrigin (42 :: nat)) [1, 2] [3, 4] [4, 5] txval_genesis))"
  by (rule conjunct1 [OF txval_bounds_invariant]) (simp add: txval_inv_def txval_genesis_def)

text \<open>Whether check_input accepts or panics can depend on the node's log level: if the stored
  permutation is not UTF-8, the right code passes with info logging off and panics with it on.\<close>

lemma check_input_depends_on_log_level:
  assumes "length cid \<le> 64" "circuit_server_metadata_map s (who, cid) = Some pkg"
    and "\<forall>b \<in> set input. in_pinpad (pinpad_digits pkg) b"
    and "message_digits pkg = computed_inputs (pinpad_digits pkg) input"
    and "\<not> valid_utf8 (pinpad_digits pkg)"
  shows "fst (check_input False (SignedOrigin who) cid input s) = Ret ()
    \<and> check_input True (SignedOrigin who) cid input s = (Panic (Expect ''pinpad_permutation utf8''), s)"
proof
  show "fst (check_input False (SignedOrigin who) cid input s) = Ret ()"
    using assms by (subst check_input_verdict) (simp_all add: log_safe_def)
  from in_pinpad_ascii [OF assms(3)] have a: "is_ascii input" .
  show "check_input True (SignedOrigin who) cid input s = (Panic (Expect ''pinpad_permutation utf8''), s)"
    using assms typed_valid [OF a]
    by (simp add: check_input_def utf8_chars_ascii [OF a] rbind_typed [OF a] from_utf8_valid)
qed

lemma check_input_depends_on_log_level_witness:
  "check_input True (SignedOrigin 42) [1, 2] [0]
     (metadata_insert (42 :: nat, [1, 2]) \<lparr>message_digits = [0x80], pinpad_digits = [0x80]\<rparr> txval_genesis) =
   (Panic (Expect ''pinpad_permutation utf8''),
    metadata_insert (42, [1, 2]) \<lparr>message_digits = [0x80], pinpad_digits = [0x80]\<rparr> txval_genesis)"
  by (rule conjunct2 [OF check_input_depends_on_log_level [where pkg = "\<lparr>message_digits = [0x80], pinpad_digits = [0x80]\<rparr>"]])
    (simp_all add: metadata_map.lookup_same in_pinpad_def typed_index_def computed_inputs_def valid_utf8_def
      utf8_step_def)

end
