(* ===== verification/Ocw_Common.thy ===== *)
theory Ocw_Common
  imports Frame
begin

text \<open>
  The crate \<open>ocw-common\<close>: gRPC-web framing of a protobuf message (\<open>encode_body\<close>,
  \<open>decode_body\<close>) and one HTTP round trip of an off-chain worker (\<open>fetch_from_remote_grpc_web\<close>).
  The protobuf and base64 codecs are arguments, and so is the host: the clock and the two HTTP
  calls, on a world of which nothing is known. A response header is a pair of texts; a value that
  is not UTF-8 is not found by \<open>Headers::find\<close>, so the host does not list it.
\<close>

section \<open>Framing\<close>

text \<open>Reads of a \<open>bytes::Bytes\<close> buffer panic past its end.\<close>

definition buf_advance :: "nat \<Rightarrow> bytes \<Rightarrow> ('s, 'e, bytes) rust" where
  "buf_advance n b = (if n \<le> length b then ret (drop n b) else panic_with (OutOfRange ''advance''))"

definition buf_get_u32 :: "bytes \<Rightarrow> ('s, 'e, nat \<times> bytes) rust" where
  "buf_get_u32 v = (case v of
     a # b # c # d # r \<Rightarrow> ret (u32_of_be a b c d, r)
   | _ \<Rightarrow> panic_with (OutOfRange ''get_u32''))"

definition buf_split_to :: "nat \<Rightarrow> bytes \<Rightarrow> ('s, 'e, bytes \<times> bytes) rust" where
  "buf_split_to n b = (if n \<le> length b then ret (take n b, drop n b)
     else panic_with (OutOfRange ''split_to''))"

text \<open>
  The buffer starts with five bytes left for the header; the message is encoded after them, then
  the compression flag and the length, cut to 32 bits, are written over them.
\<close>

definition encode_body :: "('m \<Rightarrow> bytes option) \<Rightarrow> 'm \<Rightarrow> ('s, 'e, bytes) rust" where
  "encode_body enc input =
     rbind (unwrap ''input.encode'' (enc input)) (\<lambda>payload.
       let buf = replicate 5 0 @ payload;
           len = length buf - 5;
           buf = [0] @ be_u32 (word_of_nat len) @ drop 5 buf
       in ret (take (len + 5) buf))"

datatype grpc_web_content_type = GrpcWeb | GrpcWebTextProto | UnknownContentType

definition decode_body ::
  "(bytes \<Rightarrow> bytes option) \<Rightarrow> (bytes \<Rightarrow> 'm option) \<Rightarrow> bytes \<Rightarrow> grpc_web_content_type \<Rightarrow>
   ('s, 'e, 'm \<times> bytes) rust" where
  "decode_body base64_decode dec body_bytes grpc_content_type =
     rbind (case grpc_content_type of
              GrpcWebTextProto \<Rightarrow> unwrap ''base64::decode'' (base64_decode body_bytes)
            | _ \<Rightarrow> ret body_bytes) (\<lambda>body.
     rbind (buf_advance 1 body) (\<lambda>body.
     rbind (buf_get_u32 body) (\<lambda>(len, body).
     rbind (buf_split_to len body) (\<lambda>(msg, body).
     rbind (expect ''decode'' (dec msg)) (\<lambda>reply.
     rbind (buf_advance 5 body) (\<lambda>trailers.
     ret (reply, trailers)))))))"

lemma quiet_buf [quiet_intros]:
  "quiet (buf_advance n b)" "quiet (buf_get_u32 b)" "quiet (buf_split_to n b)"
  by (auto simp: buf_advance_def buf_get_u32_def buf_split_to_def quiet_intros split: list.splits)

lemma quiet_encode_body [quiet_intros]: "quiet (encode_body enc m)"
  by (simp add: encode_body_def Let_def quiet_intros)

lemma quiet_decode_body [quiet_intros]: "quiet (decode_body b64 dec v ct)"
  unfolding decode_body_def
  by (intro quiet_intros) (auto intro!: quiet_intros split: grpc_web_content_type.splits prod.splits)

text \<open>The frame: a zero byte, the length in four bytes, the message.\<close>

definition frame :: "bytes \<Rightarrow> bytes" where
  "frame payload = 0 # be_u32 (word_of_nat (length payload)) @ payload"

lemma encode_body_frame: "enc m = Some payload \<Longrightarrow> encode_body enc m s = (Ret (frame payload), s)"
  by (simp add: encode_body_def frame_def)

lemma decode_body_frame:
  assumes "length payload < 2 ^ 32"
  shows "decode_body b64 dec (frame payload @ rest) GrpcWeb s =
    rbind (expect ''decode'' (dec payload)) (\<lambda>reply.
    rbind (buf_advance 5 rest) (\<lambda>trailers. ret (reply, trailers))) s"
proof -
  obtain a b c d where w: "be_u32 (word_of_nat (length payload)) = [a, b, c, d]"
    "u32_of_be a b c d = unat (word_of_nat (length payload) :: u32)"
    by (rule u32_be_roundtrip)
  moreover have "unat (word_of_nat (length payload) :: u32) = length payload"
    using assms by (simp add: unat_of_nat)
  ultimately show ?thesis
    by (simp add: decode_body_def frame_def buf_advance_def [of "Suc 0"] buf_get_u32_def buf_split_to_def)
qed

lemma rbind_encode: "enc m = Some payload \<Longrightarrow> rbind (encode_body enc m) f s = f (frame payload) s"
  by (rule rbind_Ret) (rule encode_body_frame)

lemma rbind_decode:
  assumes "length payload < 2 ^ 32" "dec payload = Some m" "5 \<le> length trailer"
  shows "rbind (decode_body b64 dec (frame payload @ trailer) GrpcWeb) f s = f (m, drop 5 trailer) s"
  using assms by (intro rbind_Ret) (simp add: decode_body_frame buf_advance_def)

lemma decode_body_text:
  "b64 v = Some w \<Longrightarrow> decode_body b64 dec v GrpcWebTextProto = decode_body b64 dec w GrpcWeb"
  by (simp add: decode_body_def)

section \<open>One HTTP round trip\<close>

datatype http_error = DeadlineReached | IoError | Unknown

record http_request =
  req_url :: string
  req_body :: "bytes list"
  req_headers :: "(string \<times> string) list"
  req_deadline :: u64

record http_response =
  resp_code :: u16
  resp_headers :: "(string \<times> string) list"
  resp_body :: bytes

text \<open>
  The host functions. \<open>http_send\<close> gives a pending request or fails; \<open>try_wait\<close> gives the
  request back when the deadline passed (\<open>Inl\<close>), or an error or a response.
\<close>

record ('w, 'p) http_host =
  timestamp :: "'w \<Rightarrow> u64"
  add_millis :: "u64 \<Rightarrow> u64 \<Rightarrow> u64"
  http_send :: "http_request \<Rightarrow> 'w \<Rightarrow> 'p option \<times> 'w"
  try_wait :: "'p \<Rightarrow> u64 \<Rightarrow> 'w \<Rightarrow> ('p + (http_error + http_response)) \<times> 'w"

text \<open>The worker's side: the host's world, and the requests it has handed over.\<close>

record 'w net =
  world :: 'w
  requests :: "http_request list"

definition host :: "('w \<Rightarrow> 'a \<times> 'w) \<Rightarrow> (('w, 'z) net_scheme, 'e, 'a) rust" where
  "host f = (\<lambda>s. case f (world s) of (x, w) \<Rightarrow> (Ret x, s\<lparr>world := w\<rparr>))"

lemma rbind_host [simp]:
  "rbind (host f) k s = (case f (world s) of (x, w) \<Rightarrow> k x (s\<lparr>world := w\<rparr>))"
  by (simp add: host_def rbind_def split: prod.splits)

definition content_type_of :: "string \<Rightarrow> grpc_web_content_type" where
  "content_type_of t =
     (if t = ''application/grpc-web'' then GrpcWeb
      else if t = ''application/grpc-web+proto'' then GrpcWeb
      else if t = ''application/grpc-web-text+proto'' then GrpcWebTextProto
      else UnknownContentType)"

definition fetch_from_remote_grpc_web ::
  "('w, 'p) http_host \<Rightarrow> bytes \<Rightarrow> string \<Rightarrow>
   (('w, 'z) net_scheme, http_error, bytes \<times> grpc_web_content_type) rust" where
  "fetch_from_remote_grpc_web h body_bytes url =
     rbind (gets (\<lambda>s. add_millis h (timestamp h (world s)) 10000)) (\<lambda>deadline.
     let request = \<lparr>req_url = url, req_body = [body_bytes],
       req_headers = [(''Content-Type'', ''application/grpc-web''), (''X-Grpc-Web'', ''1'')],
       req_deadline = deadline\<rparr> in
     rbind (modify (\<lambda>s. s\<lparr>requests := requests s @ [request]\<rparr>)) (\<lambda>_.
     rbind (host (http_send h request)) (\<lambda>sent.
     rbind (case sent of None \<Rightarrow> throw IoError | Some p \<Rightarrow> ret p) (\<lambda>pending.
     rbind (host (try_wait h pending deadline)) (\<lambda>waited.
     rbind (case waited of Inl _ \<Rightarrow> throw DeadlineReached | Inr r \<Rightarrow> ret r) (\<lambda>result.
     rbind (case result of Inl e \<Rightarrow> throw e | Inr r \<Rightarrow> ret r) (\<lambda>response.
     rbind (unwrap ''content-type'' (map_of (resp_headers response) ''content-type'')) (\<lambda>content_type.
     let grpc_content_type = content_type_of content_type in
     if resp_code response \<noteq> 200 then throw Unknown
     else ret (resp_body response, grpc_content_type)))))))))"

section \<open>Properties\<close>

lemma decode_body_Ret_iff:
  "decode_body b64 dec v GrpcWeb s = (Ret (m, tr), t) \<longleftrightarrow> t = s \<and>
     (\<exists>flag payload hdr. v = [flag] @ be_u32 (word_of_nat (length payload)) @ payload @ hdr @ tr
        \<and> length payload < 2 ^ 32 \<and> length hdr = 5 \<and> dec payload = Some m)"
  (is "?L \<longleftrightarrow> t = s \<and> ?R")
proof
  assume L: ?L
  then obtain body len b1 where 1: "1 \<le> length v" "buf_get_u32 (drop 1 v) s = (Ret (len, b1), s)"
    and 2: "len \<le> length b1" "dec (take len b1) = Some m" "5 \<le> length (drop len b1)"
      "tr = drop 5 (drop len b1)" "t = s"
    by (auto simp: decode_body_def rbind_eq_Ret buf_advance_def buf_get_u32_def buf_split_to_def
        expect_eq_Ret split: if_splits list.splits)
  from 1 obtain flag a b c d where v: "v = flag # a # b # c # d # b1" "len = u32_of_be a b c d"
    by (cases v) (auto simp: buf_get_u32_def split: list.splits)
  have b1: "b1 = take len b1 @ take 5 (drop len b1) @ tr"
    unfolding 2(4) by (metis append_take_drop_id)
  have "v = [flag] @ be_u32 (word_of_nat (length (take len b1))) @ take len b1 @ take 5 (drop len b1) @ tr"
    using v 2(1) b1 by (simp add: be_u32_of_be min_def)
  with v 2 u32_of_be_less [of a b c d] show "t = s \<and> ?R"
    by (intro conjI exI [of _ flag] exI [of _ "take len b1"] exI [of _ "take 5 (drop len b1)"]) simp_all
next
  assume "t = s \<and> ?R"
  then obtain flag payload hdr where ts: "t = s"
    and v: "v = [flag] @ be_u32 (word_of_nat (length payload)) @ payload @ hdr @ tr"
    and p: "length payload < 2 ^ 32" "length hdr = 5" "dec payload = Some m"
    by blast
  have "decode_body b64 dec v GrpcWeb s = decode_body b64 dec (frame payload @ hdr @ tr) GrpcWeb s"
    by (simp add: v frame_def decode_body_def buf_advance_def)
  also have "\<dots> = (Ret (m, tr), s)"
    using p by (simp add: decode_body_frame buf_advance_def)
  finally show ?L by (simp add: ts)
qed

text \<open>
  A host that answers from a script, for concrete runs: every request is accepted and the next
  response of the script is its answer; an exhausted script never answers.
\<close>

definition scripted_host :: "(http_response list, unit) http_host" where
  "scripted_host = \<lparr>timestamp = (\<lambda>_. 0), add_millis = (+), http_send = (\<lambda>_ w. (Some (), w)),
     try_wait = (\<lambda>_ _ w. case w of [] \<Rightarrow> (Inl (), []) | r # rs \<Rightarrow> (Inr (Inr r), rs))\<rparr>"

definition ok_response :: "bytes \<Rightarrow> http_response" where
  "ok_response v = \<lparr>resp_code = 200, resp_headers = [(''content-type'', ''application/grpc-web'')],
     resp_body = v\<rparr>"

text \<open>C19: A message framed by encode_body, followed by a trailer frame of at least its five header
  bytes, is decoded to that message and the trailers, whether the body comes raw or base64 encoded.\<close>

theorem grpc_web_roundtrip:
  assumes "enc m = Some payload" "dec payload = Some m" "length payload < 2 ^ 32" "5 \<le> length trailer"
    and "b64 text = Some (frame payload @ trailer)"
  shows "encode_body enc m s = (Ret (frame payload), s)
    \<and> decode_body b64 dec (frame payload @ trailer) GrpcWeb s = (Ret (m, drop 5 trailer), s)
    \<and> decode_body b64 dec text GrpcWebTextProto s = (Ret (m, drop 5 trailer), s)"
  using assms
  by (simp add: encode_body_frame decode_body_text decode_body_frame buf_advance_def)

theorem grpc_web_roundtrip_witness:
  "(encode_body Some [7, 8] :: (nat, unit, bytes) rust) 0 = (Ret [0, 0, 0, 0, 2, 7, 8], 0)
   \<and> (decode_body Some Some [0, 0, 0, 0, 2, 7, 8, 128, 0, 0, 0, 1, 9] GrpcWeb :: (nat, unit, bytes \<times> bytes) rust) 0 =
       (Ret ([7, 8], [9]), 0)
   \<and> (decode_body Some Some [0, 0, 0, 0, 2, 7, 8, 128, 0, 0, 0, 1, 9] GrpcWebTextProto :: (nat, unit, bytes \<times> bytes) rust) 0 =
       (Ret ([7, 8], [9]), 0)"
proof -
  have f: "frame [7, 8] = [0, 0, 0, 0, 2, 7, 8]"
    by (simp add: frame_def be_u32_def byte_of_def)
  show ?thesis
    using grpc_web_roundtrip [of Some "[7, 8]" "[7, 8]" Some "[128, 0, 0, 0, 1, 9]" Some
        "[0, 0, 0, 0, 2, 7, 8, 128, 0, 0, 0, 1, 9]" "0 :: nat", where ?'e = unit]
    by (simp add: f)
qed


subsection \<open>The round trip\<close>

definition grpc_request :: "('w, 'p) http_host \<Rightarrow> bytes \<Rightarrow> string \<Rightarrow> 'w \<Rightarrow> http_request" where
  "grpc_request h body_bytes url w = \<lparr>req_url = url, req_body = [body_bytes],
     req_headers = [(''Content-Type'', ''application/grpc-web''), (''X-Grpc-Web'', ''1'')],
     req_deadline = add_millis h (timestamp h w) 10000\<rparr>"

definition sent_request :: "http_request \<Rightarrow> 'w \<Rightarrow> ('w, 'z) net_scheme \<Rightarrow> ('w, 'z) net_scheme" where
  "sent_request r w s = s\<lparr>requests := requests s @ [r], world := w\<rparr>"

lemma sent_request_simps [simp]:
  "world (sent_request r w s) = w" "requests (sent_request r w s) = requests s @ [r]"
  "net.more (sent_request r w s) = net.more s"
  by (simp_all add: sent_request_def)

text \<open>The answer of the host to a request that was sent and awaited until its deadline.\<close>

fun answer_of :: "'p + (http_error + http_response) \<Rightarrow> (http_error, bytes \<times> grpc_web_content_type) exit" where
  "answer_of (Inl _) = Err DeadlineReached"
| "answer_of (Inr (Inl e)) = Err e"
| "answer_of (Inr (Inr r)) = (case map_of (resp_headers r) ''content-type'' of
     None \<Rightarrow> Panic (Unwrap ''content-type'')
   | Some t \<Rightarrow> if resp_code r \<noteq> 200 then Err Unknown else Ret (resp_body r, content_type_of t))"

lemma fetch_eq:
  "fetch_from_remote_grpc_web h body_bytes url s =
    (let req = grpc_request h body_bytes url (world s) in
     case http_send h req (world s) of
       (None, w) \<Rightarrow> (Err IoError, sent_request req w s)
     | (Some p, w) \<Rightarrow> (case try_wait h p (req_deadline req) w of
         (ans, w') \<Rightarrow> (answer_of ans, sent_request req w' s)))"
  by (auto simp: fetch_from_remote_grpc_web_def grpc_request_def sent_request_def host_def Let_def
      rbind_def unwrap_def split: prod.splits option.splits sum.splits)

lemma fetch_cases:
  obtains (not_sent) w where "http_send h (grpc_request h v url (world s)) (world s) = (None, w)"
    "fetch_from_remote_grpc_web h v url s = (Err IoError, sent_request (grpc_request h v url (world s)) w s)"
  | (answered) p w ans w' where "http_send h (grpc_request h v url (world s)) (world s) = (Some p, w)"
    "try_wait h p (req_deadline (grpc_request h v url (world s))) w = (ans, w')"
    "fetch_from_remote_grpc_web h v url s =
       (answer_of ans, sent_request (grpc_request h v url (world s)) w' s)"
proof -
  obtain q w where 1: "http_send h (grpc_request h v url (world s)) (world s) = (q, w)" by fastforce
  show thesis
  proof (cases q)
    case None
    with 1 show thesis by (intro not_sent [of w]) (simp_all add: fetch_eq Let_def)
  next
    case (Some p)
    obtain ans w' where "try_wait h p (req_deadline (grpc_request h v url (world s))) w = (ans, w')" by fastforce
    with 1 Some show thesis by (intro answered [of p w ans w']) (simp_all add: fetch_eq Let_def)
  qed
qed

text \<open>A host that answers a request with status 200 and a binary gRPC-web body.\<close>

definition replies :: "('w, 'p) http_host \<Rightarrow> http_request \<Rightarrow> 'w \<Rightarrow> bytes \<Rightarrow> 'w \<Rightarrow> bool" where
  "replies h req w body w' \<longleftrightarrow> (case http_send h req w of
     (None, _) \<Rightarrow> False
   | (Some p, w1) \<Rightarrow> (case try_wait h p (req_deadline req) w1 of
       (Inr (Inr resp), w2) \<Rightarrow> w2 = w' \<and> resp_code resp = 200 \<and> resp_body resp = body
         \<and> map_of (resp_headers resp) ''content-type'' = Some ''application/grpc-web''
     | _ \<Rightarrow> False))"

lemma repliesE:
  assumes "replies h req w body w'"
  obtains p w1 resp where "http_send h req w = (Some p, w1)"
    "try_wait h p (req_deadline req) w1 = (Inr (Inr resp), w')" "resp_code resp = 200"
    "resp_body resp = body" "map_of (resp_headers resp) ''content-type'' = Some ''application/grpc-web''"
proof -
  obtain q w1 where 1: "http_send h req w = (q, w1)" by fastforce
  with assms obtain p where 2: "q = Some p" by (cases q) (simp_all add: replies_def)
  obtain ans w2 where 3: "try_wait h p (req_deadline req) w1 = (ans, w2)" by fastforce
  from assms 1 2 3 obtain resp where 4: "ans = Inr (Inr resp)"
    by (cases ans rule: answer_of.cases) (simp_all add: replies_def)
  from assms 1 2 3 4 show thesis by (intro that [of p w1 resp]) (simp_all add: replies_def)
qed

lemma fetch_replied:
  assumes "replies h (grpc_request h v url (world s)) (world s) body w'"
  shows "fetch_from_remote_grpc_web h v url s =
    (Ret (body, GrpcWeb), sent_request (grpc_request h v url (world s)) w' s)"
  using assms by (rule repliesE) (simp add: fetch_eq Let_def content_type_of_def)

lemma scripted_replies: "replies scripted_host req (ok_response v # ws) v ws"
  by (simp add: replies_def scripted_host_def ok_response_def)


text \<open>An answer without a content-type header makes the worker panic whatever its status: the
  header is unwrapped before the status is looked at.\<close>

lemma fetch_panics_without_content_type:
  assumes "http_send h (grpc_request h v url (world s)) (world s) = (Some p, w)"
    and "try_wait h p (req_deadline (grpc_request h v url (world s))) w = (Inr (Inr resp), w')"
    and "map_of (resp_headers resp) ''content-type'' = None"
  shows "fst (fetch_from_remote_grpc_web h v url s) = Panic (Unwrap ''content-type'')"
  using assms by (simp add: fetch_eq Let_def)

lemma fetch_panics_without_content_type_witness:
  "fst (fetch_from_remote_grpc_web scripted_host [] ''http://api''
     \<lparr>world = [\<lparr>resp_code = 502, resp_headers = [(''server'', ''proxy'')], resp_body = []\<rparr>], requests = []\<rparr>) =
   Panic (Unwrap ''content-type'')"
  by (rule fetch_panics_without_content_type [where w' = "[]" and p = "()"
        and w = "[\<lparr>resp_code = 502, resp_headers = [(''server'', ''proxy'')], resp_body = []\<rparr>]"
        and resp = "\<lparr>resp_code = 502, resp_headers = [(''server'', ''proxy'')], resp_body = []\<rparr>"])
    (simp_all add: scripted_host_def)

end
