(* ===== verification/Offchain.thy ===== *)
theory Offchain
  imports Ocw_Common
begin

text \<open>
  What the two off-chain worker pallets share: the worker's local storage, the transactions it
  submits, and the environment a worker runs in. The environment is an argument: the build
  (\<open>std\<close> or wasm), the process environment, the HTTP host, base64, the storage lock and the
  accounts whose keys the node holds come from outside the repository.
\<close>

section \<open>The worker's state\<close>

record ('w, 'acct, 'c) offchain = "'w net" +
  local_storage :: "bytes \<Rightarrow> bytes option"
  submitted :: "('acct \<times> 'c) list"

section \<open>The environment\<close>

text \<open>
  \<open>lock_acquire key blocks millis\<close> is \<open>try_lock\<close> on a lock made by \<open>with_block_and_time_deadline\<close>,
  \<open>lock_release key\<close> is the drop of its guard. \<open>into_call\<close> is the conversion
  \<open>Config::Call: From<Call<Self>>\<close> of the pallet into the runtime's calls.
\<close>

record ('w, 'p, 'acct, 'call, 'c) ocw_env =
  std_build :: bool
  env_var :: "string \<Rightarrow> string option"
  http :: "('w, 'p) http_host"
  base64_decode :: "bytes \<Rightarrow> bytes option"
  lock_acquire :: "bytes \<Rightarrow> nat \<Rightarrow> nat \<Rightarrow> 'w \<Rightarrow> bool \<times> 'w"
  lock_release :: "bytes \<Rightarrow> 'w \<Rightarrow> 'w"
  local_accounts :: "bytes \<Rightarrow> 'acct list"
  into_call :: "'call \<Rightarrow> 'c"

text \<open>
  \<open>#[cfg(feature = "std")] std::env::var(name).unwrap()\<close>, and the placeholder of a wasm build.
\<close>

definition uri_root :: "('w, 'p, 'acct, 'call, 'c) ocw_env \<Rightarrow> string \<Rightarrow> ('s, 'e, string) rust" where
  "uri_root env name =
     (if std_build env then unwrap ''std::env::var'' (env_var env name)
      else ret ''PLACEHOLDER_no_std'')"

lemma quiet_uri_root [quiet_intros]: "quiet (uri_root env name)"
  by (simp add: uri_root_def quiet_intros)

text \<open>
  The scope of a lock guard: its drop releases the lock at the end of the block, and during the
  unwinding of a panic, which only a native (\<open>std\<close>) build does.
\<close>

definition with_guard ::
  "('w, 'p, 'acct, 'call, 'c) ocw_env \<Rightarrow> bytes \<Rightarrow> (('w, 'z) net_scheme, 'e, 'a) rust \<Rightarrow>
   (('w, 'z) net_scheme, 'e, 'a) rust" where
  "with_guard env key body = (\<lambda>s. case body s of
     (Panic p, t) \<Rightarrow> (Panic p, if std_build env then t\<lparr>world := lock_release env key (world t)\<rparr> else t)
   | (r, t) \<Rightarrow> (r, t\<lparr>world := lock_release env key (world t)\<rparr>))"

text \<open>
  \<open>Signer::all_accounts().send_signed_transaction(f)\<close>: \<open>f\<close> makes the call for each account whose
  key is in the keystore under the pallet's key type, and the call is submitted for that account.
\<close>

definition send_signed_transaction ::
  "('w, 'p, 'acct, 'call, 'c) ocw_env \<Rightarrow> bytes \<Rightarrow>
   ('acct \<Rightarrow> (('w, 'acct, 'c, 'z) offchain_scheme, 'e, 'call) rust) \<Rightarrow>
   (('w, 'acct, 'c, 'z) offchain_scheme, 'e, 'acct list) rust" where
  "send_signed_transaction env key_type f =
     map_collect (\<lambda>account. rbind (f account) (\<lambda>call.
       rbind (modify (\<lambda>s. s\<lparr>submitted := submitted s @ [(account, into_call env call)]\<rparr>)) (\<lambda>_.
       ret account))) (local_accounts env key_type)"

text \<open>
  \<open>StorageValueRef::persistent(key).get::<T>()\<close>: nothing stored, a value that does not decode, or a
  value. The workers turn the first two into a default.
\<close>

definition storage_get ::
  "(bytes \<Rightarrow> 'd option) \<Rightarrow> bytes \<Rightarrow> ('w, 'acct, 'c, 'z) offchain_scheme \<Rightarrow> unit + 'd option" where
  "storage_get dec key s = (case local_storage s key of
     None \<Rightarrow> Inr None
   | Some v \<Rightarrow> (case dec v of None \<Rightarrow> Inl () | Some d \<Rightarrow> Inr (Some d)))"

fun result_unwrap_or :: "'e + 'a \<Rightarrow> 'a \<Rightarrow> 'a" where
  "result_unwrap_or (Inl _) d = d"
| "result_unwrap_or (Inr x) d = x"

fun option_unwrap_or :: "'a option \<Rightarrow> 'a \<Rightarrow> 'a" where
  "option_unwrap_or None d = d"
| "option_unwrap_or (Some x) d = x"

definition storage_set :: "bytes \<Rightarrow> bytes \<Rightarrow> (('w, 'acct, 'c, 'z) offchain_scheme, 'e, unit) rust" where
  "storage_set key v = modify (\<lambda>s. s\<lparr>local_storage := (local_storage s)(key := Some v)\<rparr>)"

text \<open>
  The node commits the buffered index writes of an imported block into the same local storage, if
  it runs with \<open>--enable-offchain-indexing\<close>.
\<close>

fun commit_index_writes ::
  "bool \<Rightarrow> (bytes \<times> bytes) list \<Rightarrow> ('w, 'acct, 'c, 'z) offchain_scheme \<Rightarrow> ('w, 'acct, 'c, 'z) offchain_scheme" where
  "commit_index_writes enabled [] s = s"
| "commit_index_writes enabled ((k, v) # ws) s =
     commit_index_writes enabled ws
       (if enabled then s\<lparr>local_storage := (local_storage s)(k := Some v)\<rparr> else s)"

section \<open>Lemmas\<close>

definition put_local :: "bytes \<Rightarrow> bytes \<Rightarrow> ('w, 'acct, 'c, 'z) offchain_scheme \<Rightarrow> ('w, 'acct, 'c, 'z) offchain_scheme" where
  "put_local k v s = s\<lparr>local_storage := (local_storage s)(k := Some v)\<rparr>"

interpretation local_map: storage_map local_storage put_local
  by unfold_locales (simp add: put_local_def)

lemma storage_set_eq: "storage_set k v = modify (put_local k v)"
  by (simp add: storage_set_def put_local_def [abs_def])

lemma put_local_simps [simp]:
  "world (put_local k v s) = world s" "requests (put_local k v s) = requests s"
  "submitted (put_local k v s) = submitted s" "offchain.more (put_local k v s) = offchain.more s"
  by (simp_all add: put_local_def)

lemma commit_index_writes_put:
  "commit_index_writes True ((k, v) # ws) s = commit_index_writes True ws (put_local k v s)"
  by (simp add: put_local_def)

lemma with_guard_Ret: "body s = (Ret x, t) \<Longrightarrow>
    with_guard env key body s = (Ret x, t\<lparr>world := lock_release env key (world t)\<rparr>)"
  by (simp add: with_guard_def)

lemma with_guard_fst [simp]: "fst (with_guard env key body s) = fst (body s)"
  by (simp add: with_guard_def split: prod.splits exit.splits)

lemma keeps_with_guard:
  assumes "keeps P body" and "\<And>s t w. P s t \<Longrightarrow> P s (t\<lparr>world := w\<rparr>)"
  shows "keeps P (with_guard env key body)"
  unfolding keeps_def
proof
  fix s
  obtain r t where "body s = (r, t)" by fastforce
  with keepsD [OF assms(1), of s] assms(2) show "P s (snd (with_guard env key body s))"
    by (cases r) (simp_all add: with_guard_def)
qed

lemma keeps_fetch:
  assumes "\<And>s r w. P s (sent_request r w s)"
  shows "keeps P (fetch_from_remote_grpc_web h v url)"
  unfolding keeps_def
proof
  fix s
  show "P s (snd (fetch_from_remote_grpc_web h v url s))"
    by (cases rule: fetch_cases [of h v url s]) (simp_all add: assms)
qed

lemma send_signed_transaction_pure:
  assumes "\<And>a s. a \<in> set (local_accounts env key_type) \<Longrightarrow> f a s = (Ret (mk a), s)"
  shows "send_signed_transaction env key_type f s =
    (Ret (local_accounts env key_type),
     s\<lparr>submitted := submitted s @ map (\<lambda>a. (a, into_call env (mk a))) (local_accounts env key_type)\<rparr>)"
proof -
  have "map_collect (\<lambda>account. rbind (f account) (\<lambda>call.
       rbind (modify (\<lambda>s. s\<lparr>submitted := submitted s @ [(account, into_call env call)]\<rparr>)) (\<lambda>_.
       ret account))) as s =
    (Ret as, s\<lparr>submitted := submitted s @ map (\<lambda>a. (a, into_call env (mk a))) as\<rparr>)"
    if "set as \<subseteq> set (local_accounts env key_type)" for as s
    using that
  proof (induction as arbitrary: s)
    case (Cons a as)
    then show ?case by (simp add: rbind_Ret [OF assms] rbind_assoc) (simp add: rbind_def)
  qed simp
  from this [of "local_accounts env key_type"] show ?thesis
    by (simp add: send_signed_transaction_def)
qed

text \<open>
  What the API calls of a worker may change: the HTTP world and the requests handed over. The jobs
  and the submitted transactions stay.
\<close>

definition net_only :: "('w, 'acct, 'c, 'z) offchain_scheme \<Rightarrow> ('w, 'acct, 'c, 'z) offchain_scheme \<Rightarrow> bool" where
  "net_only s t \<longleftrightarrow> local_storage t = local_storage s \<and> submitted t = submitted s
     \<and> offchain.more t = offchain.more s"

lemma net_only_preorder: "preorder_rel net_only"
  and net_only_sent: "net_only s (sent_request r w s)"
  and net_only_world: "net_only s t \<Longrightarrow> net_only s (t\<lparr>world := w\<rparr>)"
  by (auto simp: preorder_rel_def net_only_def sent_request_def)

interpretation net: kept_relation net_only
  by (rule kept_relation.intro) (rule net_only_preorder)

lemma net_only_fetch: "keeps net_only (fetch_from_remote_grpc_web h v url)"
  by (rule keeps_fetch) (rule net_only_sent)

lemmas net_only_intros = net.kept_rbind net.kept_quiet
  keeps_attempt keeps_map_err net_only_fetch

definition same_storage :: "('w, 'acct, 'c, 'z) offchain_scheme \<Rightarrow> ('w, 'acct, 'c, 'z) offchain_scheme \<Rightarrow> bool" where
  "same_storage s t \<longleftrightarrow> local_storage t = local_storage s"

lemma same_storage_preorder: "preorder_rel same_storage"
  by (auto simp: preorder_rel_def same_storage_def)

interpretation storage: kept_relation same_storage
  by (rule kept_relation.intro) (rule same_storage_preorder)

lemma keeps_same_storage: "keeps net_only m \<Longrightarrow> keeps same_storage m"
  by (auto simp: keeps_def net_only_def same_storage_def)

lemma send_same_storage:
  assumes "\<And>a. keeps same_storage (f a)"
  shows "keeps same_storage (send_signed_transaction env kt f)"
  unfolding send_signed_transaction_def
  by (intro storage.kept_collect storage.kept_rbind assms keeps_modify
      storage.kept_pure(1)) (simp_all add: same_storage_def)

section \<open>The job slot contract\<close>

text \<open>
  Both worker pallets keep one job in one slot of the local storage and promise the same of a run
  of their worker: an idle slot or a busy lock makes the run do nothing, and a run that gets the
  lock empties the slot, however the job itself goes. \<open>codec_ok\<close> is what the pallet needs of
  its SCALE codec: the default job reads back as no job.
\<close>

locale job_worker =
  fixes codec_ok :: bool
    and job_key :: bytes
    and idle :: bytes
    and pending :: "('w, 'acct, 'c, 'z) offchain_scheme \<Rightarrow> bool"
    and lock_free :: "('w, 'acct, 'c, 'z) offchain_scheme \<Rightarrow> bool"
    and worker :: "(('w, 'acct, 'c, 'z) offchain_scheme, 'e, unit) rust"
  assumes pending_slot: "local_storage s job_key = local_storage t job_key \<Longrightarrow> pending s = pending t"
    and idle_slot: "codec_ok \<Longrightarrow> local_storage s job_key = Some idle \<Longrightarrow> \<not> pending s"
    and no_job: "\<not> pending s \<Longrightarrow> worker s = (Ret (), s)"
    and lock_busy: "pending s \<Longrightarrow> \<not> lock_free s \<Longrightarrow> fst (worker s) = Ret () \<and> net_only s (snd (worker s))"
    and takes_job: "pending s \<Longrightarrow> lock_free s \<Longrightarrow>
      local_storage (snd (worker s)) = (local_storage s)(job_key := Some idle)"
begin

lemma other_keys: "k \<noteq> job_key \<Longrightarrow> local_storage (snd (worker s)) k = local_storage s k"
  by (cases "pending s"; cases "lock_free s")
    (auto simp: no_job takes_job net_only_def dest: lock_busy)

lemma job_taken: "codec_ok \<Longrightarrow> pending s \<Longrightarrow> lock_free s \<Longrightarrow> \<not> pending (snd (worker s))"
  by (rule idle_slot) (simp_all add: takes_job)

lemma second_run_idle:
  assumes codec_ok "pending s" "lock_free s"
  shows "worker (snd (worker s)) = (Ret (), snd (worker s))"
  using assms by (intro no_job job_taken)

lemma job_kept: "pending s \<Longrightarrow> \<not> lock_free s \<Longrightarrow> pending (snd (worker s))"
  using pending_slot [of "snd (worker s)" s] lock_busy [of s] by (simp add: net_only_def)

lemma runs_idle: "\<not> pending s \<Longrightarrow> ((\<lambda>s. snd (worker s)) ^^ n) s = s"
  by (induction n) (simp_all add: no_job)

text \<open>However often the worker runs, the job is processed by its first run alone.\<close>

lemma one_run_counts:
  assumes codec_ok "pending s" "lock_free s"
  shows "((\<lambda>s. snd (worker s)) ^^ Suc n) s = snd (worker s)"
  using runs_idle [OF job_taken [OF assms]] by (simp add: funpow_Suc_right del: funpow.simps)

end

text \<open>
  The common shape of the two workers: nothing without a job; with a job, try the lock, and under
  the lock empty the slot first and then do something that leaves the local storage alone. A worker
  of that shape honours the contract.
\<close>

definition run_slot ::
  "('w, 'p, 'acct, 'call, 'c) ocw_env \<Rightarrow> bytes \<Rightarrow> nat \<Rightarrow> nat \<Rightarrow> (('w, 'acct, 'c, 'z) offchain_scheme \<Rightarrow> bool) \<Rightarrow>
   (('w, 'acct, 'c, 'z) offchain_scheme \<Rightarrow> (('w, 'acct, 'c, 'z) offchain_scheme, 'e, unit) rust) \<Rightarrow>
   (('w, 'acct, 'c, 'z) offchain_scheme, 'e, unit) rust" where
  "run_slot env lock blocks millis pending locked_part s =
    (if \<not> pending s then (Ret (), s)
     else case lock_acquire env lock blocks millis (world s) of
       (locked, w) \<Rightarrow>
         if locked then with_guard env lock (locked_part s) (s\<lparr>world := w\<rparr>)
         else (Ret (), s\<lparr>world := w\<rparr>))"

lemma keeps_same_storage_guard:
  "keeps same_storage m \<Longrightarrow> keeps same_storage (with_guard env lock m)"
  by (rule keeps_with_guard) (simp_all add: same_storage_def)

lemma with_guard_storage:
  assumes "keeps same_storage body"
  shows "local_storage (snd (with_guard env lock (rbind (modify (put_local k v)) (\<lambda>_. body)) s)) =
    (local_storage s)(k := Some v)"
proof -
  have "local_storage (snd (with_guard env lock m s)) = local_storage (snd (m s))"
    for m :: "(('a, 'b, 'c, 'd) offchain_scheme, 'e, 'f) rust"
    by (simp add: with_guard_def split: prod.splits exit.splits)
  with keepsD [OF assms, of "put_local k v s"] show ?thesis
    by (simp add: same_storage_def put_local_def)
qed

lemma run_slot_contract:
  assumes worker: "\<And>s. worker s = run_slot env lock blocks millis pending locked_part s"
    and locked: "\<And>s. locked_part s = rbind (modify (put_local key idle)) (\<lambda>_. body s)"
    and body: "\<And>s. keeps same_storage (body s)"
    and slot: "\<And>s t. local_storage s key = local_storage t key \<Longrightarrow> pending s = pending t"
    and none: "\<And>s. codec_ok \<Longrightarrow> local_storage s key = Some idle \<Longrightarrow> \<not> pending s"
  shows "job_worker codec_ok key idle pending (\<lambda>s. fst (lock_acquire env lock blocks millis (world s))) worker"
proof (unfold_locales, fact slot, fact none)
  fix s
  show "worker s = (Ret (), s)" if "\<not> pending s" using that by (simp add: worker run_slot_def)
  obtain l w where l: "lock_acquire env lock blocks millis (world s) = (l, w)" by fastforce
  show "fst (worker s) = Ret () \<and> net_only s (snd (worker s))"
    if "pending s" "\<not> fst (lock_acquire env lock blocks millis (world s))"
    using that l by (simp add: worker run_slot_def net_only_def)
  show "local_storage (snd (worker s)) = (local_storage s)(key := Some idle)"
    if "pending s" "fst (lock_acquire env lock blocks millis (world s))"
    using that l by (simp add: worker run_slot_def locked with_guard_storage [OF body])
qed

subsection \<open>How a run leaves\<close>

text \<open>What one submission of \<open>call\<close> by every local account adds.\<close>

definition submit_all ::
  "('w, 'p, 'acct, 'call, 'c) ocw_env \<Rightarrow> bytes \<Rightarrow> 'call \<Rightarrow> ('w, 'acct, 'c, 'z) offchain_scheme \<Rightarrow>
   ('w, 'acct, 'c, 'z) offchain_scheme" where
  "submit_all env kt call s =
     s\<lparr>submitted := submitted s @ map (\<lambda>a. (a, into_call env call)) (local_accounts env kt)\<rparr>"

lemma submit_all_simps [simp]:
  "world (submit_all env kt call s) = world s" "requests (submit_all env kt call s) = requests s"
  "local_storage (submit_all env kt call s) = local_storage s"
  "submitted (submit_all env kt call s) =
     submitted s @ map (\<lambda>a. (a, into_call env call)) (local_accounts env kt)"
  by (simp_all add: submit_all_def)

lemma send_signed_ret:
  "send_signed_transaction env kt (\<lambda>_. ret call) s = (Ret (local_accounts env kt), submit_all env kt call s)"
  by (simp add: send_signed_transaction_pure [where mk = "\<lambda>_. call"] submit_all_def)

lemma send_signed_panic:
  "send_signed_transaction env kt (\<lambda>_. panic_with p) s =
    (if local_accounts env kt = [] then Ret [] else Panic p, s)"
  by (cases "local_accounts env kt") (simp_all add: send_signed_transaction_def)

text \<open>
  The three ways a worker's last step leaves: it does nothing, every local account submits the same
  call, or it panics before any submission.
\<close>

definition finalizes ::
  "('w, 'p, 'acct, 'call, 'c) ocw_env \<Rightarrow> bytes \<Rightarrow> (('w, 'acct, 'c, 'z) offchain_scheme, 'e, unit) rust \<Rightarrow> bool" where
  "finalizes env kt m \<longleftrightarrow> (\<forall>s. m s = (Ret (), s) \<or> (\<exists>call. m s = (Ret (), submit_all env kt call s))
     \<or> (\<exists>p. m s = (Panic p, s)))"

lemma finalizes_send:
  assumes "(\<exists>call. f = ret call) \<or> (\<exists>p. f = panic_with p)"
  shows "finalizes env kt (rbind (send_signed_transaction env kt (\<lambda>_. f)) (\<lambda>_. ret ()))"
  using assms
proof (elim disjE exE)
  show ?thesis if "f = ret call" for call
    by (auto simp: finalizes_def that rbind_Ret [OF send_signed_ret])
  show ?thesis if "f = panic_with p" for p
    by (cases "local_accounts env kt = []")
      (simp_all add: finalizes_def that rbind_def send_signed_panic)
qed

definition run_exit ::
  "('w, 'p, 'acct, 'call, 'c) ocw_env \<Rightarrow> bytes \<Rightarrow> bytes \<Rightarrow> bytes \<Rightarrow> ('w, 'acct, 'c, 'z) offchain_scheme \<Rightarrow>
   ('e, unit) exit \<Rightarrow> ('w, 'acct, 'c, 'z) offchain_scheme \<Rightarrow> bool" where
  "run_exit env kt key idle s r t = (case r of
     Ret _ \<Rightarrow> local_storage t = local_storage s \<and> submitted t = submitted s
       \<or> local_storage t = (local_storage s)(key := Some idle) \<and> (submitted t = submitted s
           \<or> (\<exists>call. submitted t = submitted s @ map (\<lambda>a. (a, into_call env call)) (local_accounts env kt)))
   | Err _ \<Rightarrow> False
   | Panic _ \<Rightarrow> local_storage t = (local_storage s)(key := Some idle) \<and> submitted t = submitted s)"

lemma run_slot_exit:
  assumes locked: "locked_part s = rbind (modify (put_local key idle)) (\<lambda>_. rbind (attempt job) fin)"
    and job: "keeps net_only job" and fin: "\<And>r. finalizes env kt (fin r)"
    and run: "run_slot env lock blocks millis pending locked_part s = (r, t)"
  shows "run_exit env kt key idle s r t"
proof -
  obtain l w where l: "lock_acquire env lock blocks millis (world s) = (l, w)" by fastforce
  show ?thesis
  proof (cases "pending s \<and> l")
    case False
    with run l show ?thesis by (auto simp: run_slot_def run_exit_def split: if_splits)
  next
    case True
    define s1 where "s1 = put_local key idle (s\<lparr>world := w\<rparr>)"
    obtain q s2 where j: "job s1 = (q, s2)" by fastforce
    from keepsD [OF job, of s1] j
    have n: "local_storage s2 = (local_storage s)(key := Some idle)" "submitted s2 = submitted s"
      by (simp_all add: net_only_def s1_def put_local_def)
    from True run l have g: "with_guard env lock (rbind (modify (put_local key idle)) (\<lambda>_. rbind (attempt job) fin))
        (s\<lparr>world := w\<rparr>) = (r, t)"
      by (simp add: run_slot_def locked)
    have fin': "fin x s2 = (Ret (), s2) \<or> (\<exists>call. fin x s2 = (Ret (), submit_all env kt call s2))
        \<or> (\<exists>p. fin x s2 = (Panic p, s2))" for x
      using fin [of x] by (simp add: finalizes_def)
    have "run_exit env kt key idle s r t" if "rbind (attempt job) fin s1 = (Panic p, s2)" for p
      using g that n by (auto simp: with_guard_def s1_def run_exit_def split: if_splits)
    moreover have "run_exit env kt key idle s r t" if "rbind (attempt job) fin s1 = (Ret (), u)"
      "u = s2 \<or> (\<exists>call. u = submit_all env kt call s2)" for u
      using g that n by (auto simp: with_guard_def s1_def run_exit_def)
    moreover have "rbind (attempt job) fin s1 = (case q of Ret x \<Rightarrow> fin (Inr x) s2 | Err e \<Rightarrow> fin (Inl e) s2
        | Panic p \<Rightarrow> (Panic p, s2))"
      using j by (cases q) (simp_all add: rbind_def attempt_def)
    ultimately show ?thesis
      using fin' [of "Inr x" for x] fin' [of "Inl e" for e] by (cases q) (simp_all, metis+)
  qed
qed

section \<open>An environment for concrete runs\<close>

text \<open>
  A native node with both API roots set, one local account, an uncontended lock and a host that
  answers from a script.
\<close>

definition demo_env :: "(http_response list, unit, nat, 'call, 'call) ocw_env" where
  "demo_env = \<lparr>std_build = True,
     env_var = (\<lambda>name. if name = ''INTERSTELLAR_URI_ROOT_API_CIRCUITS'' \<or> name = ''INTERSTELLAR_URI_ROOT_API_GARBLE''
       then Some ''http://api'' else None),
     http = scripted_host, base64_decode = Some, lock_acquire = (\<lambda>_ _ _ w. (True, w)),
     lock_release = (\<lambda>_ w. w), local_accounts = (\<lambda>_. [42]), into_call = id\<rparr>"

lemma demo_env_simps [simp]:
  "std_build demo_env" "http demo_env = scripted_host" "local_accounts demo_env kt = [42]"
  "env_var demo_env ''INTERSTELLAR_URI_ROOT_API_CIRCUITS'' = Some ''http://api''"
  "env_var demo_env ''INTERSTELLAR_URI_ROOT_API_GARBLE'' = Some ''http://api''"
  "env_var demo_env ''aaa'' = None"
  "lock_acquire demo_env k b m w = (True, w)" "lock_release demo_env k w = w"
  "into_call demo_env c = c" "base64_decode demo_env = Some"
  by (simp_all add: demo_env_def)

definition idle_node :: "'w \<Rightarrow> ('w, 'acct, 'c) offchain" where
  "idle_node w = \<lparr>world = w, requests = [], local_storage = (\<lambda>_. None), submitted = []\<rparr>"

end
