(* ===== verification/Ocw_Circuits.thy ===== *)
theory Ocw_Circuits
  imports Tx_Validation Offchain
begin

text \<open>
  The pallet \<open>pallets/ocw-circuits\<close>. Its extrinsics leave a job in the node's local storage through
  an off-chain index write; its off-chain worker takes the job, asks the circuit API for a circuit
  (generic) or for the message and pinpad display circuits, and submits the result as a signed
  callback, which deposits an event and, for display circuits, replaces the reference package that
  ocw-garble reads.
\<close>

section \<open>Constants\<close>

definition CIRC_KEY_TYPE :: bytes where
  "CIRC_KEY_TYPE = ascii ''circ''"

definition CIRC_LOCK_TIMEOUT_EXPIRATION :: nat where
  "CIRC_LOCK_TIMEOUT_EXPIRATION = 10000"

definition CIRC_LOCK_BLOCK_EXPIRATION :: nat where
  "CIRC_LOCK_BLOCK_EXPIRATION = 3"

definition CIRC_ONCHAIN_TX_KEY :: bytes where
  "CIRC_ONCHAIN_TX_KEY = ascii ''ocw-circuits::storage::tx''"

definition CIRC_LOCK_KEY :: bytes where
  "CIRC_LOCK_KEY = ascii ''ocw-circuits::lock''"

definition API_ENDPOINT_GENERIC_URL :: string where
  "API_ENDPOINT_GENERIC_URL = ''/interstellarpbapicircuits.SkcdApi/GenerateSkcdGenericFromIPFS''"

definition API_ENDPOINT_DISPLAY_URL :: string where
  "API_ENDPOINT_DISPLAY_URL = ''/interstellarpbapicircuits.SkcdApi/GenerateSkcdDisplay''"

definition DEFAULT_MESSAGE_WIDTH :: u32 where "DEFAULT_MESSAGE_WIDTH = 1280 div 2"
definition DEFAULT_MESSAGE_HEIGHT :: u32 where "DEFAULT_MESSAGE_HEIGHT = 720 div 2"
definition DEFAULT_PINPAD_WIDTH :: u32 where "DEFAULT_PINPAD_WIDTH = 590"
definition DEFAULT_PINPAD_HEIGHT :: u32 where "DEFAULT_PINPAD_HEIGHT = 50"

section \<open>Data and storage\<close>

record display_skcd_package =
  message_skcd_cid :: bytes
  message_skcd_server_metadata_nb_digits :: u32
  pinpad_skcd_cid :: bytes
  pinpad_skcd_server_metadata_nb_digits :: u32

definition default_display_skcd_package :: display_skcd_package where
  "default_display_skcd_package = \<lparr>message_skcd_cid = [], message_skcd_server_metadata_nb_digits = 0,
     pinpad_skcd_cid = [], pinpad_skcd_server_metadata_nb_digits = 0\<rparr>"

record 'acct circuits = "'acct txval" +
  display_skcd_package_value :: display_skcd_package

datatype circuits_error =
    CUnknownOffchainMux | CNoLocalAcctForSigning | COffchainSignedTxError
  | COffchainUnsignedTxError | COffchainUnsignedTxSignedPayloadError | CHttpFetchingError
  | CDeserializeToObjError | CDeserializeToStrError | DisplaySkcdPackageValueError

datatype circuits_grpc_kind = Generic | Display

record circuits_indexing_data =
  verilog_ipfs_hash :: "bytes option"
  c_block_number :: u32
  c_grpc_kind :: circuits_grpc_kind

definition default_circuits_indexing_data :: circuits_indexing_data where
  "default_circuits_indexing_data = \<lparr>verilog_ipfs_hash = None, c_block_number = 0, c_grpc_kind = Generic\<rparr>"

text \<open>
  The messages of the circuit API are generated from a submodule; these are the fields that the
  pallet writes and reads.
\<close>

record skcd_generic_request =
  req_verilog_cid :: bytes

record skcd_generic_reply =
  generic_skcd_cid :: bytes

record skcd_display_request =
  req_width :: u32
  req_height :: u32
  req_digits_bboxes :: "f32 list"

record skcd_server_metadata =
  nb_digits :: u32

record skcd_display_reply =
  display_skcd_cid :: bytes
  server_metadata :: "skcd_server_metadata option"

datatype circuits_reply =
    GenericReply skcd_generic_reply
  | DisplayReply skcd_display_reply skcd_display_reply

text \<open>The pallet's calls, as \<open>#[pallet::call]\<close> collects them.\<close>

datatype circuits_call =
    submit_config_generic_signed_call bytes
  | submit_config_display_circuits_package_signed_call
  | callback_new_skcd_signed_call bytes
  | callback_new_display_circuits_package_signed_call bytes u32 bytes u32

text \<open>
  The codecs of the pallet: SCALE for the job (and for the default block number in its key),
  protobuf for the requests and replies.
\<close>

record circuits_codec =
  enc_block_number_default :: bytes
  enc_circuits_job :: "circuits_indexing_data \<Rightarrow> bytes"
  dec_circuits_job :: "bytes \<Rightarrow> circuits_indexing_data option"
  enc_generic_request :: "skcd_generic_request \<Rightarrow> bytes option"
  dec_generic_reply :: "bytes \<Rightarrow> skcd_generic_reply option"
  enc_display_request :: "skcd_display_request \<Rightarrow> bytes option"
  dec_display_reply :: "bytes \<Rightarrow> skcd_display_reply option"

section \<open>The on-chain operations\<close>

definition circuits_derived_key :: "bytes \<Rightarrow> bytes" where
  "circuits_derived_key encoded_bn = CIRC_ONCHAIN_TX_KEY @ ascii ''/'' @ encoded_bn"

definition set_display_package ::
  "display_skcd_package \<Rightarrow> ('acct, 'z) circuits_scheme \<Rightarrow> ('acct, 'z) circuits_scheme" where
  "set_display_package p s = s\<lparr>display_skcd_package_value := p\<rparr>"

definition get_display_circuits_package ::
  "(('acct, 'z) circuits_scheme, circuits_error, display_skcd_package) rust" where
  [pallet_defs]: "get_display_circuits_package =
     rbind (gets display_skcd_package_value) (\<lambda>p.
     if message_skcd_server_metadata_nb_digits p = 0 \<or> pinpad_skcd_server_metadata_nb_digits p = 0
     then throw DisplaySkcdPackageValueError
     else ret p)"

definition append_or_replace_verilog_hash ::
  "circuits_codec \<Rightarrow> bytes option \<Rightarrow> circuits_grpc_kind \<Rightarrow> (('acct, 'z) system_scheme, 'e, unit) rust" where
  [pallet_defs]: "append_or_replace_verilog_hash cd verilog_cid grpc_kind =
     offchain_index_set (circuits_derived_key (enc_block_number_default cd))
       (enc_circuits_job cd \<lparr>verilog_ipfs_hash = verilog_cid, c_block_number = 1, c_grpc_kind = grpc_kind\<rparr>)"

datatype transaction_validity = InvalidCall | ValidTransaction

definition circuits_validate_unsigned :: "'source \<Rightarrow> 'call \<Rightarrow> transaction_validity" where
  "circuits_validate_unsigned source call = InvalidCall"

definition submit_config_generic_signed ::
  "circuits_codec \<Rightarrow> bool \<Rightarrow> 'acct origin \<Rightarrow> bytes \<Rightarrow>
   (('acct, 'z) system_scheme, circuits_error dispatch_error, unit) rust" where
  [pallet_defs]: "submit_config_generic_signed cd lg origin verilog_cid =
     rbind (ensure_signed origin) (\<lambda>who.
     rbind (log_info lg (rbind (expect ''verilog_cid utf8'' (from_utf8 verilog_cid)) (\<lambda>_. ret ()))) (\<lambda>_.
     rbind (append_or_replace_verilog_hash cd (Some verilog_cid) Generic) (\<lambda>_.
     ret ())))"

definition submit_config_display_circuits_package_signed ::
  "circuits_codec \<Rightarrow> 'acct origin \<Rightarrow>
   (('acct, 'z) system_scheme, circuits_error dispatch_error, unit) rust" where
  [pallet_defs]: "submit_config_display_circuits_package_signed cd origin =
     rbind (ensure_signed origin) (\<lambda>who.
     rbind (append_or_replace_verilog_hash cd None Display) (\<lambda>_.
     ret ()))"

definition callback_new_skcd_signed ::
  "bool \<Rightarrow> 'acct origin \<Rightarrow> bytes \<Rightarrow>
   (('acct, 'z) system_scheme, circuits_error dispatch_error, unit) rust" where
  [pallet_defs]: "callback_new_skcd_signed lg origin skcd_cid =
     rbind (ensure_signed origin) (\<lambda>who.
     rbind (log_info lg (rbind (expect ''skcd_cid utf8'' (from_utf8 skcd_cid)) (\<lambda>_. ret ()))) (\<lambda>_.
     rbind (deposit_event (OcwCircuitsEvent (NewSkcdIpfsCid skcd_cid))) (\<lambda>_.
     ret ())))"

definition callback_new_display_circuits_package_signed ::
  "bool \<Rightarrow> 'acct origin \<Rightarrow> bytes \<Rightarrow> u32 \<Rightarrow> bytes \<Rightarrow> u32 \<Rightarrow>
   (('acct, 'z) circuits_scheme, circuits_error dispatch_error, unit) rust" where
  [pallet_defs]: "callback_new_display_circuits_package_signed lg origin msg_cid msg_nb pin_cid pin_nb =
     rbind (ensure_signed origin) (\<lambda>who.
     rbind (log_info lg
       (rbind (expect ''message_skcd_cid utf8'' (from_utf8 msg_cid)) (\<lambda>_.
        rbind (expect ''pinpad_skcd_cid utf8'' (from_utf8 pin_cid)) (\<lambda>_. ret ())))) (\<lambda>_.
     rbind (deposit_event (OcwCircuitsEvent (NewDisplaySkcdPackageIpfsCid msg_cid pin_cid))) (\<lambda>_.
     rbind (unwrap ''message_skcd_cid'' (bounded 64 msg_cid)) (\<lambda>m.
     rbind (unwrap ''pinpad_skcd_cid'' (bounded 64 pin_cid)) (\<lambda>p.
     rbind (modify (set_display_package
       \<lparr>message_skcd_cid = m, message_skcd_server_metadata_nb_digits = msg_nb,
        pinpad_skcd_cid = p, pinpad_skcd_server_metadata_nb_digits = pin_nb\<rparr>)) (\<lambda>_.
     ret ()))))))"

fun circuits_dispatch ::
  "circuits_codec \<Rightarrow> bool \<Rightarrow> circuits_call \<Rightarrow> 'acct origin \<Rightarrow>
   (('acct, 'z) circuits_scheme, circuits_error dispatch_error, unit) rust" where
  "circuits_dispatch cd lg (submit_config_generic_signed_call v) origin =
     submit_config_generic_signed cd lg origin v"
| "circuits_dispatch cd lg submit_config_display_circuits_package_signed_call origin =
     submit_config_display_circuits_package_signed cd origin"
| "circuits_dispatch cd lg (callback_new_skcd_signed_call v) origin =
     callback_new_skcd_signed lg origin v"
| "circuits_dispatch cd lg (callback_new_display_circuits_package_signed_call m mn p pn) origin =
     callback_new_display_circuits_package_signed lg origin m mn p pn"

section \<open>The off-chain worker\<close>

text \<open>The digit boxes of the two requests: left, top, right, bottom for each digit.\<close>

definition message_bboxes :: "f32 list" where
  "message_bboxes =
     [f32_of_frac 25 100, f32_of_frac 1 10, f32_of_frac 45 100, f32_of_frac 9 10,
      f32_of_frac 55 100, f32_of_frac 1 10, f32_of_frac 75 100, f32_of_frac 9 10]"

definition pinpad_bboxes :: "f32 list" where
  "pinpad_bboxes = fold (\<lambda>i digits_bboxes. digits_bboxes @
     [f32_mul (f32_of_frac 1 10) (f32_of_nat i), f32_of_nat 0,
      f32_mul (f32_of_frac 1 10) (f32_of_nat (i + 1)), f32_of_nat 1]) [0..<10] []"

definition display_request :: "bool \<Rightarrow> skcd_display_request" where
  "display_request is_message =
     (if is_message
      then \<lparr>req_width = DEFAULT_MESSAGE_WIDTH, req_height = DEFAULT_MESSAGE_HEIGHT,
             req_digits_bboxes = message_bboxes\<rparr>
      else \<lparr>req_width = DEFAULT_PINPAD_WIDTH, req_height = DEFAULT_PINPAD_HEIGHT,
             req_digits_bboxes = pinpad_bboxes\<rparr>)"

definition call_grpc_generic ::
  "('w, 'p, 'acct, circuits_call, 'c) ocw_env \<Rightarrow> circuits_codec \<Rightarrow> bytes \<Rightarrow>
   (('w, 'acct, 'c, 'z) offchain_scheme, circuits_error, circuits_reply) rust" where
  [pallet_defs]: "call_grpc_generic env cd verilog_cid =
     rbind (expect ''call_grpc_generic from_utf8'' (from_utf8 verilog_cid)) (\<lambda>verilog_cid_str.
     rbind (encode_body (enc_generic_request cd) \<lparr>req_verilog_cid = verilog_cid_str\<rparr>) (\<lambda>body_bytes.
     rbind (uri_root env ''aaa'') (\<lambda>uri_root.
     let endpoint = uri_root @ API_ENDPOINT_GENERIC_URL in
     rbind (map_err (\<lambda>_. CHttpFetchingError) (fetch_from_remote_grpc_web (http env) body_bytes endpoint))
       (\<lambda>(resp_bytes, resp_content_type).
     rbind (decode_body (base64_decode env) (dec_generic_reply cd) resp_bytes resp_content_type)
       (\<lambda>(resp, _). ret (GenericReply resp))))))"

definition call_grpc_display_one ::
  "('w, 'p, 'acct, circuits_call, 'c) ocw_env \<Rightarrow> circuits_codec \<Rightarrow> bool \<Rightarrow>
   (('w, 'acct, 'c, 'z) offchain_scheme, circuits_error, skcd_display_reply) rust" where
  [pallet_defs]: "call_grpc_display_one env cd is_message =
     rbind (encode_body (enc_display_request cd) (display_request is_message)) (\<lambda>body_bytes.
     rbind (uri_root env ''INTERSTELLAR_URI_ROOT_API_CIRCUITS'') (\<lambda>uri_root.
     let endpoint = uri_root @ API_ENDPOINT_DISPLAY_URL in
     rbind (map_err (\<lambda>_. CHttpFetchingError) (fetch_from_remote_grpc_web (http env) body_bytes endpoint))
       (\<lambda>(resp_bytes, resp_content_type).
     rbind (decode_body (base64_decode env) (dec_display_reply cd) resp_bytes resp_content_type)
       (\<lambda>(resp, _). ret resp))))"

definition call_grpc_display ::
  "('w, 'p, 'acct, circuits_call, 'c) ocw_env \<Rightarrow> circuits_codec \<Rightarrow>
   (('w, 'acct, 'c, 'z) offchain_scheme, circuits_error, circuits_reply) rust" where
  [pallet_defs]: "call_grpc_display env cd =
     rbind (attempt (call_grpc_display_one env cd True)) (\<lambda>message_reply.
     rbind (attempt (call_grpc_display_one env cd False)) (\<lambda>pinpad_reply.
     rbind (expect_ok ''message_reply failed!'' message_reply) (\<lambda>m.
     rbind (expect_ok ''pinpad_reply failed!'' pinpad_reply) (\<lambda>p.
     ret (DisplayReply m p)))))"

text \<open>The call made for one account from the replies; the metadata is unwrapped here.\<close>

fun circuits_callback :: "circuits_reply \<Rightarrow> ('s, 'e, circuits_call) rust" where
  "circuits_callback (GenericReply reply) = ret (callback_new_skcd_signed_call (generic_skcd_cid reply))"
| "circuits_callback (DisplayReply message_reply pinpad_reply) =
     rbind (unwrap ''message_reply.server_metadata'' (server_metadata message_reply)) (\<lambda>mm.
     rbind (unwrap ''pinpad_reply.server_metadata'' (server_metadata pinpad_reply)) (\<lambda>pm.
     ret (callback_new_display_circuits_package_signed_call
       (display_skcd_cid message_reply) (nb_digits mm) (display_skcd_cid pinpad_reply) (nb_digits pm))))"

definition circuits_finalize_grpc_call ::
  "('w, 'p, 'acct, circuits_call, 'c) ocw_env \<Rightarrow> circuits_error + circuits_reply \<Rightarrow>
   (('w, 'acct, 'c, 'z) offchain_scheme, circuits_error, unit) rust" where
  [pallet_defs]: "circuits_finalize_grpc_call env result_grpc_call = (case result_grpc_call of
     Inr result_reply \<Rightarrow>
       rbind (send_signed_transaction env CIRC_KEY_TYPE (\<lambda>_. circuits_callback result_reply)) (\<lambda>_. ret ())
   | Inl err \<Rightarrow> ret ())"

definition circuits_run_job ::
  "('w, 'p, 'acct, circuits_call, 'c) ocw_env \<Rightarrow> circuits_codec \<Rightarrow> circuits_indexing_data \<Rightarrow>
   (('w, 'acct, 'c, 'z) offchain_scheme, circuits_error, circuits_reply) rust" where
  [pallet_defs]: "circuits_run_job env cd indexing_data = (case c_grpc_kind indexing_data of
     Generic \<Rightarrow> rbind (expect ''missing verilog_cid'' (verilog_ipfs_hash indexing_data)) (call_grpc_generic env cd)
   | Display \<Rightarrow> call_grpc_display env cd)"

definition circuits_read_job ::
  "circuits_codec \<Rightarrow> ('w, 'acct, 'c, 'z) offchain_scheme \<Rightarrow> circuits_indexing_data" where
  [pallet_defs]: "circuits_read_job cd s =
     option_unwrap_or (result_unwrap_or
       (storage_get (dec_circuits_job cd) (circuits_derived_key (enc_block_number_default cd)) s)
       (Some default_circuits_indexing_data)) default_circuits_indexing_data"

definition circuits_process_if_needed ::
  "('w, 'p, 'acct, circuits_call, 'c) ocw_env \<Rightarrow> circuits_codec \<Rightarrow>
   (('w, 'acct, 'c, 'z) offchain_scheme, circuits_error, unit) rust" where
  [pallet_defs]: "circuits_process_if_needed env cd =
     rbind (gets (circuits_read_job cd)) (\<lambda>indexing_data.
     if c_block_number indexing_data = 0 then ret ()
     else
       rbind (host (lock_acquire env CIRC_LOCK_KEY CIRC_LOCK_BLOCK_EXPIRATION CIRC_LOCK_TIMEOUT_EXPIRATION)) (\<lambda>locked.
       rbind (if locked then with_guard env CIRC_LOCK_KEY
           (rbind (storage_set (circuits_derived_key (enc_block_number_default cd))
              (enc_circuits_job cd default_circuits_indexing_data)) (\<lambda>_.
            rbind (attempt (circuits_run_job env cd indexing_data)) (\<lambda>result_grpc_call.
            circuits_finalize_grpc_call env result_grpc_call)))
         else ret ()) (\<lambda>_.
       ret ())))"

text \<open>The hook logs an error and returns nothing.\<close>

definition circuits_offchain_worker ::
  "('w, 'p, 'acct, circuits_call, 'c) ocw_env \<Rightarrow> circuits_codec \<Rightarrow>
   (('w, 'acct, 'c, 'z) offchain_scheme, circuits_error, unit) rust" where
  [pallet_defs]: "circuits_offchain_worker env cd =
     rbind (attempt (circuits_process_if_needed env cd)) (\<lambda>_. ret ())"

section \<open>The worker honours the job slot contract\<close>

lemma circuits_callback_quiet: "quiet (circuits_callback r)"
  by (cases r) (auto intro!: quiet_intros)

lemma call_grpc_generic_net: "keeps net_only (call_grpc_generic env cd v)"
  unfolding call_grpc_generic_def Let_def
  by (intro net_only_intros quiet_intros quiet_encode_body) (auto intro!: net_only_intros quiet_intros)

lemma call_grpc_display_one_net: "keeps net_only (call_grpc_display_one env cd b)"
  unfolding call_grpc_display_one_def Let_def
  by (intro net_only_intros quiet_intros quiet_encode_body) (auto intro!: net_only_intros quiet_intros)

lemma call_grpc_display_net: "keeps net_only (call_grpc_display env cd)"
  unfolding call_grpc_display_def
  by (intro net.kept_rbind keeps_attempt call_grpc_display_one_net net.kept_pure)

lemma circuits_run_job_net: "keeps net_only (circuits_run_job env cd d)"
  unfolding circuits_run_job_def
  by (cases "c_grpc_kind d") (simp_all add: call_grpc_display_net net.kept_rbind
      net.kept_pure call_grpc_generic_net)

lemma circuits_finalize_storage: "keeps same_storage (circuits_finalize_grpc_call env r)"
  unfolding circuits_finalize_grpc_call_def
  by (cases r) (simp_all add: storage.kept_pure send_same_storage
      storage.kept_rbind storage.kept_quiet [OF circuits_callback_quiet])

definition circuits_pending :: "circuits_codec \<Rightarrow> ('w, 'acct, 'c, 'z) offchain_scheme \<Rightarrow> bool" where
  "circuits_pending cd s \<longleftrightarrow> c_block_number (circuits_read_job cd s) \<noteq> 0"

definition circuits_lock_free ::
  "('w, 'p, 'acct, circuits_call, 'c) ocw_env \<Rightarrow> ('w, 'acct, 'c, 'z) offchain_scheme \<Rightarrow> bool" where
  "circuits_lock_free env s \<longleftrightarrow> fst (lock_acquire env CIRC_LOCK_KEY CIRC_LOCK_BLOCK_EXPIRATION
     CIRC_LOCK_TIMEOUT_EXPIRATION (world s))"

definition circuits_idle_job :: "circuits_codec \<Rightarrow> bytes" where
  "circuits_idle_job cd = enc_circuits_job cd default_circuits_indexing_data"

definition circuits_job_key :: "circuits_codec \<Rightarrow> bytes" where
  "circuits_job_key cd = circuits_derived_key (enc_block_number_default cd)"

text \<open>The part of the worker under the lock.\<close>

definition circuits_locked_part ::
  "('w, 'p, 'acct, circuits_call, 'c) ocw_env \<Rightarrow> circuits_codec \<Rightarrow> circuits_indexing_data \<Rightarrow>
   (('w, 'acct, 'c, 'z) offchain_scheme, circuits_error, unit) rust" where
  "circuits_locked_part env cd d =
     rbind (modify (put_local (circuits_job_key cd) (circuits_idle_job cd))) (\<lambda>_.
     rbind (attempt (circuits_run_job env cd d)) (circuits_finalize_grpc_call env))"

lemma circuits_process_eq:
  "circuits_process_if_needed env cd s =
    run_slot env CIRC_LOCK_KEY CIRC_LOCK_BLOCK_EXPIRATION CIRC_LOCK_TIMEOUT_EXPIRATION (circuits_pending cd)
      (\<lambda>s. circuits_locked_part env cd (circuits_read_job cd s)) s"
  by (simp add: circuits_process_if_needed_def circuits_pending_def circuits_locked_part_def run_slot_def
      circuits_job_key_def circuits_idle_job_def storage_set_eq split: prod.splits)

lemma circuits_job_storage: "keeps same_storage
  (rbind (attempt (circuits_run_job env cd d)) (circuits_finalize_grpc_call env))"
  by (intro storage.kept_rbind keeps_attempt keeps_same_storage circuits_run_job_net
      circuits_finalize_storage)

interpretation circuits_slot: job_worker
  "dec_circuits_job cd (circuits_idle_job cd) = Some default_circuits_indexing_data"
  "circuits_job_key cd" "circuits_idle_job cd" "circuits_pending cd" "circuits_lock_free env"
  "circuits_process_if_needed env cd"
  for env cd
  unfolding circuits_lock_free_def [abs_def]
  by (rule run_slot_contract [OF circuits_process_eq circuits_locked_part_def circuits_job_storage])
    (simp_all add: circuits_pending_def circuits_read_job_def storage_get_def circuits_job_key_def
      default_circuits_indexing_data_def)

section \<open>What the calls leave\<close>

lemma index_set_apply [simp]: "offchain_index_set k v s = (Ret (), s\<lparr>offchain_index_writes := offchain_index_writes s @ [(k, v)]\<rparr>)"
  by (simp add: offchain_index_set_def)

interpretation generic_call: signed_call "\<lambda>origin. submit_config_generic_signed cd lg origin v" for cd lg v
  by (rule ensure_signed_first, unfold submit_config_generic_signed_def) (rule refl)

interpretation display_call: signed_call "\<lambda>origin. submit_config_display_circuits_package_signed cd origin" for cd
  by (rule ensure_signed_first, unfold submit_config_display_circuits_package_signed_def) (rule refl)

interpretation skcd_callback: signed_call "\<lambda>origin. callback_new_skcd_signed lg origin v" for lg v
  by (rule ensure_signed_first, unfold callback_new_skcd_signed_def) (rule refl)

interpretation package_callback: signed_call
  "\<lambda>origin. callback_new_display_circuits_package_signed lg origin m mn p pn" for lg m mn p pn
  by (rule ensure_signed_first, unfold callback_new_display_circuits_package_signed_def) (rule refl)

lemma set_display_package_simps [simp]:
  "display_skcd_package_value (set_display_package p s) = p"
  "circuit_server_metadata_map (set_display_package p s) = circuit_server_metadata_map s"
  "mobile_registry_map (set_display_package p s) = mobile_registry_map s"
  "events (set_display_package p s) = events s"
  "offchain_index_writes (set_display_package p s) = offchain_index_writes s"
  "circuits.more (set_display_package p s) = circuits.more s"
  by (simp_all add: set_display_package_def)

subsection \<open>The jobs that submissions leave\<close>

definition circuits_job :: "bytes option \<Rightarrow> circuits_grpc_kind \<Rightarrow> circuits_indexing_data" where
  "circuits_job v k = \<lparr>verilog_ipfs_hash = v, c_block_number = 1, c_grpc_kind = k\<rparr>"

text \<open>The job that a call leaves, if it is a submission that gets through.\<close>

fun job_of_call :: "bool \<Rightarrow> 'acct origin \<times> circuits_call \<Rightarrow> circuits_indexing_data option" where
  "job_of_call lg (SignedOrigin who, submit_config_generic_signed_call v) =
     (if lg \<and> \<not> valid_utf8 v then None else Some (circuits_job (Some v) Generic))"
| "job_of_call lg (SignedOrigin who, submit_config_display_circuits_package_signed_call) =
     Some (circuits_job None Display)"
| "job_of_call lg _ = None"

fun circuits_run_calls ::
  "circuits_codec \<Rightarrow> bool \<Rightarrow> ('acct origin \<times> circuits_call) list \<Rightarrow> ('acct, 'z) circuits_scheme \<Rightarrow> ('acct, 'z) circuits_scheme" where
  "circuits_run_calls cd lg [] s = s"
| "circuits_run_calls cd lg ((origin, call) # cs) s =
     circuits_run_calls cd lg cs (snd (circuits_dispatch cd lg call origin s))"

text \<open>No callback touches the buffered index writes.\<close>

definition same_writes :: "('acct, 'z) circuits_scheme \<Rightarrow> ('acct, 'z) circuits_scheme \<Rightarrow> bool" where
  "same_writes s t \<longleftrightarrow> offchain_index_writes t = offchain_index_writes s"

lemma same_writes_preorder: "preorder_rel same_writes"
  by (auto simp: same_writes_def preorder_rel_def)

interpretation circuits_writes: kept_relation same_writes
  by (rule kept_relation.intro) (rule same_writes_preorder)

lemma callback_writes:
  "keeps same_writes (callback_new_skcd_signed lg origin v)"
  "keeps same_writes (callback_new_display_circuits_package_signed lg origin m mn p pn)"
  unfolding callback_new_skcd_signed_def callback_new_display_circuits_package_signed_def
    deposit_event_def ensure_signed_def
  by (intro circuits_writes.kept_rbind circuits_writes.kept_log keeps_modify circuits_writes.kept_pure(1-7);
      auto simp: same_writes_def circuits_writes.kept_pure split: origin.splits)+

lemma circuits_dispatch_writes:
  "offchain_index_writes (snd (circuits_dispatch cd lg call origin s)) = offchain_index_writes s @
     (case job_of_call lg (origin, call) of None \<Rightarrow> []
      | Some d \<Rightarrow> [(circuits_job_key cd, enc_circuits_job cd d)])"
proof (cases call)
  case (submit_config_generic_signed_call v)
  then show ?thesis
    by (cases origin; cases lg) (auto simp: submit_config_generic_signed_def append_or_replace_verilog_hash_def
        circuits_job_key_def circuits_job_def from_utf8_valid)
next
  case submit_config_display_circuits_package_signed_call
  then show ?thesis
    by (cases origin) (auto simp: submit_config_display_circuits_package_signed_def
        append_or_replace_verilog_hash_def circuits_job_key_def circuits_job_def)
next
  case (callback_new_skcd_signed_call v)
  then show ?thesis using keepsD [OF callback_writes(1), of s lg origin v]
    by (cases origin) (simp_all add: same_writes_def)
next
  case (callback_new_display_circuits_package_signed_call m mn p pn)
  then show ?thesis using keepsD [OF callback_writes(2), of s lg origin m mn p pn]
    by (cases origin) (simp_all add: same_writes_def)
qed

lemma circuits_run_calls_writes:
  "offchain_index_writes (circuits_run_calls cd lg cs s) = offchain_index_writes s @
     map (\<lambda>d. (circuits_job_key cd, enc_circuits_job cd d)) (List.map_filter (job_of_call lg) cs)"
  by (induction cs arbitrary: s)
    (auto simp: circuits_dispatch_writes List.map_filter_def split: option.splits)

lemma commit_same_key:
  "local_storage (commit_index_writes True (map (\<lambda>d. (k, f d)) ds) s) k =
     (if ds = [] then local_storage s k else Some (f (last ds)))"
  by (induction ds arbitrary: s) (simp_all add: commit_index_writes_put local_map.lookup_same del: commit_index_writes.simps(2))

section \<open>Properties of the calls\<close>

text \<open>C37: The calls of a block leave the worker one job at most: after any calls, by anyone, the
  node's local storage holds the job of the last submission that got through, and the jobs of all
  earlier ones are gone, although the submission routine is documented to append to a list.\<close>

theorem only_last_submission_is_seen:
  assumes "\<And>d. dec_circuits_job cd (enc_circuits_job cd d) = Some d"
    and "offchain_index_writes s = []"
  shows "circuits_read_job cd
      (commit_index_writes True (offchain_index_writes (circuits_run_calls cd lg cs s)) node) =
    (case List.map_filter (job_of_call lg) cs of
       [] \<Rightarrow> circuits_read_job cd node
     | d # ds \<Rightarrow> last (d # ds))"
  using assms
  by (simp add: circuits_read_job_def circuits_run_calls_writes storage_get_def commit_same_key
      circuits_job_key_def [symmetric] split: list.splits)

text \<open>A signed callback with identifiers of at most 64 bytes replaces the reference package,
  whoever signed it, and from then on get_display_circuits_package returns exactly that package if
  both digit counts are non zero and an error otherwise.\<close>

lemma callback_sets_reference_package:
  assumes "length m \<le> 64" "length p \<le> 64" "lg \<longrightarrow> valid_utf8 m \<and> valid_utf8 p"
  shows "\<exists>t. callback_new_display_circuits_package_signed lg (SignedOrigin who) m mn p pn s = (Ret (), t)
    \<and> get_display_circuits_package t =
       (if mn \<noteq> 0 \<and> pn \<noteq> 0
        then Ret \<lparr>message_skcd_cid = m, message_skcd_server_metadata_nb_digits = mn,
                  pinpad_skcd_cid = p, pinpad_skcd_server_metadata_nb_digits = pn\<rparr>
        else Err DisplaySkcdPackageValueError, t)
    \<and> events t = events s @ [OcwCircuitsEvent (NewDisplaySkcdPackageIpfsCid m p)]
    \<and> circuit_server_metadata_map t = circuit_server_metadata_map s
    \<and> circuits.more t = circuits.more s"
  using assms
  by (cases lg) (auto simp: callback_new_display_circuits_package_signed_def get_display_circuits_package_def
      from_utf8_valid)

text \<open>The circuits storage is either its default or written by a callback, within its bounds.\<close>

definition circuits_inv :: "('acct, 'z) circuits_scheme \<Rightarrow> bool" where
  "circuits_inv s \<longleftrightarrow> length (message_skcd_cid (display_skcd_package_value s)) \<le> 64
     \<and> length (pinpad_skcd_cid (display_skcd_package_value s)) \<le> 64"

lemma package_callback_cases:
  assumes "callback_new_display_circuits_package_signed lg (SignedOrigin who) m mn p pn s = (r, t)"
  shows "(r = Ret () \<and> length m \<le> 64 \<and> length p \<le> 64 \<and>
       t = set_display_package \<lparr>message_skcd_cid = m, message_skcd_server_metadata_nb_digits = mn,
             pinpad_skcd_cid = p, pinpad_skcd_server_metadata_nb_digits = pn\<rparr>
           (deposited (OcwCircuitsEvent (NewDisplaySkcdPackageIpfsCid m p)) s))
    \<or> (\<exists>q. r = Panic q) \<and> lg \<and> t = s
    \<or> (\<exists>q. r = Panic q) \<and> (64 < length m \<or> 64 < length p)
        \<and> t = deposited (OcwCircuitsEvent (NewDisplaySkcdPackageIpfsCid m p)) s"
  using assms
  by (cases lg; cases "length m \<le> 64"; cases "length p \<le> 64")
    (auto simp: callback_new_display_circuits_package_signed_def from_utf8_valid not_le split: if_splits)

section \<open>Properties of the worker\<close>

lemma circuits_callback_const: "(\<exists>call. circuits_callback r = ret call) \<or> (\<exists>p. circuits_callback r = panic_with p)"
  by (cases r rule: circuits_callback.cases)
    (auto simp: unwrap_def rbind_def ret_def panic_with_def fun_eq_iff split: option.splits)

lemma circuits_finalizes: "finalizes env CIRC_KEY_TYPE (circuits_finalize_grpc_call env r)"
  unfolding circuits_finalize_grpc_call_def
  by (cases r) (simp_all add: finalizes_send [OF circuits_callback_const], simp add: finalizes_def)

lemma circuits_process_exit:
  "circuits_process_if_needed env cd s = (r, t) \<Longrightarrow>
   run_exit env CIRC_KEY_TYPE (circuits_job_key cd) (circuits_idle_job cd) s r t"
  unfolding circuits_process_eq
  by (rule run_slot_exit [OF circuits_locked_part_def circuits_run_job_net circuits_finalizes])

lemma offchain_worker_eq:
  "circuits_offchain_worker env cd = circuits_process_if_needed env cd"
proof
  fix s
  obtain r t where "circuits_process_if_needed env cd s = (r, t)" by fastforce
  with circuits_process_exit [OF this] show "circuits_offchain_worker env cd s = circuits_process_if_needed env cd s"
    by (cases r) (simp_all add: circuits_offchain_worker_def rbind_def attempt_def run_exit_def)
qed

text \<open>C24: However a run of the worker leaves, it never returns an error. A run that returns has either
  left the job slot and the submitted transactions alone, or emptied the slot and had every local account
  submit the same one callback, or none; a run that panics has emptied the slot and submitted nothing, so
  its job is lost.\<close>

theorem circuits_worker_exits:
  "case circuits_offchain_worker env cd s of (r, t) \<Rightarrow> (case r of
     Ret _ \<Rightarrow> local_storage t = local_storage s \<and> submitted t = submitted s
       \<or> local_storage t = (local_storage s)(circuits_job_key cd := Some (circuits_idle_job cd))
         \<and> (submitted t = submitted s \<or> (\<exists>call. submitted t =
              submitted s @ map (\<lambda>a. (a, into_call env call)) (local_accounts env CIRC_KEY_TYPE)))
   | Err _ \<Rightarrow> False
   | Panic _ \<Rightarrow> local_storage t = (local_storage s)(circuits_job_key cd := Some (circuits_idle_job cd))
       \<and> submitted t = submitted s)"
proof -
  obtain r t where r: "circuits_process_if_needed env cd s = (r, t)" by fastforce
  from circuits_process_exit [OF r] r show ?thesis by (simp add: offchain_worker_eq run_exit_def)
qed

text \<open>A pending job is worked on once: after the first run that gets the lock, any number of
  further runs change nothing, and keys of the local storage other than the job's are never written.\<close>

lemma circuits_job_runs_once:
  assumes "dec_circuits_job cd (circuits_idle_job cd) = Some default_circuits_indexing_data"
    and "circuits_pending cd s" "circuits_lock_free env s"
  shows "((\<lambda>s. snd (circuits_process_if_needed env cd s)) ^^ Suc n) s = snd (circuits_process_if_needed env cd s)
    \<and> (\<forall>k. k \<noteq> circuits_job_key cd \<longrightarrow>
         local_storage (snd (circuits_process_if_needed env cd s)) k = local_storage s k)"
  using circuits_slot.one_run_counts [OF assms] circuits_slot.other_keys by blast

subsection \<open>A display job from end to end\<close>

lemma uri_root_std: "std_build env \<Longrightarrow> env_var env name = Some root \<Longrightarrow> uri_root env name = ret root"
  by (simp add: uri_root_def)

definition display_post ::
  "('w, 'p, 'acct, circuits_call, 'c) ocw_env \<Rightarrow> circuits_codec \<Rightarrow> string \<Rightarrow> bool \<Rightarrow> 'w \<Rightarrow> http_request" where
  "display_post env cd root b w = grpc_request (http env)
     (frame (the (enc_display_request cd (display_request b)))) (root @ API_ENDPOINT_DISPLAY_URL) w"

lemma call_grpc_display_one_ok:
  assumes "std_build env" "env_var env ''INTERSTELLAR_URI_ROOT_API_CIRCUITS'' = Some root"
    and "enc_display_request cd (display_request b) \<noteq> None"
    and "replies (http env) (display_post env cd root b (world s)) (world s) (frame payload @ trailer) w"
    and "length payload < 2 ^ 32" "dec_display_reply cd payload = Some reply" "5 \<le> length trailer"
  shows "call_grpc_display_one env cd b s = (Ret reply, sent_request (display_post env cd root b (world s)) w s)"
proof -
  from assms(3) obtain body where e: "enc_display_request cd (display_request b) = Some body" by blast
  with assms(4) have f: "fetch_from_remote_grpc_web (http env) (frame body) (root @ API_ENDPOINT_DISPLAY_URL) s =
      (Ret (frame payload @ trailer, GrpcWeb), sent_request (display_post env cd root b (world s)) w s)"
    by (simp add: display_post_def fetch_replied)
  then have "map_err g (fetch_from_remote_grpc_web (http env) (frame body) (root @ API_ENDPOINT_DISPLAY_URL)) s =
      (Ret (frame payload @ trailer, GrpcWeb), sent_request (display_post env cd root b (world s)) w s)"
    for g :: "http_error \<Rightarrow> circuits_error"
    by (simp add: map_err_def)
  then show ?thesis
    by (simp add: call_grpc_display_one_def rbind_encode [where enc = "enc_display_request cd", OF e] uri_root_std [OF assms(1,2)] Let_def
        rbind_Ret rbind_decode [where dec = "dec_display_reply cd", OF assms(5-7)])
qed

text \<open>What the two replies are turned into.\<close>

definition display_callback :: "skcd_display_reply \<Rightarrow> skcd_display_reply \<Rightarrow> circuits_call" where
  "display_callback m p = callback_new_display_circuits_package_signed_call
     (display_skcd_cid m) (nb_digits (the (server_metadata m)))
     (display_skcd_cid p) (nb_digits (the (server_metadata p)))"

lemma circuits_callback_display:
  "server_metadata m \<noteq> None \<Longrightarrow> server_metadata p \<noteq> None \<Longrightarrow>
   circuits_callback (DisplayReply m p) = ret (display_callback m p)"
  by (auto simp: display_callback_def)

text \<open>What a host must do for a display job: accept both posts and answer them with framed replies.\<close>

definition display_host_ok ::
  "('w, 'p, 'acct, circuits_call, 'c) ocw_env \<Rightarrow> circuits_codec \<Rightarrow> string \<Rightarrow> bool \<Rightarrow> skcd_display_reply \<Rightarrow> 'w \<Rightarrow> 'w \<Rightarrow> bool" where
  "display_host_ok env cd root b reply w w' \<longleftrightarrow> (\<exists>payload trailer.
     replies (http env) (display_post env cd root b w) w (frame payload @ trailer) w'
     \<and> length payload < 2 ^ 32 \<and> 5 \<le> length trailer
     \<and> dec_display_reply cd payload = Some reply \<and> server_metadata reply \<noteq> None)"

lemma display_job_run:
  assumes "circuits_pending cd s" "c_grpc_kind (circuits_read_job cd s) = Display"
    and "lock_acquire env CIRC_LOCK_KEY CIRC_LOCK_BLOCK_EXPIRATION CIRC_LOCK_TIMEOUT_EXPIRATION (world s) = (True, w0)"
    and "std_build env" "env_var env ''INTERSTELLAR_URI_ROOT_API_CIRCUITS'' = Some root"
    and "\<forall>b. enc_display_request cd (display_request b) \<noteq> None"
    and "display_host_ok env cd root True m w0 w1" "display_host_ok env cd root False p w1 w2"
  shows "circuits_offchain_worker env cd s = (Ret (), s\<lparr>
     world := lock_release env CIRC_LOCK_KEY w2,
     requests := requests s @ [display_post env cd root True w0, display_post env cd root False w1],
     local_storage := (local_storage s)(circuits_job_key cd := Some (circuits_idle_job cd)),
     submitted := submitted s @
       map (\<lambda>a. (a, into_call env (display_callback m p))) (local_accounts env CIRC_KEY_TYPE)\<rparr>)"
proof -
  define s1 where "s1 = put_local (circuits_job_key cd) (circuits_idle_job cd) (s\<lparr>world := w0\<rparr>)"
  define s2 where "s2 = sent_request (display_post env cd root True w0) w1 s1"
  define s3 where "s3 = sent_request (display_post env cd root False w1) w2 s2"
  have one: "call_grpc_display_one env cd b u = (Ret reply, sent_request (display_post env cd root b (world u)) w' u)"
    if "display_host_ok env cd root b reply (world u) w'" for b reply w' and u
    using that assms(4-6) by (auto simp: display_host_ok_def intro!: call_grpc_display_one_ok)
  have a: "attempt (call_grpc_display_one env cd True) s1 = (Ret (Inr m), s2)"
    using one [of True m s1 w1] assms(7) by (simp add: attempt_Ret s1_def s2_def)
  have b: "attempt (call_grpc_display_one env cd False) s2 = (Ret (Inr p), s3)"
    using one [of False p s2 w2] assms(8) by (simp add: attempt_Ret s2_def s3_def)
  have c: "attempt (circuits_run_job env cd (circuits_read_job cd s)) s1 = (Ret (Inr (DisplayReply m p)), s3)"
    using assms(2) by (intro attempt_Ret) (simp add: circuits_run_job_def call_grpc_display_def rbind_Ret a b)
  have d: "circuits_callback (DisplayReply m p) = ret (display_callback m p)"
    using assms(7,8) by (intro circuits_callback_display) (auto simp: display_host_ok_def)
  have "circuits_locked_part env cd (circuits_read_job cd s) (s\<lparr>world := w0\<rparr>) =
      (Ret (), submit_all env CIRC_KEY_TYPE (display_callback m p) s3)"
    by (simp add: circuits_locked_part_def s1_def [symmetric] rbind_Ret c circuits_finalize_grpc_call_def
        d send_signed_ret del: circuits_callback.simps)
  then show ?thesis
    using assms(1,3) by (simp add: offchain_worker_eq circuits_process_eq run_slot_def with_guard_Ret
        submit_all_def s3_def s2_def s1_def sent_request_def put_local_def)
qed

text \<open>C16: A display job whose two requests are answered makes exactly two posts to the display endpoint, the
  message first, then has every local account submit the callback that carries both identifiers and both
  digit counts, and leaves the slot empty and the lock released.\<close>

theorem display_job_end_to_end:
  assumes "circuits_pending cd s" "c_grpc_kind (circuits_read_job cd s) = Display"
    and "lock_acquire env CIRC_LOCK_KEY CIRC_LOCK_BLOCK_EXPIRATION CIRC_LOCK_TIMEOUT_EXPIRATION (world s) = (True, w0)"
    and "std_build env" "env_var env ''INTERSTELLAR_URI_ROOT_API_CIRCUITS'' = Some root"
    and "\<forall>b. enc_display_request cd (display_request b) \<noteq> None"
    and "display_host_ok env cd root True m w0 w1" "display_host_ok env cd root False p w1 w2"
  shows "circuits_offchain_worker env cd s = (Ret (), s\<lparr>
     world := lock_release env CIRC_LOCK_KEY w2,
     requests := requests s @ [display_post env cd root True w0, display_post env cd root False w1],
     local_storage := (local_storage s)(circuits_job_key cd := Some (circuits_idle_job cd)),
     submitted := submitted s @
       map (\<lambda>a. (a, into_call env (display_callback m p))) (local_accounts env CIRC_KEY_TYPE)\<rparr>)"
  using assms by (rule display_job_run)

subsection \<open>The boxes of a display request\<close>

lemma pinpad_bboxes_concat:
  "pinpad_bboxes = concat (map (\<lambda>i. [f32_mul (f32_of_frac 1 10) (f32_of_nat i), f32_of_nat 0,
      f32_mul (f32_of_frac 1 10) (f32_of_nat (i + 1)), f32_of_nat 1]) [0..<10])"
  unfolding pinpad_bboxes_def by (simp add: upt_rec)

text \<open>In f32 arithmetic as in the code, the ten boxes of the pinpad request tile the unit square without
  gap or overlap: each box spans the whole height, its right edge is bit for bit the left edge of the next,
  the edges increase strictly, the first is 0 and the last exactly 1.\<close>

lemma pinpad_boxes_tile:
  "\<exists>edges. length edges = 11 \<and> hd edges = f32_of_nat 0 \<and> last edges = f32_of_nat 1
     \<and> sorted_wrt (<) edges
     \<and> req_digits_bboxes (display_request False) =
        concat (map (\<lambda>i. [edges ! i, f32_of_nat 0, edges ! (i + 1), f32_of_nat 1]) [0..<10])"
proof -
  let ?edges = "map (\<lambda>i. f32_mul (f32_of_frac 1 10) (f32_of_nat i)) [0..<11]"
  have l: "[0..<11] = [0, 1, 2, 3, 4, 5, 6, 7, 8, 9, 10 :: nat]"
    by (simp add: upt_rec)
  have e: "?edges = [F32 0 149, F32 13421773 27, F32 13421773 26, F32 10066330 25, F32 13421773 25, F32 (2 ^ 23) 24,
      F32 10066330 24, F32 11744051 24, F32 13421773 24, F32 15099495 24, F32 (2 ^ 23) 23]"
    unfolding l list.map f32_tenths ..
  have "hd ?edges = f32_of_nat 0" "last ?edges = f32_of_nat 1" "length ?edges = 11"
    unfolding e f32_naturals by simp_all
  moreover have "sorted_wrt (<) ?edges"
    unfolding e by (simp add: less_f32_def)
  moreover have "req_digits_bboxes (display_request False) =
      concat (map (\<lambda>i. [?edges ! i, f32_of_nat 0, ?edges ! (i + 1), f32_of_nat 1]) [0..<10])"
    unfolding display_request_def pinpad_bboxes_concat
    by (simp del: upt_Suc, intro arg_cong [of _ _ concat] map_cong refl) (simp add: nth_map del: upt_Suc)
  ultimately show ?thesis
    by (intro exI [of _ ?edges] conjI)
qed

subsection \<open>A generic job needs a variable of another name\<close>

lemma call_grpc_generic_panics:
  assumes "std_build env" "env_var env ''aaa'' = None"
  shows "\<exists>p. call_grpc_generic env cd v s = (Panic p, s)"
proof (cases "from_utf8 v")
  case (Some str)
  with assms show ?thesis
    by (cases "enc_generic_request cd \<lparr>req_verilog_cid = str\<rparr>")
      (simp_all add: call_grpc_generic_def uri_root_def rbind_def encode_body_def)
qed (simp add: call_grpc_generic_def)

text \<open>In a native build without an environment variable named aaa every generic job is lost: the run
  panics before any request, whatever the root configured for the circuit API, and leaves the slot empty.\<close>

lemma generic_job_needs_aaa:
  assumes "circuits_pending cd s" "c_grpc_kind (circuits_read_job cd s) = Generic" "circuits_lock_free env s"
    and "std_build env" "env_var env ''aaa'' = None"
  shows "case circuits_offchain_worker env cd s of (r, t) \<Rightarrow> (\<exists>p. r = Panic p)
    \<and> requests t = requests s \<and> submitted t = submitted s
    \<and> local_storage t = (local_storage s)(circuits_job_key cd := Some (circuits_idle_job cd))"
proof -
  obtain w where w: "lock_acquire env CIRC_LOCK_KEY CIRC_LOCK_BLOCK_EXPIRATION CIRC_LOCK_TIMEOUT_EXPIRATION (world s) = (True, w)"
    using assms(3) by (auto simp: circuits_lock_free_def) (metis prod.collapse)
  define s1 where "s1 = put_local (circuits_job_key cd) (circuits_idle_job cd) (s\<lparr>world := w\<rparr>)"
  have "\<exists>p. circuits_run_job env cd (circuits_read_job cd s) s1 = (Panic p, s1)"
    using assms(2) call_grpc_generic_panics [OF assms(4,5)]
    by (cases "verilog_ipfs_hash (circuits_read_job cd s)") (simp_all add: circuits_run_job_def)
  then obtain p where p: "circuits_run_job env cd (circuits_read_job cd s) s1 = (Panic p, s1)" ..
  have "circuits_locked_part env cd (circuits_read_job cd s) (s\<lparr>world := w\<rparr>) = (Panic p, s1)"
    by (simp add: circuits_locked_part_def s1_def [symmetric] rbind_Panic attempt_Panic p)
  with assms(1) w show ?thesis
    by (simp add: offchain_worker_eq circuits_process_eq run_slot_def with_guard_def s1_def put_local_def)
qed

section \<open>Concrete runs\<close>

text \<open>A codec for the concrete runs: a block number, a tag, an optional payload; replies name an identifier.\<close>

definition demo_circuits_codec :: circuits_codec where
  "demo_circuits_codec = \<lparr>enc_block_number_default = [0, 0, 0, 0],
     enc_circuits_job = (\<lambda>d. be_u32 (c_block_number d) @ [case c_grpc_kind d of Generic \<Rightarrow> 0 | Display \<Rightarrow> 1]
       @ (case verilog_ipfs_hash d of None \<Rightarrow> [0] | Some v \<Rightarrow> 1 # v)),
     dec_circuits_job = (\<lambda>v. case v of
         a # b # c # d # k # tag # r \<Rightarrow> Some \<lparr>verilog_ipfs_hash = (if tag = 0 then None else Some r),
           c_block_number = word_of_nat (u32_of_be a b c d), c_grpc_kind = (if k = 0 then Generic else Display)\<rparr>
       | _ \<Rightarrow> None),
     enc_generic_request = (\<lambda>r. Some (req_verilog_cid r)),
     dec_generic_reply = (\<lambda>v. Some \<lparr>generic_skcd_cid = v\<rparr>),
     enc_display_request = (\<lambda>r. Some [word_of_nat (length (req_digits_bboxes r))]),
     dec_display_reply = (\<lambda>v. case v of n # cid \<Rightarrow>
         Some \<lparr>display_skcd_cid = cid, server_metadata = Some \<lparr>nb_digits = word_of_nat (unat n)\<rparr>\<rparr> | [] \<Rightarrow> None)\<rparr>"

lemma demo_circuits_roundtrip: "dec_circuits_job demo_circuits_codec (enc_circuits_job demo_circuits_codec d) = Some d"
proof -
  obtain a b c e where w: "be_u32 (c_block_number d) = [a, b, c, e]" "u32_of_be a b c e = unat (c_block_number d)"
    by (rule u32_be_roundtrip)
  then show ?thesis
    by (cases d; cases "verilog_ipfs_hash d"; cases "c_grpc_kind d") (simp_all add: demo_circuits_codec_def)
qed

definition circuits_genesis :: "'acct circuits" where
  "circuits_genesis = \<lparr>events = [], offchain_index_writes = [], mobile_registry_map = (\<lambda>_. None),
     circuit_server_metadata_map = (\<lambda>_. None), display_skcd_package_value = default_display_skcd_package\<rparr>"

text \<open>A node that holds one job.\<close>

definition circuits_node :: "circuits_indexing_data \<Rightarrow> 'w \<Rightarrow> ('w, nat, circuits_call) offchain" where
  "circuits_node d w = put_local (circuits_job_key demo_circuits_codec) (enc_circuits_job demo_circuits_codec d) (idle_node w)"

lemma circuits_node_facts:
  "circuits_read_job demo_circuits_codec (circuits_node d w) = d"
  "circuits_pending demo_circuits_codec (circuits_node (circuits_job v k) w)"
  "circuits_lock_free demo_env (circuits_node d w')"
  "world (circuits_node d w) = w"
  by (simp_all add: circuits_pending_def circuits_read_job_def storage_get_def circuits_node_def
      circuits_job_key_def [symmetric] local_map.lookup_same demo_circuits_roundtrip circuits_job_def
      circuits_lock_free_def demo_env_def idle_node_def)

theorem only_last_submission_is_seen_witness:
  "circuits_read_job demo_circuits_codec
     (commit_index_writes True (offchain_index_writes (circuits_run_calls demo_circuits_codec True
        [(SignedOrigin (42 :: nat), submit_config_generic_signed_call [81]),
         (SignedOrigin 43, submit_config_display_circuits_package_signed_call),
         (NoneOrigin, submit_config_generic_signed_call [82])] circuits_genesis))
       (idle_node () :: (unit, nat, circuits_call) offchain)) =
   circuits_job None Display"
  by (subst only_last_submission_is_seen [OF demo_circuits_roundtrip])
    (simp_all add: circuits_genesis_def List.map_filter_def valid_ascii is_ascii_def)

lemma callback_sets_reference_package_witness:
  "\<exists>t. callback_new_display_circuits_package_signed True (SignedOrigin (42 :: nat)) [81, 1] 2 [81, 2] 10 circuits_genesis = (Ret (), t)
    \<and> get_display_circuits_package t =
       (Ret \<lparr>message_skcd_cid = [81, 1], message_skcd_server_metadata_nb_digits = 2,
             pinpad_skcd_cid = [81, 2], pinpad_skcd_server_metadata_nb_digits = 10\<rparr>, t)"
  using callback_sets_reference_package [of "[81, 1]" "[81, 2]" True 42 2 10 circuits_genesis]
  by (auto simp: valid_ascii is_ascii_def)

lemma circuits_job_runs_once_witness:
  "((\<lambda>s. snd (circuits_process_if_needed demo_env demo_circuits_codec s)) ^^ Suc 5) (circuits_node (circuits_job (Some [81]) Generic) []) =
    snd (circuits_process_if_needed demo_env demo_circuits_codec (circuits_node (circuits_job (Some [81]) Generic) []))"
  using circuits_job_runs_once [OF _ circuits_node_facts(2,3), of 5 "Some [81]" Generic "[]"]
  by (simp add: circuits_idle_job_def demo_circuits_roundtrip del: funpow.simps)

lemma generic_job_needs_aaa_witness:
  "case circuits_offchain_worker demo_env demo_circuits_codec (circuits_node (circuits_job (Some [81]) Generic) [ok_response []])
     of (r, t) \<Rightarrow> (\<exists>p. r = Panic p)
    \<and> requests t = requests (circuits_node (circuits_job (Some [81]) Generic) [ok_response []])
    \<and> submitted t = submitted (circuits_node (circuits_job (Some [81]) Generic) [ok_response []])
    \<and> local_storage t = (local_storage (circuits_node (circuits_job (Some [81]) Generic) [ok_response []]))
        (circuits_job_key demo_circuits_codec := Some (circuits_idle_job demo_circuits_codec))"
  by (rule generic_job_needs_aaa [OF circuits_node_facts(2)])
    (simp_all add: circuits_node_facts circuits_job_def)

text \<open>Two framed replies for the display job.\<close>

definition demo_display_responses :: "http_response list" where
  "demo_display_responses = [ok_response (frame [2, 81] @ [128, 0, 0, 0, 0]), ok_response (frame [10, 82] @ [128, 0, 0, 0, 0])]"

theorem display_job_end_to_end_witness:
  "submitted (snd (circuits_offchain_worker demo_env demo_circuits_codec
     (circuits_node (circuits_job None Display) demo_display_responses))) =
   [(42, callback_new_display_circuits_package_signed_call [81] 2 [82] 10)]"
proof -
  let ?m = "\<lparr>display_skcd_cid = [81], server_metadata = Some \<lparr>nb_digits = 2\<rparr>\<rparr>"
  let ?p = "\<lparr>display_skcd_cid = [82], server_metadata = Some \<lparr>nb_digits = 10\<rparr>\<rparr>"
  have m: "display_host_ok demo_env demo_circuits_codec ''http://api'' True ?m demo_display_responses
      [ok_response (frame [10, 82] @ [128, 0, 0, 0, 0])]"
    unfolding display_host_ok_def demo_display_responses_def
    by (intro exI [of _ "[2, 81]"] exI [of _ "[128, 0, 0, 0, 0]"])
      (simp add: scripted_replies demo_circuits_codec_def)
  have p: "display_host_ok demo_env demo_circuits_codec ''http://api'' False ?p
      [ok_response (frame [10, 82] @ [128, 0, 0, 0, 0])] []"
    unfolding display_host_ok_def
    by (intro exI [of _ "[10, 82]"] exI [of _ "[128, 0, 0, 0, 0]"])
      (simp add: scripted_replies demo_circuits_codec_def)
  have "\<forall>b. enc_display_request demo_circuits_codec (display_request b) \<noteq> None"
    by (simp add: demo_circuits_codec_def)
  from display_job_end_to_end [OF circuits_node_facts(2) _ _ _ _ this m p, of None Display]
  show ?thesis
    by (simp add: circuits_node_facts circuits_job_def display_callback_def)
      (simp add: circuits_node_def idle_node_def)
qed

end
