(* ===== verification/Ocw_Garble.thy ===== *)
theory Ocw_Garble
  imports Ocw_Circuits
begin

text \<open>
  The pallet \<open>pallets/ocw-garble\<close>. A user asks for a garbled circuit; for the display circuits the
  pallet draws the pinpad permutation and the message digits and leaves them in the job. Its worker
  asks the garble API for the circuits (twice: message, then pinpad) and submits the identifiers and
  the digits as a signed callback, which stores the digits with tx-validation and appends the
  circuits to the pending list of the account that signed.
\<close>

section \<open>Constants\<close>

definition GARB_KEY_TYPE :: bytes where
  "GARB_KEY_TYPE = ascii ''garb''"

definition GARB_LOCK_TIMEOUT_EXPIRATION :: nat where
  "GARB_LOCK_TIMEOUT_EXPIRATION = 10000"

definition GARB_LOCK_BLOCK_EXPIRATION :: nat where
  "GARB_LOCK_BLOCK_EXPIRATION = 3"

definition GARB_ONCHAIN_TX_KEY :: bytes where
  "GARB_ONCHAIN_TX_KEY = ascii ''ocw-garble::storage::tx''"

definition GARB_LOCK_KEY :: bytes where
  "GARB_LOCK_KEY = ascii ''ocw-garble::lock''"

definition API_ENDPOINT_GARBLE_URL :: string where
  "API_ENDPOINT_GARBLE_URL = ''/interstellarpbapigarble.GarbleApi/GarbleIpfs''"

definition API_ENDPOINT_GARBLE_STRIP_URL :: string where
  "API_ENDPOINT_GARBLE_STRIP_URL = ''/interstellarpbapigarble.GarbleApi/GarbleAndStripIpfs''"

definition MAX_NUMBER_PENDING_CIRCUITS_PER_ACCOUNT :: nat where
  "MAX_NUMBER_PENDING_CIRCUITS_PER_ACCOUNT = 16"

section \<open>Data and storage\<close>

record display_stripped_circuits_package =
  message_pgarbled_cid :: bytes
  message_packmsg_cid :: bytes
  pinpad_pgarbled_cid :: bytes
  pinpad_packmsg_cid :: bytes
  message_nb_digits :: u32

type_synonym pending_circuits = "display_stripped_circuits_package list"

record 'acct garble = "'acct circuits" +
  account_to_pending_circuits_map :: "'acct \<Rightarrow> pending_circuits option"
  nonce :: u64

datatype garble_error =
    GUnknownOffchainMux | GNoLocalAcctForSigning | GOffchainSignedTxError
  | GOffchainUnsignedTxError | GOffchainUnsignedTxSignedPayloadError | GHttpFetchingError
  | GDeserializeToObjError | GDeserializeToStrError

datatype garble_grpc_kind = GarbleStandard | GarbleAndStrip

definition default_garble_grpc_kind :: garble_grpc_kind where
  "default_garble_grpc_kind = GarbleStandard"

record garble_indexing_data =
  g_block_number :: u32
  g_grpc_kind :: garble_grpc_kind
  skcd_ipfs_cid :: "bytes option"
  message_skcd_ipfs_cid :: "bytes option"
  pinpad_skcd_ipfs_cid :: "bytes option"
  g_tx_msg :: "bytes option"
  g_message_digits :: "bytes option"
  g_pinpad_digits :: "bytes option"

definition default_garble_indexing_data :: garble_indexing_data where
  "default_garble_indexing_data = \<lparr>g_block_number = 0, g_grpc_kind = default_garble_grpc_kind,
     skcd_ipfs_cid = None, message_skcd_ipfs_cid = None, pinpad_skcd_ipfs_cid = None, g_tx_msg = None,
     g_message_digits = None, g_pinpad_digits = None\<rparr>"

text \<open>The fields of the garble API's messages (generated from a submodule) that the pallet uses.\<close>

record garble_ipfs_request =
  greq_skcd_cid :: bytes

record garble_ipfs_reply =
  grep_pgarbled_cid :: bytes

record garble_and_strip_request =
  sreq_skcd_cid :: bytes
  sreq_tx_msg :: bytes
  sreq_digits :: "bytes option"

record garble_and_strip_reply =
  srep_pgarbled_cid :: bytes
  srep_packmsg_cid :: bytes

datatype garble_reply =
    GarbleStandardReply garble_ipfs_reply
  | GarbleAndStripReply garble_and_strip_reply bytes garble_and_strip_reply bytes

datatype garble_call =
    garble_standard_signed_call bytes
  | garble_and_strip_display_circuits_package_signed_call bytes
  | callback_new_garbled_signed_call bytes
  | callback_new_garbled_and_strip_signed_call bytes bytes bytes bytes bytes bytes

record garble_codec =
  enc_block_number_default_g :: bytes
  enc_nonce :: "u64 \<Rightarrow> bytes"
  enc_garble_job :: "garble_indexing_data \<Rightarrow> bytes"
  dec_garble_job :: "bytes \<Rightarrow> garble_indexing_data option"
  enc_garble_request :: "garble_ipfs_request \<Rightarrow> bytes option"
  dec_garble_reply :: "bytes \<Rightarrow> garble_ipfs_reply option"
  enc_strip_request :: "garble_and_strip_request \<Rightarrow> bytes option"
  dec_strip_reply :: "bytes \<Rightarrow> garble_and_strip_reply option"

text \<open>
  The randomness: the chain's source at the current block, the decoding of its hash as 32 bytes, and
  the ChaCha generator with the two operations of the \<open>rand\<close> crate that the pallet uses.
\<close>

record 'r randomness =
  my_randomness :: "bytes \<Rightarrow> bytes"
  decode_seed :: "bytes \<Rightarrow> bytes option"
  from_seed :: "bytes \<Rightarrow> 'r"
  shuffle :: "bytes \<Rightarrow> 'r \<Rightarrow> bytes \<times> 'r"
  gen_range :: "u8 \<Rightarrow> u8 \<Rightarrow> 'r \<Rightarrow> u8 \<times> 'r"

section \<open>The on-chain operations\<close>

definition garble_validate_unsigned :: "'source \<Rightarrow> 'call \<Rightarrow> transaction_validity" where
  "garble_validate_unsigned source call = InvalidCall"

definition set_nonce :: "u64 \<Rightarrow> ('acct, 'z) garble_scheme \<Rightarrow> ('acct, 'z) garble_scheme" where
  "set_nonce n s = s\<lparr>nonce := n\<rparr>"

definition get_and_increment_nonce ::
  "garble_codec \<Rightarrow> (('acct, 'z) garble_scheme, 'e, bytes) rust" where
  [pallet_defs]: "get_and_increment_nonce cd =
     rbind (gets nonce) (\<lambda>n.
     rbind (modify (set_nonce (n + 1))) (\<lambda>_.
     ret (enc_nonce cd n)))"

definition garble_derived_key :: "bytes \<Rightarrow> bytes" where
  "garble_derived_key encoded_bn = GARB_ONCHAIN_TX_KEY @ ascii ''/'' @ encoded_bn"

definition append_or_replace_skcd_hash ::
  "garble_codec \<Rightarrow> garble_grpc_kind \<Rightarrow> bytes option \<Rightarrow> bytes option \<Rightarrow> bytes option \<Rightarrow> bytes option \<Rightarrow>
   bytes option \<Rightarrow> bytes option \<Rightarrow> (('acct, 'z) system_scheme, 'e, unit) rust" where
  [pallet_defs]: "append_or_replace_skcd_hash cd grpc_kind skcd_cid message_skcd pinpad_skcd tx_msg msg pin =
     offchain_index_set (garble_derived_key (enc_block_number_default_g cd))
       (enc_garble_job cd \<lparr>g_block_number = 1, g_grpc_kind = grpc_kind, skcd_ipfs_cid = skcd_cid,
          message_skcd_ipfs_cid = message_skcd, pinpad_skcd_ipfs_cid = pinpad_skcd, g_tx_msg = tx_msg,
          g_message_digits = msg, g_pinpad_digits = pin\<rparr>)"

text \<open>A log statement whose arguments unwrap the UTF-8 of several byte vectors, in order.\<close>

fun log_utf8 :: "(string \<times> bytes) list \<Rightarrow> ('s, 'e, unit) rust" where
  "log_utf8 [] = ret ()"
| "log_utf8 ((msg, v) # vs) = rbind (expect msg (from_utf8 v)) (\<lambda>_. log_utf8 vs)"

definition garble_standard_signed ::
  "garble_codec \<Rightarrow> bool \<Rightarrow> 'acct origin \<Rightarrow> bytes \<Rightarrow>
   (('acct, 'z) system_scheme, garble_error dispatch_error, unit) rust" where
  [pallet_defs]: "garble_standard_signed cd lg origin skcd_cid =
     rbind (ensure_signed origin) (\<lambda>who.
     rbind (log_info lg (log_utf8 [(''skcd_cid utf8'', skcd_cid)])) (\<lambda>_.
     rbind (append_or_replace_skcd_hash cd GarbleStandard (Some skcd_cid) None None None None None) (\<lambda>_.
     ret ())))"

text \<open>\<open>(0..2).map(|_| rng.gen_range(0..10)).collect()\<close>.\<close>

fun gen_digits :: "'r randomness \<Rightarrow> nat \<Rightarrow> 'r \<Rightarrow> bytes \<times> 'r" where
  "gen_digits rd 0 rng = ([], rng)"
| "gen_digits rd (Suc n) rng =
     (case gen_range rd 0 10 rng of (d, rng') \<Rightarrow>
      case gen_digits rd n rng' of (ds, rng'') \<Rightarrow> (d # ds, rng''))"

definition garble_and_strip_display_circuits_package_signed ::
  "garble_codec \<Rightarrow> 'r randomness \<Rightarrow> bool \<Rightarrow> 'acct origin \<Rightarrow> bytes \<Rightarrow>
   (('acct, 'z) garble_scheme, garble_error dispatch_error, unit) rust" where
  [pallet_defs]: "garble_and_strip_display_circuits_package_signed cd rd lg origin tx_msg =
     rbind (ensure_signed origin) (\<lambda>who.
     rbind (log_info lg (log_utf8 [(''tx_msg utf8'', tx_msg)])) (\<lambda>_.
     rbind (attempt get_display_circuits_package) (\<lambda>package.
     rbind (expect_ok ''display_circuits_package not ready!'' package) (\<lambda>display_circuits_package.
     rbind (log_info lg (log_utf8 [(''message_skcd_cid utf8'', message_skcd_cid display_circuits_package),
       (''pinpad_skcd_cid utf8'', pinpad_skcd_cid display_circuits_package)])) (\<lambda>_.
     rbind (get_and_increment_nonce cd) (\<lambda>nonce.
     rbind (expect ''secure hashes should always be bigger than u32; qed''
       (decode_seed rd (my_randomness rd nonce))) (\<lambda>random_seed.
     let rng = from_seed rd random_seed;
         (pinpad_digits, rng) = shuffle rd (map byte_of [0..<10]) rng;
         (message_digits, rng) = gen_digits rd 2 rng in
     rbind (append_or_replace_skcd_hash cd GarbleAndStrip None
       (Some (message_skcd_cid display_circuits_package)) (Some (pinpad_skcd_cid display_circuits_package))
       (Some tx_msg) (Some message_digits) (Some pinpad_digits)) (\<lambda>_.
     ret ()))))))))"

definition callback_new_garbled_signed ::
  "bool \<Rightarrow> 'acct origin \<Rightarrow> bytes \<Rightarrow>
   (('acct, 'z) system_scheme, garble_error dispatch_error, unit) rust" where
  [pallet_defs]: "callback_new_garbled_signed lg origin pgarbled_cid =
     rbind (ensure_signed origin) (\<lambda>who.
     rbind (log_info lg (log_utf8 [(''skcd_cid utf8'', pgarbled_cid)])) (\<lambda>_.
     rbind (deposit_event (OcwGarbleEvent (NewGarbledIpfsCid pgarbled_cid))) (\<lambda>_.
     ret ())))"

definition pending_insert ::
  "'acct \<Rightarrow> pending_circuits \<Rightarrow> ('acct, 'z) garble_scheme \<Rightarrow> ('acct, 'z) garble_scheme" where
  "pending_insert who v s =
     s\<lparr>account_to_pending_circuits_map := (account_to_pending_circuits_map s)(who := Some v)\<rparr>"

definition get_pending_circuits_for_account :: "('acct, 'z) garble_scheme \<Rightarrow> 'acct \<Rightarrow> pending_circuits" where
  "get_pending_circuits_for_account s who = (case account_to_pending_circuits_map s who of None \<Rightarrow> [] | Some v \<Rightarrow> v)"

text \<open>\<open>usize::try_into::<u32>()\<close>.\<close>

definition u32_try_from :: "nat \<Rightarrow> u32 option" where
  "u32_try_from n = (if n < 2 ^ 32 then Some (word_of_nat n) else None)"

definition callback_new_garbled_and_strip_signed ::
  "bool \<Rightarrow> 'acct origin \<Rightarrow> bytes \<Rightarrow> bytes \<Rightarrow> bytes \<Rightarrow> bytes \<Rightarrow> bytes \<Rightarrow> bytes \<Rightarrow>
   (('acct, 'z) garble_scheme, garble_error dispatch_error, unit) rust" where
  [pallet_defs]: "callback_new_garbled_and_strip_signed lg origin msg_pgarbled msg_packmsg msg_digits
       pin_pgarbled pin_packmsg pin_digits =
     rbind (ensure_signed origin) (\<lambda>who.
     rbind (log_info lg (log_utf8 [(''message_pgarbled_cid utf8'', msg_pgarbled),
       (''message_packmsg_cid utf8'', msg_packmsg), (''pinpad_pgarbled_cid utf8'', pin_pgarbled),
       (''pinpad_packmsg_cid utf8'', pin_packmsg)])) (\<lambda>_.
     rbind (deposit_event (OcwGarbleEvent
       (NewGarbleAndStrippedIpfsCid msg_pgarbled msg_packmsg pin_pgarbled pin_packmsg))) (\<lambda>_.
     rbind (attempt (store_metadata_aux origin msg_pgarbled msg_digits pin_digits)) (\<lambda>stored.
     rbind (expect_ok ''store_metadata_aux failed!'' stored) (\<lambda>_.
     rbind (gets (\<lambda>s. get_pending_circuits_for_account s who)) (\<lambda>current_pending_circuits.
     rbind (unwrap ''message_pgarbled_cid'' (bounded 64 msg_pgarbled)) (\<lambda>mg.
     rbind (unwrap ''message_packmsg_cid'' (bounded 64 msg_packmsg)) (\<lambda>mp.
     rbind (unwrap ''pinpad_pgarbled_cid'' (bounded 64 pin_pgarbled)) (\<lambda>pg.
     rbind (unwrap ''pinpad_packmsg_cid'' (bounded 64 pin_packmsg)) (\<lambda>pp.
     rbind (unwrap ''message_digits.len'' (u32_try_from (length msg_digits))) (\<lambda>nb.
     rbind (unwrap ''try_push'' (try_push MAX_NUMBER_PENDING_CIRCUITS_PER_ACCOUNT current_pending_circuits
       \<lparr>message_pgarbled_cid = mg, message_packmsg_cid = mp, pinpad_pgarbled_cid = pg,
        pinpad_packmsg_cid = pp, message_nb_digits = nb\<rparr>)) (\<lambda>current_pending_circuits.
     rbind (modify (pending_insert who current_pending_circuits)) (\<lambda>_.
     ret ())))))))))))))"

fun garble_dispatch ::
  "garble_codec \<Rightarrow> 'r randomness \<Rightarrow> bool \<Rightarrow> garble_call \<Rightarrow> 'acct origin \<Rightarrow>
   (('acct, 'z) garble_scheme, garble_error dispatch_error, unit) rust" where
  "garble_dispatch cd rd lg (garble_standard_signed_call v) origin = garble_standard_signed cd lg origin v"
| "garble_dispatch cd rd lg (garble_and_strip_display_circuits_package_signed_call tx) origin =
     garble_and_strip_display_circuits_package_signed cd rd lg origin tx"
| "garble_dispatch cd rd lg (callback_new_garbled_signed_call v) origin = callback_new_garbled_signed lg origin v"
| "garble_dispatch cd rd lg (callback_new_garbled_and_strip_signed_call mg mp md pg pp pd) origin =
     callback_new_garbled_and_strip_signed lg origin mg mp md pg pp pd"

section \<open>The off-chain worker\<close>

definition call_grpc_garble ::
  "('w, 'p, 'acct, garble_call, 'c) ocw_env \<Rightarrow> garble_codec \<Rightarrow> bytes \<Rightarrow>
   (('w, 'acct, 'c, 'z) offchain_scheme, garble_error, garble_reply) rust" where
  [pallet_defs]: "call_grpc_garble env cd skcd_cid =
     rbind (expect ''call_grpc_garble from_utf8'' (from_utf8 skcd_cid)) (\<lambda>skcd_cid_str.
     rbind (encode_body (enc_garble_request cd) \<lparr>greq_skcd_cid = skcd_cid_str\<rparr>) (\<lambda>body_bytes.
     rbind (uri_root env ''INTERSTELLAR_URI_ROOT_API_GARBLE'') (\<lambda>uri_root.
     let endpoint = uri_root @ API_ENDPOINT_GARBLE_URL in
     rbind (map_err (\<lambda>_. GHttpFetchingError) (fetch_from_remote_grpc_web (http env) body_bytes endpoint))
       (\<lambda>(resp_bytes, resp_content_type).
     rbind (decode_body (base64_decode env) (dec_garble_reply cd) resp_bytes resp_content_type)
       (\<lambda>(resp, _). ret (GarbleStandardReply resp))))))"

definition call_grpc_garble_and_strip_one ::
  "('w, 'p, 'acct, garble_call, 'c) ocw_env \<Rightarrow> garble_codec \<Rightarrow> bytes \<Rightarrow> bytes \<Rightarrow> bytes \<Rightarrow>
   (('w, 'acct, 'c, 'z) offchain_scheme, garble_error, garble_and_strip_reply) rust" where
  [pallet_defs]: "call_grpc_garble_and_strip_one env cd skcd_cid tx_msg digits =
     rbind (expect ''call_grpc_garble_and_strip from_utf8'' (from_utf8 skcd_cid)) (\<lambda>skcd_cid_str.
     rbind (expect ''call_grpc_garble_and_strip from_utf8'' (from_utf8 tx_msg)) (\<lambda>tx_msg_str.
     rbind (encode_body (enc_strip_request cd) \<lparr>sreq_skcd_cid = skcd_cid_str, sreq_tx_msg = tx_msg_str,
       sreq_digits = Some digits\<rparr>) (\<lambda>body_bytes.
     rbind (uri_root env ''INTERSTELLAR_URI_ROOT_API_GARBLE'') (\<lambda>uri_root.
     let endpoint = uri_root @ API_ENDPOINT_GARBLE_STRIP_URL in
     rbind (map_err (\<lambda>_. GHttpFetchingError) (fetch_from_remote_grpc_web (http env) body_bytes endpoint))
       (\<lambda>(resp_bytes, resp_content_type).
     rbind (decode_body (base64_decode env) (dec_strip_reply cd) resp_bytes resp_content_type)
       (\<lambda>(resp, _). ret resp))))))"

definition call_grpc_garble_and_strip ::
  "('w, 'p, 'acct, garble_call, 'c) ocw_env \<Rightarrow> garble_codec \<Rightarrow> bytes \<Rightarrow> bytes \<Rightarrow> bytes \<Rightarrow> bytes \<Rightarrow> bytes \<Rightarrow>
   (('w, 'acct, 'c, 'z) offchain_scheme, garble_error, garble_reply) rust" where
  [pallet_defs]: "call_grpc_garble_and_strip env cd message_skcd pinpad_skcd tx_msg msg pin =
     rbind (attempt (call_grpc_garble_and_strip_one env cd message_skcd tx_msg msg)) (\<lambda>message_reply.
     rbind (attempt (call_grpc_garble_and_strip_one env cd pinpad_skcd [] pin)) (\<lambda>pinpad_reply.
     rbind (expect_ok ''message_reply failed!'' message_reply) (\<lambda>m.
     rbind (expect_ok ''pinpad_reply failed!'' pinpad_reply) (\<lambda>p.
     ret (GarbleAndStripReply m msg p pin)))))"

text \<open>The call made for one account from the reply.\<close>

fun garble_callback :: "garble_reply \<Rightarrow> garble_call" where
  "garble_callback (GarbleStandardReply reply) = callback_new_garbled_signed_call (grep_pgarbled_cid reply)"
| "garble_callback (GarbleAndStripReply message_reply msg pinpad_reply pin) =
     callback_new_garbled_and_strip_signed_call (srep_pgarbled_cid message_reply) (srep_packmsg_cid message_reply)
       msg (srep_pgarbled_cid pinpad_reply) (srep_packmsg_cid pinpad_reply) pin"

definition garble_finalize_grpc_call ::
  "('w, 'p, 'acct, garble_call, 'c) ocw_env \<Rightarrow> garble_error + garble_reply \<Rightarrow>
   (('w, 'acct, 'c, 'z) offchain_scheme, garble_error, unit) rust" where
  [pallet_defs]: "garble_finalize_grpc_call env result_grpc_call = (case result_grpc_call of
     Inr result_reply \<Rightarrow>
       rbind (send_signed_transaction env GARB_KEY_TYPE (\<lambda>_. ret (garble_callback result_reply))) (\<lambda>_. ret ())
   | Inl err \<Rightarrow> ret ())"

definition garble_run_job ::
  "('w, 'p, 'acct, garble_call, 'c) ocw_env \<Rightarrow> garble_codec \<Rightarrow> garble_indexing_data \<Rightarrow>
   (('w, 'acct, 'c, 'z) offchain_scheme, garble_error, garble_reply) rust" where
  [pallet_defs]: "garble_run_job env cd indexing_data = (case g_grpc_kind indexing_data of
     GarbleStandard \<Rightarrow> rbind (expect ''missing skcd_ipfs_cid'' (skcd_ipfs_cid indexing_data)) (call_grpc_garble env cd)
   | GarbleAndStrip \<Rightarrow>
       rbind (expect ''missing message_skcd_ipfs_cid'' (message_skcd_ipfs_cid indexing_data)) (\<lambda>m.
       rbind (expect ''missing pinpad_skcd_ipfs_cid'' (pinpad_skcd_ipfs_cid indexing_data)) (\<lambda>p.
       rbind (expect ''missing tx_msg'' (g_tx_msg indexing_data)) (\<lambda>tx.
       rbind (expect ''missing message_digits'' (g_message_digits indexing_data)) (\<lambda>md.
       rbind (expect ''missing pinpad_digits'' (g_pinpad_digits indexing_data)) (\<lambda>pd.
       call_grpc_garble_and_strip env cd m p tx md pd))))))"

definition garble_read_job ::
  "garble_codec \<Rightarrow> ('w, 'acct, 'c, 'z) offchain_scheme \<Rightarrow> garble_indexing_data" where
  [pallet_defs]: "garble_read_job cd s =
     option_unwrap_or (result_unwrap_or
       (storage_get (dec_garble_job cd) (garble_derived_key (enc_block_number_default_g cd)) s)
       (Some default_garble_indexing_data)) default_garble_indexing_data"

definition garble_process_if_needed ::
  "('w, 'p, 'acct, garble_call, 'c) ocw_env \<Rightarrow> garble_codec \<Rightarrow>
   (('w, 'acct, 'c, 'z) offchain_scheme, garble_error, unit) rust" where
  [pallet_defs]: "garble_process_if_needed env cd =
     rbind (gets (garble_read_job cd)) (\<lambda>indexing_data.
     if g_block_number indexing_data = 0 then ret ()
     else
       rbind (host (lock_acquire env GARB_LOCK_KEY GARB_LOCK_BLOCK_EXPIRATION GARB_LOCK_TIMEOUT_EXPIRATION)) (\<lambda>locked.
       rbind (if locked then with_guard env GARB_LOCK_KEY
           (rbind (storage_set (garble_derived_key (enc_block_number_default_g cd))
              (enc_garble_job cd default_garble_indexing_data)) (\<lambda>_.
            rbind (attempt (garble_run_job env cd indexing_data)) (\<lambda>result_grpc_call.
            garble_finalize_grpc_call env result_grpc_call)))
         else ret ()) (\<lambda>_.
       ret ())))"

definition garble_offchain_worker ::
  "('w, 'p, 'acct, garble_call, 'c) ocw_env \<Rightarrow> garble_codec \<Rightarrow>
   (('w, 'acct, 'c, 'z) offchain_scheme, garble_error, unit) rust" where
  [pallet_defs]: "garble_offchain_worker env cd =
     rbind (attempt (garble_process_if_needed env cd)) (\<lambda>_. ret ())"

section \<open>The worker honours the job slot contract\<close>

lemma call_grpc_garble_net: "keeps net_only (call_grpc_garble env cd v)"
  unfolding call_grpc_garble_def Let_def
  by (intro net_only_intros quiet_intros quiet_encode_body) (auto intro!: net_only_intros quiet_intros)

lemma call_grpc_garble_and_strip_one_net: "keeps net_only (call_grpc_garble_and_strip_one env cd v tx ds)"
  unfolding call_grpc_garble_and_strip_one_def Let_def
  by (intro net_only_intros quiet_intros quiet_encode_body) (auto intro!: net_only_intros quiet_intros)

lemma call_grpc_garble_and_strip_net: "keeps net_only (call_grpc_garble_and_strip env cd m p tx md pd)"
  unfolding call_grpc_garble_and_strip_def
  by (intro net.kept_rbind keeps_attempt call_grpc_garble_and_strip_one_net net.kept_pure)

lemma garble_run_job_net: "keeps net_only (garble_run_job env cd d)"
  unfolding garble_run_job_def
  by (cases "g_grpc_kind d") (simp_all add: call_grpc_garble_and_strip_net net.kept_rbind
      net.kept_pure call_grpc_garble_net)

lemma garble_finalizes: "finalizes env GARB_KEY_TYPE (garble_finalize_grpc_call env r)"
  unfolding garble_finalize_grpc_call_def
  by (cases r) (simp add: finalizes_def, simp only: sum.case, blast intro: finalizes_send)

definition garble_pending :: "garble_codec \<Rightarrow> ('w, 'acct, 'c, 'z) offchain_scheme \<Rightarrow> bool" where
  "garble_pending cd s \<longleftrightarrow> g_block_number (garble_read_job cd s) \<noteq> 0"

definition garble_lock_free ::
  "('w, 'p, 'acct, garble_call, 'c) ocw_env \<Rightarrow> ('w, 'acct, 'c, 'z) offchain_scheme \<Rightarrow> bool" where
  "garble_lock_free env s \<longleftrightarrow> fst (lock_acquire env GARB_LOCK_KEY GARB_LOCK_BLOCK_EXPIRATION
     GARB_LOCK_TIMEOUT_EXPIRATION (world s))"

definition garble_idle_job :: "garble_codec \<Rightarrow> bytes" where
  "garble_idle_job cd = enc_garble_job cd default_garble_indexing_data"

definition garble_job_key :: "garble_codec \<Rightarrow> bytes" where
  "garble_job_key cd = garble_derived_key (enc_block_number_default_g cd)"

definition garble_locked_part ::
  "('w, 'p, 'acct, garble_call, 'c) ocw_env \<Rightarrow> garble_codec \<Rightarrow> garble_indexing_data \<Rightarrow>
   (('w, 'acct, 'c, 'z) offchain_scheme, garble_error, unit) rust" where
  "garble_locked_part env cd d =
     rbind (modify (put_local (garble_job_key cd) (garble_idle_job cd))) (\<lambda>_.
     rbind (attempt (garble_run_job env cd d)) (garble_finalize_grpc_call env))"

lemma garble_process_eq:
  "garble_process_if_needed env cd s =
    run_slot env GARB_LOCK_KEY GARB_LOCK_BLOCK_EXPIRATION GARB_LOCK_TIMEOUT_EXPIRATION (garble_pending cd)
      (\<lambda>s. garble_locked_part env cd (garble_read_job cd s)) s"
  by (simp add: garble_process_if_needed_def garble_pending_def garble_locked_part_def run_slot_def
      garble_job_key_def garble_idle_job_def storage_set_eq split: prod.splits)

lemma finalizes_storage: "finalizes env kt m \<Longrightarrow> keeps same_storage m"
  unfolding keeps_def finalizes_def same_storage_def by (metis snd_conv submit_all_simps(3))

interpretation garble_slot: job_worker
  "dec_garble_job cd (garble_idle_job cd) = Some default_garble_indexing_data"
  "garble_job_key cd" "garble_idle_job cd" "garble_pending cd" "garble_lock_free env"
  "garble_process_if_needed env cd"
  for env cd
  unfolding garble_lock_free_def [abs_def]
  by (rule run_slot_contract [OF garble_process_eq garble_locked_part_def],
      intro storage.kept_rbind keeps_attempt keeps_same_storage garble_run_job_net
        finalizes_storage [OF garble_finalizes])
    (simp_all add: garble_pending_def garble_read_job_def storage_get_def garble_job_key_def
      default_garble_indexing_data_def)

lemma garble_process_exit:
  "garble_process_if_needed env cd s = (r, t) \<Longrightarrow>
   run_exit env GARB_KEY_TYPE (garble_job_key cd) (garble_idle_job cd) s r t"
  unfolding garble_process_eq
  by (rule run_slot_exit [OF garble_locked_part_def garble_run_job_net garble_finalizes])

lemma garble_offchain_worker_eq: "garble_offchain_worker env cd = garble_process_if_needed env cd"
proof
  fix s
  obtain r t where "garble_process_if_needed env cd s = (r, t)" by fastforce
  with garble_process_exit [OF this] show "garble_offchain_worker env cd s = garble_process_if_needed env cd s"
    by (cases r) (simp_all add: garble_offchain_worker_def rbind_def attempt_def run_exit_def)
qed

section \<open>What the calls leave\<close>

interpretation standard_call: signed_call "\<lambda>origin. garble_standard_signed cd lg origin v" for cd lg v
  by (rule ensure_signed_first, unfold garble_standard_signed_def) (rule refl)

interpretation strip_call: signed_call
  "\<lambda>origin. garble_and_strip_display_circuits_package_signed cd rd lg origin tx" for cd rd lg tx
  by (rule ensure_signed_first, unfold garble_and_strip_display_circuits_package_signed_def) (rule refl)

interpretation garbled_callback: signed_call "\<lambda>origin. callback_new_garbled_signed lg origin v" for lg v
  by (rule ensure_signed_first, unfold callback_new_garbled_signed_def) (rule refl)

interpretation strip_callback: signed_call
  "\<lambda>origin. callback_new_garbled_and_strip_signed lg origin mg mp md pg pp pd" for lg mg mp md pg pp pd
  by (rule ensure_signed_first, unfold callback_new_garbled_and_strip_signed_def) (rule refl)

interpretation pending_map: storage_map account_to_pending_circuits_map pending_insert
  by unfold_locales (simp add: pending_insert_def)

lemma pending_insert_frame [simp]:
  "events (pending_insert k v s) = events s"
  "offchain_index_writes (pending_insert k v s) = offchain_index_writes s"
  "circuit_server_metadata_map (pending_insert k v s) = circuit_server_metadata_map s"
  "display_skcd_package_value (pending_insert k v s) = display_skcd_package_value s"
  "nonce (pending_insert k v s) = nonce s"
  by (simp_all add: pending_insert_def)

lemma set_nonce_frame [simp]:
  "events (set_nonce n s) = events s"
  "offchain_index_writes (set_nonce n s) = offchain_index_writes s"
  "circuit_server_metadata_map (set_nonce n s) = circuit_server_metadata_map s"
  "display_skcd_package_value (set_nonce n s) = display_skcd_package_value s"
  "account_to_pending_circuits_map (set_nonce n s) = account_to_pending_circuits_map s"
  "nonce (set_nonce n s) = n"
  by (simp_all add: set_nonce_def)

lemma quiet_log_utf8 [quiet_intros]: "quiet (log_utf8 vs)"
  by (induction vs rule: log_utf8.induct) (simp_all add: quiet_intros)

lemma log_utf8_valid: "\<forall>(msg, v) \<in> set vs. valid_utf8 v \<Longrightarrow> log_utf8 vs = ret ()"
  by (induction vs rule: log_utf8.induct) (simp_all add: from_utf8_valid)

end
