(* ===== verification/Garble_Calls.thy ===== *)
theory Garble_Calls
  imports Ocw_Garble
begin

text \<open>
  What the calls of ocw-garble do: the exact effect of a request for display circuits and of its callback,
  the pending lists and the nonces under any calls, and under which account the digits are filed. At the
  end a codec, a source of randomness and a state for concrete runs.
\<close>

section \<open>The effect of the calls\<close>

subsection \<open>A request for display circuits\<close>

text \<open>What the \<open>rand\<close> crate promises: a shuffle permutes, a range is not left.\<close>

definition rand_ok :: "'r randomness \<Rightarrow> bool" where
  "rand_ok rd \<longleftrightarrow> (\<forall>v r. mset (fst (shuffle rd v r)) = mset v)
     \<and> (\<forall>l h r. l < h \<longrightarrow> l \<le> fst (gen_range rd l h r) \<and> fst (gen_range rd l h r) < h)"

lemma gen_digits_range:
  assumes "rand_ok rd"
  shows "length (fst (gen_digits rd n r)) = n \<and> (\<forall>d \<in> set (fst (gen_digits rd n r)). digit d)"
proof (induction n arbitrary: r)
  case (Suc n)
  obtain d r' where d: "gen_range rd 0 10 r = (d, r')" by fastforce
  from assms have "fst (gen_range rd 0 10 r) < 10" unfolding rand_ok_def by simp
  with d have "d < 10" by simp
  then have "digit d" by (simp add: digit_def word_less_nat_alt)
  with Suc [of r'] d show ?case by (auto split: prod.splits)
qed simp

text \<open>The digits drawn for a nonce, if the seed decodes.\<close>

definition drawn_digits :: "garble_codec \<Rightarrow> 'r randomness \<Rightarrow> u64 \<Rightarrow> (bytes \<times> bytes) option" where
  "drawn_digits cd rd n = (case decode_seed rd (my_randomness rd (enc_nonce cd n)) of
     None \<Rightarrow> None
   | Some seed \<Rightarrow> (case shuffle rd (map byte_of [0..<10]) (from_seed rd seed) of
       (pin, rng) \<Rightarrow> Some (fst (gen_digits rd 2 rng), pin)))"

lemma drawn_digits_ok:
  assumes "rand_ok rd" "drawn_digits cd rd n = Some (msg, pin)"
  shows "is_pinpad pin" "length msg = 2" "\<forall>d \<in> set msg. digit d"
proof -
  from assms(2) obtain seed rng where s: "shuffle rd (map byte_of [0..<10]) (from_seed rd seed) = (pin, rng)"
    "msg = fst (gen_digits rd 2 rng)"
    by (auto simp: drawn_digits_def split: option.splits prod.splits)
  from assms(1) have "mset (fst (shuffle rd (map byte_of [0..<10]) (from_seed rd seed))) = mset (map byte_of [0..<10])"
    by (simp add: rand_ok_def)
  with s show "is_pinpad pin" by (simp add: is_pinpad_def)
  from s gen_digits_range [OF assms(1), of 2 rng] show "length msg = 2" "\<forall>d \<in> set msg. digit d" by auto
qed

definition strip_job :: "bytes \<Rightarrow> bytes \<Rightarrow> bytes \<Rightarrow> bytes \<Rightarrow> bytes \<Rightarrow> garble_indexing_data" where
  "strip_job m p tx msg pin = \<lparr>g_block_number = 1, g_grpc_kind = GarbleAndStrip, skcd_ipfs_cid = None,
     message_skcd_ipfs_cid = Some m, pinpad_skcd_ipfs_cid = Some p, g_tx_msg = Some tx,
     g_message_digits = Some msg, g_pinpad_digits = Some pin\<rparr>"

definition package_ready :: "display_skcd_package \<Rightarrow> bool" where
  "package_ready p \<longleftrightarrow> message_skcd_server_metadata_nb_digits p \<noteq> 0 \<and> pinpad_skcd_server_metadata_nb_digits p \<noteq> 0"

lemma get_display_circuits_package_eq:
  "get_display_circuits_package s = (if package_ready (display_skcd_package_value s)
     then Ret (display_skcd_package_value s) else Err DisplaySkcdPackageValueError, s)"
  by (simp add: get_display_circuits_package_def package_ready_def)

text \<open>What the log statements of a request demand when they are evaluated.\<close>

definition request_log_safe :: "bool \<Rightarrow> bytes \<Rightarrow> display_skcd_package \<Rightarrow> bool" where
  "request_log_safe lg tx p \<longleftrightarrow> (lg \<longrightarrow> valid_utf8 tx \<and> valid_utf8 (message_skcd_cid p) \<and> valid_utf8 (pinpad_skcd_cid p))"

lemma strip_request_eq:
  assumes "package_ready (display_skcd_package_value s)" "request_log_safe lg tx (display_skcd_package_value s)"
  shows "garble_and_strip_display_circuits_package_signed cd rd lg (SignedOrigin who) tx s =
    (case drawn_digits cd rd (nonce s) of
       None \<Rightarrow> (Panic (Expect ''secure hashes should always be bigger than u32; qed''), set_nonce (nonce s + 1) s)
     | Some (msg, pin) \<Rightarrow> (Ret (), (set_nonce (nonce s + 1) s)
         \<lparr>offchain_index_writes := offchain_index_writes s @ [(garble_job_key cd, enc_garble_job cd
            (strip_job (message_skcd_cid (display_skcd_package_value s)) (pinpad_skcd_cid (display_skcd_package_value s))
               tx msg pin))]\<rparr>))"
proof -
  have l: "log_info lg (log_utf8 [(''tx_msg utf8'', tx)]) = ret ()"
    "log_info lg (log_utf8 [(''message_skcd_cid utf8'', message_skcd_cid (display_skcd_package_value s)),
       (''pinpad_skcd_cid utf8'', pinpad_skcd_cid (display_skcd_package_value s))]) = ret ()"
    using assms(2) by (cases lg; simp add: request_log_safe_def from_utf8_valid)+
  have a: "attempt get_display_circuits_package s = (Ret (Inr (display_skcd_package_value s)), s)"
    using assms(1) by (intro attempt_Ret) (simp add: get_display_circuits_package_eq)
  show ?thesis
    unfolding garble_and_strip_display_circuits_package_signed_def ensure_signed_Signed rbind_ret l
      rbind_Ret [of "attempt get_display_circuits_package", OF a] expect_ok_Inr drawn_digits_def
    by (cases "decode_seed rd (my_randomness rd (enc_nonce cd (nonce s)))")
      (simp_all add: get_and_increment_nonce_def rbind_assoc append_or_replace_skcd_hash_def strip_job_def
        garble_job_key_def split: prod.splits)
qed

lemma strip_request_not_ready:
  assumes "\<not> package_ready (display_skcd_package_value s)" "lg \<longrightarrow> valid_utf8 tx"
  shows "garble_and_strip_display_circuits_package_signed cd rd lg (SignedOrigin who) tx s =
    (Panic (Expect ''display_circuits_package not ready!''), s)"
proof -
  have l: "log_info lg (log_utf8 [(''tx_msg utf8'', tx)]) = ret ()"
    using assms(2) by (cases lg; simp add: from_utf8_valid)
  have a: "attempt get_display_circuits_package s = (Ret (Inl DisplaySkcdPackageValueError), s)"
    using assms(1) by (intro attempt_Err) (simp add: get_display_circuits_package_eq)
  show ?thesis
    unfolding garble_and_strip_display_circuits_package_signed_def ensure_signed_Signed rbind_ret l
      rbind_Ret [of "attempt get_display_circuits_package", OF a]
    by simp
qed

subsection \<open>The callback\<close>

text \<open>The pending circuits that a callback appends.\<close>

definition stripped_package :: "bytes \<Rightarrow> bytes \<Rightarrow> bytes \<Rightarrow> bytes \<Rightarrow> bytes \<Rightarrow> display_stripped_circuits_package" where
  "stripped_package mg mp md pg pp = \<lparr>message_pgarbled_cid = mg, message_packmsg_cid = mp,
     pinpad_pgarbled_cid = pg, pinpad_packmsg_cid = pp, message_nb_digits = word_of_nat (length md)\<rparr>"

text \<open>The two events and the metadata, before the pending list is looked at.\<close>

definition callback_stored ::
  "'acct \<Rightarrow> bytes \<Rightarrow> bytes \<Rightarrow> bytes \<Rightarrow> bytes \<Rightarrow> bytes \<Rightarrow> bytes \<Rightarrow> ('acct, 'z) garble_scheme \<Rightarrow> ('acct, 'z) garble_scheme" where
  "callback_stored who mg mp md pg pp pd s =
     metadata_insert (who, mg) \<lparr>message_digits = md, pinpad_digits = pd\<rparr>
       (deposited (TxValidationEvent (DEBUGNewDigitsSet md pd))
         (deposited (OcwGarbleEvent (NewGarbleAndStrippedIpfsCid mg mp pg pp)) s))"

lemma callback_stored_frame [simp]:
  "account_to_pending_circuits_map (callback_stored who mg mp md pg pp pd s) = account_to_pending_circuits_map s"
  "nonce (callback_stored who mg mp md pg pp pd s) = nonce s"
  "display_skcd_package_value (callback_stored who mg mp md pg pp pd s) = display_skcd_package_value s"
  "offchain_index_writes (callback_stored who mg mp md pg pp pd s) = offchain_index_writes s"
  "circuit_server_metadata_map (callback_stored who mg mp md pg pp pd s) =
     (circuit_server_metadata_map s)((who, mg) := Some \<lparr>message_digits = md, pinpad_digits = pd\<rparr>)"
  by (simp_all add: callback_stored_def metadata_insert_def)

definition callback_args_ok :: "bytes \<Rightarrow> bytes \<Rightarrow> bytes \<Rightarrow> bytes \<Rightarrow> bytes \<Rightarrow> bytes \<Rightarrow> bool" where
  "callback_args_ok mg mp md pg pp pd \<longleftrightarrow> length mg \<le> 64 \<and> length mp \<le> 64 \<and> length pg \<le> 64 \<and> length pp \<le> 64
     \<and> length md \<le> 10 \<and> length pd \<le> 10"

definition callback_log_safe :: "bool \<Rightarrow> bytes \<Rightarrow> bytes \<Rightarrow> bytes \<Rightarrow> bytes \<Rightarrow> bool" where
  "callback_log_safe lg mg mp pg pp \<longleftrightarrow>
     (lg \<longrightarrow> valid_utf8 mg \<and> valid_utf8 mp \<and> valid_utf8 pg \<and> valid_utf8 pp)"

lemma pending_of_callback_stored [simp]:
  "get_pending_circuits_for_account (callback_stored who mg mp md pg pp pd s) a = get_pending_circuits_for_account s a"
  by (simp add: get_pending_circuits_for_account_def)

lemma strip_callback_eq:
  assumes "callback_args_ok mg mp md pg pp pd" "callback_log_safe lg mg mp pg pp"
  shows "callback_new_garbled_and_strip_signed lg (SignedOrigin who) mg mp md pg pp pd s =
    (let t = callback_stored who mg mp md pg pp pd s;
         pending = get_pending_circuits_for_account s who
     in if length pending < 16
        then (Ret (), pending_insert who (pending @ [stripped_package mg mp md pg pp]) t)
        else (Panic (Unwrap ''try_push''), t))"
proof -
  have l: "log_info lg (log_utf8 [(''message_pgarbled_cid utf8'', mg), (''message_packmsg_cid utf8'', mp),
      (''pinpad_pgarbled_cid utf8'', pg), (''pinpad_packmsg_cid utf8'', pp)]) = ret ()"
    using assms(2) by (cases lg; simp add: callback_log_safe_def from_utf8_valid)
  have b: "length mg \<le> 64" "length mp \<le> 64" "length pg \<le> 64" "length pp \<le> 64" "length md \<le> 10" "length pd \<le> 10"
    using assms(1) by (simp_all add: callback_args_ok_def)
  have u: "u32_try_from (length md) = Some (word_of_nat (length md))"
    using b(5) by (simp add: u32_try_from_def)
  have st: "attempt (store_metadata_aux (SignedOrigin who) mg md pd)
      (deposited (OcwGarbleEvent (NewGarbleAndStrippedIpfsCid mg mp pg pp)) s) =
    (Ret (Inr ()), callback_stored who mg mp md pg pp pd s)"
    using store_metadata_ok [OF b(1,5,6), of who "deposited (OcwGarbleEvent (NewGarbleAndStrippedIpfsCid mg mp pg pp)) s"]
    by (intro attempt_Ret) (simp add: store_metadata_def callback_stored_def)
  show ?thesis
    unfolding callback_new_garbled_and_strip_signed_def ensure_signed_Signed rbind_ret l rbind_deposit
      rbind_Ret [of "attempt (store_metadata_aux (SignedOrigin who) mg md pd)", OF st]
    using b u by (simp add: try_push_def MAX_NUMBER_PENDING_CIRCUITS_PER_ACCOUNT_def stripped_package_def Let_def)
qed

text \<open>The bounds of a pending entry.\<close>

definition stripped_ok :: "display_stripped_circuits_package \<Rightarrow> bool" where
  "stripped_ok x \<longleftrightarrow> length (message_pgarbled_cid x) \<le> 64 \<and> length (message_packmsg_cid x) \<le> 64
     \<and> length (pinpad_pgarbled_cid x) \<le> 64 \<and> length (pinpad_packmsg_cid x) \<le> 64
     \<and> unat (message_nb_digits x) \<le> 10"

lemma digits_count_bound: "n \<le> 10 \<Longrightarrow> unat (word_of_nat n :: u32) \<le> 10"
  by (simp add: unat_of_nat)

text \<open>Every exit of a callback, whatever the arguments.\<close>

lemma strip_callback_cases:
  assumes "callback_new_garbled_and_strip_signed lg (SignedOrigin who) mg mp md pg pp pd s = (r, t)"
  obtains (stopped) p where "r = Panic p" "circuit_server_metadata_map t = circuit_server_metadata_map s"
      "account_to_pending_circuits_map t = account_to_pending_circuits_map s"
  | (unlisted) p where "r = Panic p" "length mg \<le> 64" "t = callback_stored who mg mp md pg pp pd s"
  | (listed) "r = Ret ()" "callback_args_ok mg mp md pg pp pd" "length (get_pending_circuits_for_account s who) < 16"
      "t = pending_insert who (get_pending_circuits_for_account s who @ [stripped_package mg mp md pg pp])
         (callback_stored who mg mp md pg pp pd s)"
proof -
  define Q :: "(garble_error dispatch_error, unit) exit \<times> ('a, 'b) garble_scheme \<Rightarrow> bool" where
    "Q = (\<lambda>(r, t).
      (\<exists>p. r = Panic p) \<and> circuit_server_metadata_map t = circuit_server_metadata_map s
        \<and> account_to_pending_circuits_map t = account_to_pending_circuits_map s
    \<or> (\<exists>p. r = Panic p) \<and> length mg \<le> 64 \<and> t = callback_stored who mg mp md pg pp pd s
    \<or> r = Ret () \<and> callback_args_ok mg mp md pg pp pd \<and> length (get_pending_circuits_for_account s who) < 16
        \<and> t = pending_insert who (get_pending_circuits_for_account s who @ [stripped_package mg mp md pg pp])
           (callback_stored who mg mp md pg pp pd s))"
  let ?e = "OcwGarbleEvent (NewGarbleAndStrippedIpfsCid mg mp pg pp)"
  have store: "Q (rbind (attempt (store_metadata_aux (SignedOrigin who) mg md pd)) F (deposited ?e s))"
    if F: "length mg \<le> 64 \<Longrightarrow> length md \<le> 10 \<Longrightarrow> length pd \<le> 10 \<Longrightarrow> Q (F (Inr ()) (callback_stored who mg mp md pg pp pd s))" for F
  proof (cases rule: store_metadata_exit_cases [of "SignedOrigin who" mg md pd "deposited ?e s"])
    case not_signed
    then show ?thesis by (simp add: signed_by_def)
  next
    case stored
    then have "store_metadata_aux (SignedOrigin who) mg md pd (deposited ?e s) = (Ret (), callback_stored who mg mp md pg pp pd s)"
      by (simp add: store_metadata_def callback_stored_def)
    with stored(2-4) show ?thesis
      by (subst rbind_Ret [of "attempt (store_metadata_aux (SignedOrigin who) mg md pd)", OF attempt_Ret]) (auto intro: F)
  next
    case (too_long w site)
    then show ?thesis
      by (subst rbind_Panic [of "attempt (store_metadata_aux (SignedOrigin who) mg md pd)", OF attempt_Panic])
        (auto simp: store_metadata_def Q_def)
  qed
  have "Q (callback_new_garbled_and_strip_signed lg (SignedOrigin who) mg mp md pg pp pd s)"
    unfolding callback_new_garbled_and_strip_signed_def ensure_signed_Signed rbind_ret
    apply (rule quiet_step [of _ _ Q], intro quiet_intros)
     apply (unfold rbind_deposit, rule store)
     apply (unfold expect_ok_Inr rbind_ret rbind_gets)
     apply (rule quiet_step [of _ _ Q], intro quiet_intros)+
    apply (auto simp: Q_def unwrap_eq_Ret MAX_NUMBER_PENDING_CIRCUITS_PER_ACCOUNT_def callback_args_ok_def stripped_package_def
        bounded_eq_Some u32_try_from_def try_push_def split: if_splits)
    done
  with assms that show thesis by (auto simp: Q_def)
qed

text \<open>So a callback appends one entry for its signer or leaves the lists alone.\<close>

lemma strip_callback_pending:
  assumes "callback_new_garbled_and_strip_signed lg (SignedOrigin who) mg mp md pg pp pd s = (r, t)"
  shows "account_to_pending_circuits_map t = account_to_pending_circuits_map s \<and> r \<noteq> Ret ()
    \<or> r = Ret () \<and> length (get_pending_circuits_for_account s who) < 16
      \<and> (\<exists>x. stripped_ok x \<and> account_to_pending_circuits_map t =
          (account_to_pending_circuits_map s)(who := Some (get_pending_circuits_for_account s who @ [x])))"
proof (rule strip_callback_cases [OF assms])
  assume "callback_args_ok mg mp md pg pp pd"
  then have "stripped_ok (stripped_package mg mp md pg pp)"
    by (simp add: stripped_ok_def stripped_package_def callback_args_ok_def digits_count_bound)
  then show ?thesis if "r = Ret ()" "length (get_pending_circuits_for_account s who) < 16"
    "t = pending_insert who (get_pending_circuits_for_account s who @ [stripped_package mg mp md pg pp]) (callback_stored who mg mp md pg pp pd s)"
    using that by (auto simp: pending_insert_def)
qed simp_all

subsection \<open>The pending lists under any calls\<close>

definition pending_kept :: "('acct, 'z) garble_scheme \<Rightarrow> ('acct, 'z) garble_scheme \<Rightarrow> bool" where
  "pending_kept s t \<longleftrightarrow> account_to_pending_circuits_map t = account_to_pending_circuits_map s"

lemma pending_kept_preorder: "preorder_rel pending_kept"
  by (auto simp: pending_kept_def preorder_rel_def)

interpretation pending_rel: kept_relation pending_kept
  by (rule kept_relation.intro) (rule pending_kept_preorder)

lemmas pending_kept_intros = pending_rel.kept_rbind pending_rel.kept_quiet
  pending_rel.kept_log keeps_attempt

lemma other_calls_keep_pending:
  "keeps pending_kept (garble_standard_signed cd lg origin v)"
  "keeps pending_kept (callback_new_garbled_signed lg origin v)"
  "keeps pending_kept (garble_and_strip_display_circuits_package_signed cd rd lg origin tx)"
proof -
  have w: "keeps pending_kept (offchain_index_set k v)" for k v
    unfolding offchain_index_set_def by (rule keeps_modify) (simp add: pending_kept_def)
  have d: "keeps pending_kept (deposit_event e)" for e
    unfolding deposit_event_def by (rule keeps_modify) (simp add: pending_kept_def)
  have n: "keeps pending_kept (get_and_increment_nonce cd)"
    unfolding get_and_increment_nonce_def
    by (intro pending_kept_intros quiet_intros keeps_modify) (simp add: pending_kept_def)
  have g: "keeps pending_kept get_display_circuits_package"
    by (simp add: keeps_def pending_kept_def get_display_circuits_package_eq)
  show "keeps pending_kept (garble_standard_signed cd lg origin v)"
    unfolding garble_standard_signed_def append_or_replace_skcd_hash_def
    by (intro pending_kept_intros(1) pending_rel.kept_signed w pending_kept_intros(2) quiet_intros)
  show "keeps pending_kept (callback_new_garbled_signed lg origin v)"
    unfolding callback_new_garbled_signed_def
    by (intro pending_kept_intros(1) pending_rel.kept_signed d pending_kept_intros(2) quiet_intros)
  show "keeps pending_kept (garble_and_strip_display_circuits_package_signed cd rd lg origin tx)"
    unfolding garble_and_strip_display_circuits_package_signed_def append_or_replace_skcd_hash_def Let_def case_prod_beta
    by (intro pending_kept_intros(1) pending_rel.kept_signed w n keeps_attempt g
        pending_kept_intros(2) quiet_intros)
qed

text \<open>A call may only append, and only below the bound.\<close>

definition pending_grows :: "('acct, 'z) garble_scheme \<Rightarrow> ('acct, 'z) garble_scheme \<Rightarrow> bool" where
  "pending_grows s t \<longleftrightarrow> (\<forall>a. (\<exists>xs. get_pending_circuits_for_account t a = get_pending_circuits_for_account s a @ xs)
     \<and> length (get_pending_circuits_for_account t a) \<le> max 16 (length (get_pending_circuits_for_account s a)))"

lemma pending_grows_preorder: "preorder_rel pending_grows"
  unfolding preorder_rel_def
proof (intro conjI allI impI)
  fix s t u :: "('a, 'b) garble_scheme"
  assume st: "pending_grows s t" and tu: "pending_grows t u"
  show "pending_grows s u"
    unfolding pending_grows_def
  proof
    fix a
    from st obtain xs where "get_pending_circuits_for_account t a = get_pending_circuits_for_account s a @ xs"
      "length (get_pending_circuits_for_account t a) \<le> max 16 (length (get_pending_circuits_for_account s a))"
      unfolding pending_grows_def by blast
    moreover from tu obtain ys where "get_pending_circuits_for_account u a = get_pending_circuits_for_account t a @ ys"
      "length (get_pending_circuits_for_account u a) \<le> max 16 (length (get_pending_circuits_for_account t a))"
      unfolding pending_grows_def by blast
    ultimately show "(\<exists>zs. get_pending_circuits_for_account u a = get_pending_circuits_for_account s a @ zs)
        \<and> length (get_pending_circuits_for_account u a) \<le> max 16 (length (get_pending_circuits_for_account s a))"
      by (intro conjI exI [of _ "xs @ ys"]) (simp, linarith)
  qed
qed (simp add: pending_grows_def)

interpretation grows: kept_relation pending_grows
  by (rule kept_relation.intro) (rule pending_grows_preorder)

lemma pending_kept_grows: "pending_kept s t \<Longrightarrow> pending_grows s t"
  by (simp add: pending_kept_def pending_grows_def get_pending_circuits_for_account_def)

lemma dispatch_grows: "pending_grows s (snd (garble_dispatch cd rd lg call origin s))"
proof (cases call)
  case (callback_new_garbled_and_strip_signed_call mg mp md pg pp pd)
  obtain r t where c: "callback_new_garbled_and_strip_signed lg origin mg mp md pg pp pd s = (r, t)" by fastforce
  show ?thesis
  proof (cases "signed_by origin")
    case None
    show ?thesis using callback_new_garbled_and_strip_signed_call strip_callback.rejects [OF None, of lg mg mp md pg pp pd s]
        pending_kept_grows [of s s]
      by (simp add: pending_kept_def)
  next
    case (Some who)
    then have o: "origin = SignedOrigin who" by (cases origin) (simp_all add: signed_by_def)
    show ?thesis
      using strip_callback_pending [OF c [unfolded o]] callback_new_garbled_and_strip_signed_call c pending_kept_grows [of s t]
      by (auto simp: pending_grows_def pending_kept_def get_pending_circuits_for_account_def)
  qed
qed (simp_all add: pending_kept_grows keepsD [OF other_calls_keep_pending(1)]
    keepsD [OF other_calls_keep_pending(2)] keepsD [OF other_calls_keep_pending(3)])

text \<open>Any calls of the pallet, each at its own block's randomness and log level.\<close>

fun garble_run_calls ::
  "garble_codec \<Rightarrow> ('r randomness \<times> bool \<times> 'acct origin \<times> garble_call) list \<Rightarrow>
   ('acct, 'z) garble_scheme \<Rightarrow> ('acct, 'z) garble_scheme" where
  "garble_run_calls cd [] s = s"
| "garble_run_calls cd ((rd, lg, origin, call) # cs) s =
     garble_run_calls cd cs (snd (garble_dispatch cd rd lg call origin s))"

lemma run_calls_grows: "pending_grows s (garble_run_calls cd cs s)"
proof (induction cs arbitrary: s)
  case (Cons c cs)
  obtain rd lg origin call where c: "c = (rd, lg, origin, call)" by (cases c) auto
  from grows.kept_trans [OF dispatch_grows Cons] show ?case by (simp add: c)
next
  case Nil
  from pending_grows_preorder show ?case unfolding preorder_rel_def garble_run_calls.simps by blast
qed

section \<open>Properties of the calls\<close>

text \<open>C14: A request for display circuits by a signed account, once the reference package is complete, draws a
  pinpad that shows each digit once and a two digit message from the randomness of the current nonce, leaves
  exactly one job with them and both circuit identifiers, and advances the nonce by one, wrapping at 64 bits;
  it changes nothing else.\<close>

theorem strip_request_draws_digits:
  assumes "rand_ok rd" "package_ready (display_skcd_package_value s)"
    and "request_log_safe lg tx (display_skcd_package_value s)"
    and "drawn_digits cd rd (nonce s) = Some (msg, pin)"
  shows "garble_and_strip_display_circuits_package_signed cd rd lg (SignedOrigin who) tx s =
      (Ret (), s\<lparr>offchain_index_writes := offchain_index_writes s @ [(garble_job_key cd, enc_garble_job cd
         (strip_job (message_skcd_cid (display_skcd_package_value s)) (pinpad_skcd_cid (display_skcd_package_value s))
            tx msg pin))], nonce := nonce s + 1\<rparr>)
    \<and> mset pin = mset (map byte_of [0..<10]) \<and> length msg = 2 \<and> (\<forall>d \<in> set msg. unat d < 10)"
  using drawn_digits_ok [OF assms(1,4)] assms(4)
  by (simp add: strip_request_eq [OF assms(2,3)] set_nonce_def is_pinpad_def digit_def)

text \<open>Before the reference package is complete a request for display circuits panics and changes nothing,
  in particular it does not consume a nonce; completeness means that both digit counts are non zero.\<close>

lemma strip_request_needs_package:
  assumes "message_skcd_server_metadata_nb_digits (display_skcd_package_value s) = 0
      \<or> pinpad_skcd_server_metadata_nb_digits (display_skcd_package_value s) = 0"
    and "lg \<longrightarrow> valid_utf8 tx"
  shows "garble_and_strip_display_circuits_package_signed cd rd lg (SignedOrigin who) tx s =
    (Panic (Expect ''display_circuits_package not ready!''), s)"
  using assms by (intro strip_request_not_ready) (auto simp: package_ready_def)

text \<open>A callback within the bounds stores the digits under its signer and the message circuit, deposits
  the two events, appends the four identifiers to the signer's pending list while it holds fewer than sixteen
  entries, and panics on a full list; it changes no other account's entries.\<close>

lemma strip_callback_effect:
  assumes "length mg \<le> 64" "length mp \<le> 64" "length pg \<le> 64" "length pp \<le> 64" "length md \<le> 10" "length pd \<le> 10"
    and "lg \<longrightarrow> valid_utf8 mg \<and> valid_utf8 mp \<and> valid_utf8 pg \<and> valid_utf8 pp"
  shows "case callback_new_garbled_and_strip_signed lg (SignedOrigin who) mg mp md pg pp pd s of (r, t) \<Rightarrow>
    r = (if length (get_pending_circuits_for_account s who) < 16 then Ret () else Panic (Unwrap ''try_push''))
    \<and> get_pending_circuits_for_account t who = get_pending_circuits_for_account s who @
        (if length (get_pending_circuits_for_account s who) < 16
         then [\<lparr>message_pgarbled_cid = mg, message_packmsg_cid = mp, pinpad_pgarbled_cid = pg,
                pinpad_packmsg_cid = pp, message_nb_digits = word_of_nat (length md)\<rparr>] else [])
    \<and> (\<forall>a. a \<noteq> who \<longrightarrow> get_pending_circuits_for_account t a = get_pending_circuits_for_account s a)
    \<and> circuit_server_metadata_map t =
        (circuit_server_metadata_map s)((who, mg) := Some \<lparr>message_digits = md, pinpad_digits = pd\<rparr>)
    \<and> events t = events s @ [OcwGarbleEvent (NewGarbleAndStrippedIpfsCid mg mp pg pp),
        TxValidationEvent (DEBUGNewDigitsSet md pd)]"
proof -
  have "callback_args_ok mg mp md pg pp pd" "callback_log_safe lg mg mp pg pp"
    using assms by (simp_all add: callback_args_ok_def callback_log_safe_def)
  note eq = strip_callback_eq [OF this, of who s]
  have e: "events (callback_stored who mg mp md pg pp pd s) = events s @
      [OcwGarbleEvent (NewGarbleAndStrippedIpfsCid mg mp pg pp), TxValidationEvent (DEBUGNewDigitsSet md pd)]"
    by (simp add: callback_stored_def)
  show ?thesis
    by (simp add: eq Let_def e stripped_package_def)
      (simp add: get_pending_circuits_for_account_def pending_map.lookup_insert)
qed

text \<open>C28: No call of the pallet ever takes an entry off a pending list: after any calls, by anyone, each list
  extends what it was and holds at most sixteen entries if it did before, and an account whose list is full
  never gets another circuit through: every later callback that it signs fails.\<close>

theorem pending_lists_only_fill:
  assumes "\<forall>a. length (get_pending_circuits_for_account s a) \<le> 16"
  shows "(\<exists>xs. get_pending_circuits_for_account (garble_run_calls cd cs s) a = get_pending_circuits_for_account s a @ xs)
    \<and> length (get_pending_circuits_for_account (garble_run_calls cd cs s) a) \<le> 16
    \<and> (length (get_pending_circuits_for_account s a) = 16 \<longrightarrow>
        get_pending_circuits_for_account (garble_run_calls cd cs s) a = get_pending_circuits_for_account s a
        \<and> fst (callback_new_garbled_and_strip_signed lg (SignedOrigin a) mg mp md pg pp pd (garble_run_calls cd cs s)) \<noteq> Ret ())"
proof -
  let ?t = "garble_run_calls cd cs s"
  from run_calls_grows [of s cd cs] obtain xs where
    x: "get_pending_circuits_for_account ?t a = get_pending_circuits_for_account s a @ xs" and
    m: "length (get_pending_circuits_for_account ?t a) \<le> max 16 (length (get_pending_circuits_for_account s a))"
    unfolding pending_grows_def by blast
  from m assms have b: "length (get_pending_circuits_for_account ?t a) \<le> 16" by (metis max.absorb1)
  obtain r u where c: "callback_new_garbled_and_strip_signed lg (SignedOrigin a) mg mp md pg pp pd ?t = (r, u)" by fastforce
  from strip_callback_pending [OF c] x b c show ?thesis by auto
qed

text \<open>A callback leaves the metadata of every account but its signer's.\<close>

definition others_metadata_kept :: "'acct \<Rightarrow> ('acct, 'z) txval_scheme \<Rightarrow> ('acct, 'z) txval_scheme \<Rightarrow> bool" where
  "others_metadata_kept a s t \<longleftrightarrow>
     (\<forall>b cid. b \<noteq> a \<longrightarrow> circuit_server_metadata_map t (b, cid) = circuit_server_metadata_map s (b, cid))"

lemma others_metadata_preorder: "preorder_rel (others_metadata_kept a)"
  by (auto simp: others_metadata_kept_def preorder_rel_def)

interpretation metadata_rel: kept_relation "others_metadata_kept a" for a
  by (rule kept_relation.intro) (rule others_metadata_preorder)

lemma strip_callback_metadata:
  "keeps (others_metadata_kept a) (callback_new_garbled_and_strip_signed lg (SignedOrigin a) mg mp md pg pp pd)"
  unfolding callback_new_garbled_and_strip_signed_def store_metadata_aux_def ensure_signed_Signed rbind_ret deposit_event_def
  by (intro metadata_rel.kept_rbind keeps_attempt metadata_rel.kept_log metadata_rel.kept_quiet quiet_intros keeps_modify)
    (simp_all add: others_metadata_kept_def metadata_map.lookup_insert)


subsection \<open>Nonces\<close>

fun strip_requests ::
  "garble_codec \<Rightarrow> 'r randomness \<Rightarrow> ('acct \<times> bytes) list \<Rightarrow> ('acct, 'z) garble_scheme \<Rightarrow> ('acct, 'z) garble_scheme" where
  "strip_requests cd rd [] s = s"
| "strip_requests cd rd ((who, tx) # rs) s = strip_requests cd rd rs
     (snd (garble_and_strip_display_circuits_package_signed cd rd False (SignedOrigin who) tx s))"

definition request_job :: "garble_codec \<Rightarrow> 'r randomness \<Rightarrow> display_skcd_package \<Rightarrow> bytes \<Rightarrow> u64 \<Rightarrow> garble_indexing_data" where
  "request_job cd rd p tx n = (case drawn_digits cd rd n of
     Some (msg, pin) \<Rightarrow> strip_job (message_skcd_cid p) (pinpad_skcd_cid p) tx msg pin
   | None \<Rightarrow> default_garble_indexing_data)"

lemma strip_request_step:
  assumes "package_ready (display_skcd_package_value s)" "drawn_digits cd rd (nonce s) \<noteq> None"
  shows "garble_and_strip_display_circuits_package_signed cd rd False (SignedOrigin who) tx s =
    (Ret (), s\<lparr>offchain_index_writes := offchain_index_writes s @ [(garble_job_key cd, enc_garble_job cd
       (request_job cd rd (display_skcd_package_value s) tx (nonce s)))], nonce := nonce s + 1\<rparr>)"
  using assms(2) by (auto simp: strip_request_eq [OF assms(1)] request_log_safe_def request_job_def set_nonce_def)

lemma distinct_nonces:
  assumes "n \<le> 2 ^ 64"
  shows "distinct (map (\<lambda>i. m + word_of_nat i :: u64) [0..<n])"
  using assms by (auto simp: distinct_map inj_on_def word_of_nat_eq_iff take_bit_nat_eq_self)

text \<open>The digits of consecutive requests are drawn from consecutive nonces: the i-th of a series of
  requests, by whichever users, takes the nonce at the start plus i, so two requests share a nonce only after
  the counter has wrapped at 64 bits.\<close>

lemma requests_use_distinct_nonces:
  assumes "package_ready (display_skcd_package_value s)" "\<And>n. drawn_digits cd rd n \<noteq> None"
  shows "offchain_index_writes (strip_requests cd rd rs s) = offchain_index_writes s @
      map (\<lambda>i. (garble_job_key cd, enc_garble_job cd
        (request_job cd rd (display_skcd_package_value s) (snd (rs ! i)) (nonce s + word_of_nat i)))) [0..<length rs]
    \<and> nonce (strip_requests cd rd rs s) = nonce s + word_of_nat (length rs)
    \<and> (length rs \<le> 2 ^ 64 \<longrightarrow> distinct (map (\<lambda>i. nonce s + word_of_nat i) [0..<length rs]))"
proof -
  have "offchain_index_writes (strip_requests cd rd rs s) = offchain_index_writes s @
      map (\<lambda>i. (garble_job_key cd, enc_garble_job cd
        (request_job cd rd (display_skcd_package_value s) (snd (rs ! i)) (nonce s + word_of_nat i)))) [0..<length rs]
    \<and> nonce (strip_requests cd rd rs s) = nonce s + word_of_nat (length rs)"
    using assms(1)
  proof (induction rs arbitrary: s)
    case (Cons r rs)
    obtain who tx where r: "r = (who, tx)" by fastforce
    let ?s = "s\<lparr>offchain_index_writes := offchain_index_writes s @ [(garble_job_key cd, enc_garble_job cd
       (request_job cd rd (display_skcd_package_value s) tx (nonce s)))], nonce := nonce s + 1\<rparr>"
    have u: "[0..<length (r # rs)] = 0 # map Suc [0..<length rs]"
      by (simp add: upt_conv_Cons map_Suc_upt del: upt_Suc)
    from Cons.IH [of ?s] Cons.prems show ?case
      unfolding u by (simp add: r strip_request_step [OF Cons.prems assms(2)] comp_def add.assoc del: upt_Suc)
  qed simp
  with distinct_nonces [of "length rs" "nonce s"] show ?thesis by blast
qed

section \<open>Concrete runs\<close>

text \<open>A codec for the concrete runs: every byte of a list is marked, an optional list is tagged.\<close>

definition enc_marked :: "bytes \<Rightarrow> bytes" where
  "enc_marked v = concat (map (\<lambda>b. [1, b]) v) @ [0]"

fun dec_marked :: "bytes \<Rightarrow> (bytes \<times> bytes) option" where
  "dec_marked [] = None"
| "dec_marked [x] = (if x = 0 then Some ([], []) else None)"
| "dec_marked (x # b # r) = (if x = 0 then Some ([], b # r)
     else case dec_marked r of None \<Rightarrow> None | Some (v, q) \<Rightarrow> Some (b # v, q))"

fun enc_optional :: "bytes option \<Rightarrow> bytes" where
  "enc_optional None = [0]"
| "enc_optional (Some v) = 1 # enc_marked v"

fun dec_optional :: "bytes \<Rightarrow> (bytes option \<times> bytes) option" where
  "dec_optional [] = None"
| "dec_optional (x # r) = (if x = 0 then Some (None, r) else
     case dec_marked r of None \<Rightarrow> None | Some (v, q) \<Rightarrow> Some (Some v, q))"

lemma dec_enc_marked: "dec_marked (enc_marked v @ r) = Some (v, r)"
proof (induction v)
  case Nil
  show ?case by (cases r) (simp_all add: enc_marked_def)
qed (simp add: enc_marked_def)

lemma dec_enc_optional [simp]: "dec_optional (enc_optional v @ r) = Some (v, r)"
  by (cases v) (simp_all add: dec_enc_marked)

lemma dec_enc_optional_end [simp]: "dec_optional (enc_optional v) = Some (v, [])"
  using dec_enc_optional [of v "[]"] by simp

fun dec_optionals :: "nat \<Rightarrow> bytes \<Rightarrow> bytes option list option" where
  "dec_optionals 0 v = Some []"
| "dec_optionals (Suc n) v = (case dec_optional v of None \<Rightarrow> None
     | Some (x, r) \<Rightarrow> (case dec_optionals n r of None \<Rightarrow> None | Some xs \<Rightarrow> Some (x # xs)))"

definition demo_garble_codec :: garble_codec where
  "demo_garble_codec = \<lparr>enc_block_number_default_g = [0, 0, 0, 0], enc_nonce = (\<lambda>n. [word_of_nat (unat n)]),
     enc_garble_job = (\<lambda>d. be_u32 (g_block_number d) @ [case g_grpc_kind d of GarbleStandard \<Rightarrow> 0 | GarbleAndStrip \<Rightarrow> 1]
       @ enc_optional (skcd_ipfs_cid d) @ enc_optional (message_skcd_ipfs_cid d) @ enc_optional (pinpad_skcd_ipfs_cid d)
       @ enc_optional (g_tx_msg d) @ enc_optional (g_message_digits d) @ enc_optional (g_pinpad_digits d)),
     dec_garble_job = (\<lambda>v. case v of
         a # b # c # d # k # r \<Rightarrow> (case dec_optionals 6 r of
           Some [x1, x2, x3, x4, x5, x6] \<Rightarrow> Some \<lparr>g_block_number = word_of_nat (u32_of_be a b c d),
             g_grpc_kind = (if k = 0 then GarbleStandard else GarbleAndStrip), skcd_ipfs_cid = x1,
             message_skcd_ipfs_cid = x2, pinpad_skcd_ipfs_cid = x3, g_tx_msg = x4, g_message_digits = x5,
             g_pinpad_digits = x6\<rparr>
         | _ \<Rightarrow> None)
       | _ \<Rightarrow> None),
     enc_garble_request = (\<lambda>r. Some (greq_skcd_cid r)),
     dec_garble_reply = (\<lambda>v. Some \<lparr>grep_pgarbled_cid = v\<rparr>),
     enc_strip_request = (\<lambda>r. Some (sreq_skcd_cid r @ sreq_tx_msg r)),
     dec_strip_reply = (\<lambda>v. Some \<lparr>srep_pgarbled_cid = v, srep_packmsg_cid = rev v\<rparr>)\<rparr>"

lemma demo_garble_roundtrip: "dec_garble_job demo_garble_codec (enc_garble_job demo_garble_codec d) = Some d"
proof -
  obtain a b c e where w: "be_u32 (g_block_number d) = [a, b, c, e]" "u32_of_be a b c e = unat (g_block_number d)"
    by (rule u32_be_roundtrip)
  have 6: "(6 :: nat) = Suc (Suc (Suc (Suc (Suc (Suc 0)))))" by simp
  show ?thesis
    using w by (cases d; cases "g_grpc_kind d") (simp_all add: demo_garble_codec_def 6)
qed

text \<open>A source of randomness: the seed is the nonce, the shuffle reverses, a range gives its lower end.\<close>

definition demo_randomness :: "bytes randomness" where
  "demo_randomness = \<lparr>my_randomness = id, decode_seed = Some, from_seed = id,
     shuffle = (\<lambda>v r. (rev v, r)), gen_range = (\<lambda>l h r. (l, r))\<rparr>"

lemma demo_rand_ok: "rand_ok demo_randomness"
  by (simp add: rand_ok_def demo_randomness_def)

lemma demo_drawn: "drawn_digits demo_garble_codec demo_randomness n = Some ([0, 0], rev (map byte_of [0..<10]))"
  by (simp add: drawn_digits_def demo_randomness_def eval_nat_numeral)

definition demo_package_ready :: display_skcd_package where
  "demo_package_ready = \<lparr>message_skcd_cid = [81, 1], message_skcd_server_metadata_nb_digits = 2,
     pinpad_skcd_cid = [81, 2], pinpad_skcd_server_metadata_nb_digits = 10\<rparr>"

definition garble_genesis :: "'acct garble" where
  "garble_genesis = \<lparr>events = [], offchain_index_writes = [], mobile_registry_map = (\<lambda>_. None),
     circuit_server_metadata_map = (\<lambda>_. None), display_skcd_package_value = default_display_skcd_package,
     account_to_pending_circuits_map = (\<lambda>_. None), nonce = 0\<rparr>"

definition demo_garble :: "nat garble" where
  "demo_garble = set_display_package demo_package_ready garble_genesis"

lemma demo_garble_facts:
  "package_ready (display_skcd_package_value demo_garble)"
  "request_log_safe lg [72] (display_skcd_package_value demo_garble)"
  "nonce demo_garble = 0" "offchain_index_writes demo_garble = []"
  "display_skcd_package_value demo_garble = demo_package_ready"
  "get_pending_circuits_for_account demo_garble a = []"
  by (simp_all add: demo_garble_def package_ready_def demo_package_ready_def request_log_safe_def valid_ascii
      is_ascii_def garble_genesis_def set_display_package_def get_pending_circuits_for_account_def)

theorem strip_request_draws_digits_witness:
  "fst (garble_and_strip_display_circuits_package_signed demo_garble_codec demo_randomness True (SignedOrigin 42) [72] demo_garble) = Ret ()"
  using strip_request_draws_digits [where lg = True and who = 42, OF demo_rand_ok demo_garble_facts(1,2) demo_drawn]
  by simp

lemma strip_request_needs_package_witness:
  "garble_and_strip_display_circuits_package_signed demo_garble_codec demo_randomness True (SignedOrigin (42 :: nat)) [72] garble_genesis =
     (Panic (Expect ''display_circuits_package not ready!''), garble_genesis)"
  by (rule strip_request_needs_package)
    (simp_all add: garble_genesis_def default_display_skcd_package_def valid_ascii is_ascii_def)

lemma strip_callback_effect_witness:
  "get_pending_circuits_for_account (snd (callback_new_garbled_and_strip_signed True (SignedOrigin 42) [81] [82] [3, 4] [83] [84] [4, 5] demo_garble)) 42 =
     [\<lparr>message_pgarbled_cid = [81], message_packmsg_cid = [82], pinpad_pgarbled_cid = [83], pinpad_packmsg_cid = [84],
       message_nb_digits = 2\<rparr>]"
  using strip_callback_effect [of "[81]" "[82]" "[83]" "[84]" "[3, 4]" "[4, 5]" True demo_garble 42]
  by (auto simp: valid_ascii is_ascii_def demo_garble_facts split: prod.splits)

theorem pending_lists_only_fill_witness:
  "length (get_pending_circuits_for_account (garble_run_calls demo_garble_codec
     [(demo_randomness, True, SignedOrigin 42, callback_new_garbled_and_strip_signed_call [81] [82] [3, 4] [83] [84] [4, 5])]
     demo_garble) 42) \<le> 16"
  using pending_lists_only_fill [of demo_garble demo_garble_codec
      "[(demo_randomness, True, SignedOrigin 42, callback_new_garbled_and_strip_signed_call [81] [82] [3, 4] [83] [84] [4, 5])]" 42]
  by (simp add: demo_garble_facts del: garble_run_calls.simps)

lemma requests_use_distinct_nonces_witness:
  "nonce (strip_requests demo_garble_codec demo_randomness [(42, [72]), (43, [73])] demo_garble) = 2"
  using requests_use_distinct_nonces [OF demo_garble_facts(1), of demo_garble_codec demo_randomness "[(42, [72]), (43, [73])]"]
  by (simp add: demo_drawn demo_garble_facts)


end
