(* ===== verification/Runtime_Config.thy ===== *)
theory Runtime_Config
  imports Frame
begin

text \<open>
  The constants of the runtime (\<open>runtime/src/lib.rs\<close>) that the rest of the repository depends on:
  its version, the block time and what is derived from it, the limits that the genesis has to
  respect, and the runtime APIs that the repository answers itself.
\<close>

section \<open>Version\<close>

record runtime_version =
  rt_spec_name :: string
  rt_impl_name :: string
  authoring_version :: u32
  spec_version :: u32
  impl_version :: u32
  transaction_version :: u32
  state_version :: u8

definition VERSION :: runtime_version where
  "VERSION = \<lparr>rt_spec_name = ''node-template'', rt_impl_name = ''node-template'', authoring_version = 1,
     spec_version = 100, impl_version = 1, transaction_version = 1, state_version = 1\<rparr>"

text \<open>\<open>can_author_with\<close> is the empty set of the default.\<close>

record native_version =
  native_runtime_version :: runtime_version
  can_author_with :: "u32 list"

definition runtime_native_version :: native_version where
  "runtime_native_version = \<lparr>native_runtime_version = VERSION, can_author_with = []\<rparr>"

section \<open>Time\<close>

definition MILLISECS_PER_BLOCK :: u64 where
  "MILLISECS_PER_BLOCK = 6000"

definition SLOT_DURATION :: u64 where
  "SLOT_DURATION = MILLISECS_PER_BLOCK"

definition MINUTES :: u32 where
  "MINUTES = 60000 div ucast MILLISECS_PER_BLOCK"

definition HOURS :: u32 where
  "HOURS = MINUTES * 60"

definition DAYS :: u32 where
  "DAYS = HOURS * 24"

definition MinimumPeriod :: u64 where
  "MinimumPeriod = SLOT_DURATION div 2"

text \<open>
  The Aura API's slot duration; \<open>aura_slot_duration\<close> is the pallet's, computed from the minimum
  period of the timestamp pallet.
\<close>

definition api_slot_duration :: "(u64 \<Rightarrow> u64) \<Rightarrow> u64" where
  "api_slot_duration aura_slot_duration = aura_slot_duration MinimumPeriod"

section \<open>The System pallet\<close>

text \<open>A \<open>Perbill\<close> counts parts of a billion; \<open>from_percent(75)\<close>.\<close>

definition NORMAL_DISPATCH_RATIO :: u32 where
  "NORMAL_DISPATCH_RATIO = 75 * 10000000"

definition BlockHashCount :: u32 where
  "BlockHashCount = 2400"

definition SS58Prefix :: u8 where
  "SS58Prefix = 42"

text \<open>
  The limits of a block are made by the library: two seconds of computation, five megabytes, three quarters of
  which normal calls may use.
\<close>

definition BlockWeights :: "u64 \<Rightarrow> (u64 \<Rightarrow> u32 \<Rightarrow> 'weights) \<Rightarrow> 'weights" where
  "BlockWeights WEIGHT_PER_SECOND with_sensible_defaults = with_sensible_defaults (2 * WEIGHT_PER_SECOND) NORMAL_DISPATCH_RATIO"

definition BlockLength :: "(u32 \<Rightarrow> u32 \<Rightarrow> 'limits) \<Rightarrow> 'limits" where
  "BlockLength max_with_normal_ratio = max_with_normal_ratio (5 * 1024 * 1024) NORMAL_DISPATCH_RATIO"

text \<open>The settings of \<open>frame_system::Config\<close> that are numbers; \<open>'n\<close> is the type of block numbers.\<close>

record 'n system_config =
  block_hash_count :: 'n
  ss58_prefix :: u16
  max_consumers :: u32

definition runtime_system_config :: "u32 system_config" where
  "runtime_system_config = \<lparr>block_hash_count = BlockHashCount, ss58_prefix = ucast SS58Prefix, max_consumers = 16\<rparr>"

section \<open>Limits\<close>

definition AuraMaxAuthorities :: nat where
  "AuraMaxAuthorities = 32"

definition GrandpaMaxAuthorities :: nat where
  "GrandpaMaxAuthorities = 32"

definition ExistentialDeposit :: "128 word" where
  "ExistentialDeposit = 500"

definition MaxLocks :: nat where
  "MaxLocks = 50"

definition TransactionByteFee :: "128 word" where
  "TransactionByteFee = 1"

definition OperationalFeeMultiplier :: u8 where
  "OperationalFeeMultiplier = 5"

text \<open>Parameters of an earlier pallet, declared and used nowhere.\<close>

definition GracePeriod :: u32 where
  "GracePeriod = 3"

definition UnsignedInterval :: u32 where
  "UnsignedInterval = 3"

definition UnsignedPriority :: u32 where
  "UnsignedPriority = 3"

section \<open>APIs without a library behind them\<close>

definition submit_report_equivocation_unsigned_extrinsic :: "'equivocation_proof \<Rightarrow> 'key_owner_proof \<Rightarrow> unit option" where
  "submit_report_equivocation_unsigned_extrinsic equivocation_proof key_owner_proof = None"

definition generate_key_ownership_proof :: "u64 \<Rightarrow> 'authority_id \<Rightarrow> 'proof option" where
  "generate_key_ownership_proof set_id authority_id = None"

end
