(* ===== verification/Runtime.thy ===== *)
theory Runtime
  imports Garble_Calls Runtime_Config
begin

text \<open>
  The runtime (\<open>runtime/src/lib.rs\<close>) as far as it is the repository's own: the calls of its four
  pallets and their dispatch on the one state, and \<open>create_transaction\<close>, which wraps the calls that the
  workers submit.
\<close>

section \<open>The calls of the runtime\<close>

datatype mobile_call = register_mobile_call bytes

datatype tx_call =
    store_metadata_call bytes bytes bytes
  | check_input_call bytes bytes

datatype runtime_call =
    MobileRegistry mobile_call
  | OcwCircuits circuits_call
  | OcwGarble garble_call
  | TxValidation tx_call

datatype runtime_error =
    MobileError mobile_error | CircuitsError circuits_error | GarbleError garble_error | TxError tx_error

text \<open>What is given at the dispatch of a call: the codecs, the block's randomness, the log level.\<close>

record 'r block_context =
  circuits_codec_of :: circuits_codec
  garble_codec_of :: garble_codec
  randomness_of :: "'r randomness"
  logs_info :: bool

fun map_dispatch_error :: "('e \<Rightarrow> 'f) \<Rightarrow> 'e dispatch_error \<Rightarrow> 'f dispatch_error" where
  "map_dispatch_error f BadOrigin = BadOrigin"
| "map_dispatch_error f (Module e) = Module (f e)"

fun runtime_dispatch ::
  "'r block_context \<Rightarrow> runtime_call \<Rightarrow> 'acct origin \<Rightarrow> (('acct, 'z) garble_scheme, runtime_error dispatch_error, unit) rust" where
  "runtime_dispatch ctx (MobileRegistry (register_mobile_call k)) origin =
     map_err (map_dispatch_error MobileError) (register_mobile origin k)"
| "runtime_dispatch ctx (OcwCircuits call) origin =
     map_err (map_dispatch_error CircuitsError) (circuits_dispatch (circuits_codec_of ctx) (logs_info ctx) call origin)"
| "runtime_dispatch ctx (OcwGarble call) origin =
     map_err (map_dispatch_error GarbleError)
       (garble_dispatch (garble_codec_of ctx) (randomness_of ctx) (logs_info ctx) call origin)"
| "runtime_dispatch ctx (TxValidation (store_metadata_call cid msg pin)) origin =
     map_err (map_dispatch_error TxError) (store_metadata origin cid msg pin)"
| "runtime_dispatch ctx (TxValidation (check_input_call cid input)) origin =
     map_err (map_dispatch_error TxError) (check_input (logs_info ctx) origin cid input)"

lemma map_err_snd [simp]: "snd (map_err f m s) = snd (m s)"
  by (simp add: map_err_def split: prod.splits exit.splits)

text \<open>A context for concrete runs.\<close>

definition demo_context :: "bytes block_context" where
  "demo_context = \<lparr>circuits_codec_of = demo_circuits_codec, garble_codec_of = demo_garble_codec,
     randomness_of = demo_randomness, logs_info = True\<rparr>"

section \<open>create_transaction\<close>

text \<open>The tuple of the signed extensions, in its order; an extension without data is the unit.\<close>

record 'era signed_extra =
  check_non_zero_sender :: unit
  check_spec_version :: unit
  check_tx_version :: unit
  check_genesis :: unit
  check_era :: 'era
  check_nonce :: u32
  check_weight :: unit
  charge_transaction_payment :: "128 word"

text \<open>\<open>MultiAddress<AccountId, ()>\<close>, the addresses of the runtime.\<close>

datatype 'acct multi_address = Id 'acct | Index | Raw bytes | Address32 bytes | Address20 bytes

definition saturating_sub :: "u64 \<Rightarrow> u64 \<Rightarrow> u64" where
  "saturating_sub x y = (if y \<le> x then x - y else 0)"

text \<open>
  The era constructor, \<open>SignedPayload::new\<close> with its encoding, and the signing with the key of the
  keystore belong to the framework.
\<close>

definition create_transaction ::
  "(u64 \<Rightarrow> u64 \<Rightarrow> 'era) \<Rightarrow> ('c \<Rightarrow> 'era signed_extra \<Rightarrow> bytes option) \<Rightarrow> (bytes \<Rightarrow> 'pub \<Rightarrow> 'sig option) \<Rightarrow>
   u32 \<Rightarrow> 'c \<Rightarrow> 'pub \<Rightarrow> 'acct \<Rightarrow> u32 \<Rightarrow> ('c \<times> 'acct multi_address \<times> 'sig \<times> 'era signed_extra) option" where
  "create_transaction mortal signed_payload sign block_number call public account tx_nonce =
     (let tip = 0;
          period = ucast (option_unwrap_or (map_option (\<lambda>c. c div 2) (checked_next_power_of_two BlockHashCount)) 2);
          current_block = saturating_sub (ucast block_number) 1;
          era = mortal period current_block;
          extra = \<lparr>check_non_zero_sender = (), check_spec_version = (), check_tx_version = (), check_genesis = (),
            check_era = era, check_nonce = tx_nonce, check_weight = (), charge_transaction_payment = tip\<rparr>
      in case signed_payload call extra of
           None \<Rightarrow> None
         | Some raw_payload \<Rightarrow> (case sign raw_payload public of
             None \<Rightarrow> None
           | Some signature \<Rightarrow> Some (call, Id account, signature, extra)))"

lemma block_hash_period: "checked_next_power_of_two BlockHashCount = Some 4096"
  by code_simp

section \<open>Properties\<close>

text \<open>The transaction made for a worker's call carries the call unchanged, the account given as its sender
  and the nonce given, no tip, and a mortal era of 2048 blocks, below the 2400 block hashes that the chain
  keeps, counted from the block before the current one (from 0 at genesis, where the subtraction saturates);
  there is no transaction if the payload or the signature cannot be made.\<close>

lemma create_transaction_era:
  "create_transaction mortal signed_payload sign block_number call public account tx_nonce =
    (let extra = \<lparr>check_non_zero_sender = (), check_spec_version = (), check_tx_version = (), check_genesis = (),
           check_era = mortal 2048 (if block_number = 0 then 0 else ucast block_number - 1),
           check_nonce = tx_nonce, check_weight = (), charge_transaction_payment = 0\<rparr>
     in Option.bind (signed_payload call extra) (\<lambda>payload.
        map_option (\<lambda>signature. (call, Id account, signature, extra)) (sign payload public)))"
proof -
  have "saturating_sub (ucast block_number) 1 = (if block_number = 0 then 0 else ucast block_number - 1)"
  proof (cases "block_number = 0")
    case False
    have "unat (ucast block_number :: u64) = unat block_number"
      using unsigned_less [where 'a = nat, of block_number] by (simp add: unsigned_ucast_eq take_bit_nat_eq_self)
    moreover from False have "1 \<le> unat block_number" by (metis One_nat_def Suc_leI unat_gt_0)
    ultimately have "(1 :: u64) \<le> ucast block_number" by (simp add: word_le_nat_alt)
    with False show ?thesis by (simp add: saturating_sub_def)
  qed (simp add: saturating_sub_def)
  then show ?thesis
    by (simp add: create_transaction_def block_hash_period Let_def split: option.splits)
qed

end
