(* ===== verification/Effects.thy ===== *)
theory Effects
  imports Runtime
begin

text \<open>
  An effect system for the runtime's calls. \<open>effect_ok W P A E m\<close>: the computation \<open>m\<close> writes only
  the storage items in \<open>W\<close>, deposits only events that satisfy \<open>P\<close>, changes only the entries of the
  accounts in \<open>A\<close>, and returns only errors in \<open>E\<close>. The judgement is closed under the sequencing of
  computations, so the signature of each call is checked along its body, and a dispatch has the
  signature of its call whatever the state and the exit.
\<close>

section \<open>Signatures\<close>

text \<open>The storage items of the four pallets, and the buffer of off-chain index writes.\<close>

datatype cell = MobileCell | MetadataCell | PackageCell | PendingCell | NonceCell | IndexWritesCell

fun same_cell :: "cell \<Rightarrow> ('acct, 'z) garble_scheme \<Rightarrow> ('acct, 'z) garble_scheme \<Rightarrow> bool" where
  "same_cell MobileCell s t = (mobile_registry_map t = mobile_registry_map s)"
| "same_cell MetadataCell s t = (circuit_server_metadata_map t = circuit_server_metadata_map s)"
| "same_cell PackageCell s t = (display_skcd_package_value t = display_skcd_package_value s)"
| "same_cell PendingCell s t = (account_to_pending_circuits_map t = account_to_pending_circuits_map s)"
| "same_cell NonceCell s t = (nonce t = nonce s)"
| "same_cell IndexWritesCell s t = (offchain_index_writes t = offchain_index_writes s)"

text \<open>The entries that the storage maps keep for one account.\<close>

definition same_account :: "('acct, 'z) garble_scheme \<Rightarrow> ('acct, 'z) garble_scheme \<Rightarrow> 'acct \<Rightarrow> bool" where
  "same_account s t a \<longleftrightarrow> mobile_registry_map t a = mobile_registry_map s a
     \<and> (\<forall>cid. circuit_server_metadata_map t (a, cid) = circuit_server_metadata_map s (a, cid))
     \<and> account_to_pending_circuits_map t a = account_to_pending_circuits_map s a"

definition effect_rel ::
  "cell set \<Rightarrow> ('acct event \<Rightarrow> bool) \<Rightarrow> 'acct set \<Rightarrow> ('acct, 'z) garble_scheme \<Rightarrow> ('acct, 'z) garble_scheme \<Rightarrow> bool" where
  "effect_rel W P A s t \<longleftrightarrow> (\<forall>c. c \<notin> W \<longrightarrow> same_cell c s t) \<and> (\<forall>a. a \<notin> A \<longrightarrow> same_account s t a)
     \<and> (\<exists>es. events t = events s @ es \<and> list_all P es)"

definition effect_ok ::
  "cell set \<Rightarrow> ('acct event \<Rightarrow> bool) \<Rightarrow> 'acct set \<Rightarrow> 'e set \<Rightarrow> (('acct, 'z) garble_scheme, 'e, 'a) rust \<Rightarrow> bool" where
  "effect_ok W P A E m \<longleftrightarrow> keeps (effect_rel W P A) m \<and> (\<forall>s e. fst (m s) = Err e \<longrightarrow> e \<in> E)"

text \<open>The signature of each call: what it writes, deposits for its signer, and returns.\<close>

fun writes_of :: "runtime_call \<Rightarrow> cell set" where
  "writes_of (MobileRegistry (register_mobile_call k)) = {MobileCell}"
| "writes_of (OcwCircuits (submit_config_generic_signed_call v)) = {IndexWritesCell}"
| "writes_of (OcwCircuits submit_config_display_circuits_package_signed_call) = {IndexWritesCell}"
| "writes_of (OcwCircuits (callback_new_skcd_signed_call v)) = {}"
| "writes_of (OcwCircuits (callback_new_display_circuits_package_signed_call m mn p pn)) = {PackageCell}"
| "writes_of (OcwGarble (garble_standard_signed_call v)) = {IndexWritesCell}"
| "writes_of (OcwGarble (garble_and_strip_display_circuits_package_signed_call tx)) = {NonceCell, IndexWritesCell}"
| "writes_of (OcwGarble (callback_new_garbled_signed_call v)) = {}"
| "writes_of (OcwGarble (callback_new_garbled_and_strip_signed_call mg mp md pg pp pd)) = {MetadataCell, PendingCell}"
| "writes_of (TxValidation (store_metadata_call cid msg pin)) = {MetadataCell}"
| "writes_of (TxValidation (check_input_call cid input)) = {}"

fun emits :: "runtime_call \<Rightarrow> 'acct set \<Rightarrow> 'acct event \<Rightarrow> bool" where
  "emits (MobileRegistry (register_mobile_call k)) A e = (\<exists>who \<in> A. e = MobileRegistryEvent (NewMobileRegistered who))"
| "emits (OcwCircuits (callback_new_skcd_signed_call v)) A e = (e = OcwCircuitsEvent (NewSkcdIpfsCid v))"
| "emits (OcwCircuits (callback_new_display_circuits_package_signed_call m mn p pn)) A e =
     (e = OcwCircuitsEvent (NewDisplaySkcdPackageIpfsCid m p))"
| "emits (OcwGarble (callback_new_garbled_signed_call v)) A e = (e = OcwGarbleEvent (NewGarbledIpfsCid v))"
| "emits (OcwGarble (callback_new_garbled_and_strip_signed_call mg mp md pg pp pd)) A e =
     (e = OcwGarbleEvent (NewGarbleAndStrippedIpfsCid mg mp pg pp) \<or> e = TxValidationEvent (DEBUGNewDigitsSet md pd))"
| "emits (TxValidation (store_metadata_call cid msg pin)) A e = (e = TxValidationEvent (DEBUGNewDigitsSet msg pin))"
| "emits (TxValidation (check_input_call cid input)) A e =
     (\<exists>who \<in> A. e = TxValidationEvent (TxPass who) \<or> e = TxValidationEvent (TxFail who))"
| "emits _ A e = False"

fun errors_of :: "runtime_call \<Rightarrow> runtime_error dispatch_error set" where
  "errors_of (MobileRegistry (register_mobile_call k)) = {BadOrigin, Module (MobileError InvalidKeySize)}"
| "errors_of (TxValidation (check_input_call cid input)) = {BadOrigin, Module (TxError TxWrongCodeGiven)}"
| "errors_of _ = {BadOrigin}"

definition signers :: "'acct origin \<Rightarrow> 'acct set" where
  "signers origin = set_option (signed_by origin)"

section \<open>The rules\<close>

lemma effect_rel_preorder: "preorder_rel (effect_rel W P A)"
proof -
  have "effect_rel W P A s s" for s
    by (auto simp: effect_rel_def same_account_def elim: same_cell.elims intro: exI [of _ "[]"]) (case_tac c; simp)
  moreover have "effect_rel W P A s u" if st: "effect_rel W P A s t" and tu: "effect_rel W P A t u" for s t u
  proof -
    have "same_cell c s u" if "c \<notin> W" for c
      using st tu that by (cases c) (auto simp: effect_rel_def dest!: spec [of _ c])
    moreover have "same_account s u a" if "a \<notin> A" for a
      using st tu that by (simp add: effect_rel_def same_account_def)
    moreover from st tu obtain es fs where "events t = events s @ es" "list_all P es" "events u = events t @ fs" "list_all P fs"
      unfolding effect_rel_def by blast
    then have "events u = events s @ es @ fs \<and> list_all P (es @ fs)" by simp
    ultimately show ?thesis unfolding effect_rel_def by blast
  qed
  ultimately show ?thesis unfolding preorder_rel_def by blast
qed

interpretation effects: kept_relation "effect_rel W P A" for W P A
  by (rule kept_relation.intro) (rule effect_rel_preorder)

lemma effect_quiet: "quiet m \<Longrightarrow> effect_ok W P A E m"
  by (simp add: effect_ok_def effects.kept_quiet) (simp add: quiet_def)

lemma effect_throw: "e \<in> E \<Longrightarrow> effect_ok W P A E (throw e)"
  by (simp add: effect_ok_def effects.kept_pure)

lemma effect_rbind:
  assumes "effect_ok W P A E m" and "\<And>x. effect_ok W P A E (f x)"
  shows "effect_ok W P A E (rbind m f)"
proof -
  have "e \<in> E" if "fst (rbind m f s) = Err e" for s e
  proof (cases "m s")
    case (Pair r t)
    with that assms show ?thesis by (cases r) (auto simp: rbind_def effect_ok_def dest: spec [of _ s])
  qed
  then show ?thesis
    using assms unfolding effect_ok_def by (blast intro: effects.kept_rbind)
qed

lemma effect_attempt:
  assumes "effect_ok W P A F m"
  shows "effect_ok W P A E (attempt m)"
  using assms unfolding effect_ok_def
  by (intro conjI keeps_attempt) (simp_all add: attempt_def split: prod.splits exit.splits)

lemma effect_map_err:
  assumes "effect_ok W P A F m" "g ` F \<subseteq> E"
  shows "effect_ok W P A E (map_err g m)"
proof -
  have "e \<in> E" if "fst (map_err g m s) = Err e" for s e
  proof -
    from that obtain f where "e = g f" "fst (m s) = Err f"
      by (auto simp: map_err_def split: prod.splits exit.splits)
    with assms show ?thesis by (auto simp: effect_ok_def)
  qed
  with assms(1) show ?thesis unfolding effect_ok_def by (blast intro: keeps_map_err)
qed

lemma effect_modify:
  assumes "\<And>s. effect_rel W P A s (g s)"
  shows "effect_ok W P A E (modify g)"
  using assms by (simp add: effect_ok_def keeps_modify)

text \<open>\<open>ensure_signed(origin)?\<close>: the rest runs for the account that signed.\<close>

lemma effect_signed:
  assumes "BadOrigin \<in> E" and "\<And>who. signers origin = {who} \<Longrightarrow> effect_ok W P (signers origin) E (f who)"
  shows "effect_ok W P (signers origin) E (rbind (ensure_signed origin) f)"
proof (cases origin)
  case (SignedOrigin who)
  with assms(2) [of who] show ?thesis by (simp add: signers_def signed_by_def)
qed (use assms(1) effect_throw in \<open>simp_all add: effect_throw\<close>)

lemma effect_weaken:
  assumes "effect_ok W P A E m" "W \<subseteq> W'" "\<And>e. P e \<Longrightarrow> P' e"
  shows "effect_ok W' P' A E m"
proof -
  have "effect_rel W' P' A s t" if "effect_rel W P A s t" for s t
    using that assms(2,3) unfolding effect_rel_def by (meson list.pred_mono_strong subsetD)
  with assms(1) show ?thesis by (auto simp: effect_ok_def keeps_def)
qed

section \<open>The state's operations\<close>

lemma all_cells: "(\<forall>c. Q c) \<longleftrightarrow> Q MobileCell \<and> Q MetadataCell \<and> Q PackageCell \<and> Q PendingCell \<and> Q NonceCell \<and> Q IndexWritesCell"
  by (metis cell.exhaust)

lemma effect_deposit: "P e \<Longrightarrow> effect_ok W P A E (deposit_event e)"
  unfolding deposit_event_def by (rule effect_modify) (simp add: effect_rel_def all_cells same_account_def)

lemma effect_index: "IndexWritesCell \<in> W \<Longrightarrow> effect_ok W P A E (offchain_index_set k v)"
  unfolding offchain_index_set_def by (rule effect_modify) (simp add: effect_rel_def all_cells same_account_def)

lemma effect_mobile: "MobileCell \<in> W \<Longrightarrow> who \<in> A \<Longrightarrow> effect_ok W P A E (modify (mobile_insert who p))"
  by (rule effect_modify) (auto simp: effect_rel_def all_cells same_account_def mobile_insert_def)

lemma effect_metadata: "MetadataCell \<in> W \<Longrightarrow> who \<in> A \<Longrightarrow> effect_ok W P A E (modify (metadata_insert (who, cid) p))"
  by (rule effect_modify) (auto simp: effect_rel_def all_cells same_account_def metadata_insert_def)

lemma effect_package: "PackageCell \<in> W \<Longrightarrow> effect_ok W P A E (modify (set_display_package p))"
  by (rule effect_modify) (auto simp: effect_rel_def all_cells same_account_def set_display_package_def)

lemma effect_pending: "PendingCell \<in> W \<Longrightarrow> who \<in> A \<Longrightarrow> effect_ok W P A E (modify (pending_insert who v))"
  by (rule effect_modify) (auto simp: effect_rel_def all_cells same_account_def pending_insert_def)

lemma effect_nonce: "NonceCell \<in> W \<Longrightarrow> effect_ok W P A E (get_and_increment_nonce cd)"
  unfolding get_and_increment_nonce_def
  by (intro effect_rbind effect_quiet quiet_intros effect_modify)
    (auto simp: effect_rel_def all_cells same_account_def set_nonce_def)

lemma effect_get_package: "effect_ok W P A UNIV get_display_circuits_package"
  unfolding get_display_circuits_package_def
  by (intro effect_rbind) (auto intro: effect_quiet effect_throw quiet_intros)

lemma effect_key_valid: "InvalidKeySize \<in> E \<Longrightarrow> effect_ok W P A E (ensure_pub_key_valid k)"
  unfolding ensure_pub_key_valid_def by (auto intro: effect_quiet effect_throw quiet_intros)

lemmas effect_ops = effect_deposit effect_index effect_mobile effect_metadata effect_package effect_pending effect_nonce
lemmas effect_intros = effect_rbind effect_ops

section \<open>The calls\<close>

lemma effect_register:
  "effect_ok (writes_of (MobileRegistry (register_mobile_call k))) (emits (MobileRegistry (register_mobile_call k)) (signers origin))
     (signers origin) {BadOrigin, Module InvalidKeySize} (register_mobile origin k)"
  unfolding register_mobile_def
  by (rule effect_signed, simp, intro effect_intros effect_map_err effect_key_valid)
    (auto intro: effect_quiet quiet_intros)

lemma effect_circuits:
  "effect_ok (writes_of (OcwCircuits c)) (emits (OcwCircuits c) (signers origin)) (signers origin) {BadOrigin} (circuits_dispatch cd lg c origin)"
proof (cases c)
  case submit_config_generic_signed_call
  then show ?thesis
    by (simp only: circuits_dispatch.simps submit_config_generic_signed_def append_or_replace_verilog_hash_def)
      (rule effect_signed, simp, intro effect_intros; (intro effect_quiet quiet_intros | simp))
next
  case submit_config_display_circuits_package_signed_call
  then show ?thesis
    by (simp only: circuits_dispatch.simps submit_config_display_circuits_package_signed_def append_or_replace_verilog_hash_def)
      (rule effect_signed, simp, intro effect_intros; (intro effect_quiet quiet_intros | simp))
next
  case callback_new_skcd_signed_call
  then show ?thesis
    by (simp only: circuits_dispatch.simps callback_new_skcd_signed_def)
      (rule effect_signed, simp, intro effect_rbind effect_deposit; (intro effect_quiet quiet_intros | simp))
next
  case callback_new_display_circuits_package_signed_call
  then show ?thesis
    by (simp only: circuits_dispatch.simps callback_new_display_circuits_package_signed_def)
      (rule effect_signed, simp, intro effect_rbind effect_deposit effect_package; (intro effect_quiet quiet_intros | simp))
qed

lemma effect_store:
  assumes "MetadataCell \<in> W" "P (TxValidationEvent (DEBUGNewDigitsSet msg pin))" "BadOrigin \<in> E"
  shows "effect_ok W P (signers origin) E (store_metadata_aux origin cid msg pin)"
  unfolding store_metadata_aux_def
  by (rule effect_signed [OF assms(3)], intro effect_rbind effect_deposit effect_metadata assms)
    (intro effect_quiet quiet_intros | simp)+

lemma effect_garble:
  "effect_ok (writes_of (OcwGarble c)) (emits (OcwGarble c) (signers origin)) (signers origin) {BadOrigin}
     (garble_dispatch cd rd lg c origin)"
proof (cases c)
  case garble_standard_signed_call
  then show ?thesis
    by (simp only: garble_dispatch.simps garble_standard_signed_def append_or_replace_skcd_hash_def)
      (rule effect_signed, simp, intro effect_intros; (intro effect_quiet quiet_intros | simp))
next
  case garble_and_strip_display_circuits_package_signed_call
  then show ?thesis
    by (simp only: garble_dispatch.simps garble_and_strip_display_circuits_package_signed_def
        append_or_replace_skcd_hash_def Let_def case_prod_beta)
      (rule effect_signed, simp, intro effect_rbind effect_attempt [OF effect_get_package] effect_nonce effect_index;
        (intro effect_quiet quiet_intros | simp))
next
  case callback_new_garbled_signed_call
  then show ?thesis
    by (simp only: garble_dispatch.simps callback_new_garbled_signed_def)
      (rule effect_signed, simp, intro effect_rbind effect_deposit; (intro effect_quiet quiet_intros | simp))
next
  case (callback_new_garbled_and_strip_signed_call mg mp md pg pp pd)
  then show ?thesis
    by (simp only: garble_dispatch.simps callback_new_garbled_and_strip_signed_def)
      (rule effect_signed, simp,
        intro effect_rbind effect_deposit effect_attempt [where F = UNIV] effect_store effect_pending;
        (intro effect_quiet quiet_intros | simp))
qed

lemma effect_check:
  "effect_ok {} (emits (TxValidation (check_input_call cid input)) (signers origin)) (signers origin)
     {BadOrigin, Module TxWrongCodeGiven} (check_input lg origin cid input)"
  (is "effect_ok {} ?P ?A ?E ?m")
proof -
  have "effect_rel {} ?P ?A s t \<and> (\<forall>e. r = Err e \<longrightarrow> e \<in> ?E)" if c: "?m s = (r, t)" for s t :: "('a, 'b) garble_scheme" and r
    using check_input_exit_cases [OF c] effect_rel_preorder [of "{}" ?P ?A]
    by (auto simp: effect_rel_def all_cells same_account_def signers_def signed_by_def)
  then show ?thesis unfolding effect_ok_def keeps_def by (metis prod.collapse)
qed

lemma effect_dispatch:
  "effect_ok (writes_of call) (emits call (signers origin)) (signers origin) (errors_of call) (runtime_dispatch ctx call origin)"
proof (cases "(ctx, call, origin)" rule: runtime_dispatch.cases)
  case (1 ctx k origin)
  then show ?thesis by (auto intro!: effect_map_err [OF effect_register [unfolded writes_of.simps]])
next
  case (2 ctx c origin)
  then show ?thesis by (auto intro: effect_map_err [OF effect_circuits])
next
  case (3 ctx c origin)
  then show ?thesis by (auto intro: effect_map_err [OF effect_garble])
next
  case (4 ctx cid msg pin origin)
  then show ?thesis
    unfolding store_metadata_def by (auto intro: effect_map_err [OF effect_store [where E = "{BadOrigin}"]] simp: store_metadata_def)
next
  case (5 ctx cid input origin)
  then show ?thesis by (auto intro: effect_map_err [OF effect_check])
qed

lemma dispatch_effect:
  "effect_rel (writes_of call) (emits call (signers origin)) (signers origin) s (snd (runtime_dispatch ctx call origin s))"
  by (rule keepsD) (rule conjunct1 [OF effect_dispatch [unfolded effect_ok_def]])

lemma dispatch_keeps_cell: "c \<notin> writes_of call \<Longrightarrow> same_cell c s (snd (runtime_dispatch ctx call origin s))"
  and dispatch_keeps_account: "a \<notin> signers origin \<Longrightarrow> same_account s (snd (runtime_dispatch ctx call origin s)) a"
  using dispatch_effect [of call origin s ctx] unfolding effect_rel_def by blast+

section \<open>The calls of others\<close>

text \<open>A dispatch that the account \<open>a\<close> did not sign.\<close>

inductive foreign_step ::
  "'acct \<Rightarrow> 'r block_context set \<Rightarrow> ('acct, 'z) garble_scheme \<Rightarrow> ('acct, 'z) garble_scheme \<Rightarrow> bool"
  for a ctxs where
  foreign: "ctx \<in> ctxs \<Longrightarrow> a \<notin> signers origin \<Longrightarrow> foreign_step a ctxs s (snd (runtime_dispatch ctx call origin s))"

inductive_cases foreign_stepE: "foreign_step a ctxs s t"

interpretation foreign_invariant: step_invariant "foreign_step a ctxs" "\<lambda>t. same_account s t a" for a ctxs s
proof
  fix t u
  assume st: "same_account s t a" and tu: "foreign_step a ctxs t u"
  from tu obtain ctx :: "'b block_context" and origin call where o: "a \<notin> signers origin" and u: "u = snd (runtime_dispatch ctx call origin t)"
    by (auto elim!: foreign_stepE)
  have "same_account t u a"
    unfolding u using o by (rule dispatch_keeps_account)
  with st show "same_account s u a" by (simp add: same_account_def)
qed

text \<open>A computation whose exit does not depend on the state, and that leaves the state as it is.\<close>

definition state_free :: "('s, 'e, 'a) rust \<Rightarrow> bool" where
  "state_free m \<longleftrightarrow> (\<exists>r. \<forall>s. m s = (r, s))"

lemma state_free_basic:
  "state_free (ret x)" "state_free (panic_with p)" "state_free (expect msg z)" "state_free (unwrap msg z)"
  by (auto simp: state_free_def expect_def unwrap_def ret_def panic_with_def split: option.splits)

lemma state_free_rbind: "state_free m \<Longrightarrow> (\<And>x. state_free (f x)) \<Longrightarrow> state_free (rbind m f)"
  unfolding state_free_def rbind_def
  by (erule exE, rename_tac r, case_tac r) auto

lemma state_free_log: "state_free m \<Longrightarrow> state_free (log_info b m)"
  by (cases b) (simp_all add: state_free_basic)

lemma state_free_map_collect: "(\<And>x. state_free (f x)) \<Longrightarrow> state_free (map_collect f xs)"
  by (induction xs) (simp_all add: state_free_basic state_free_rbind)

text \<open>What follows such a part sees the same value in both states.\<close>

lemma same_exit_after:
  assumes "state_free m" "\<And>x. fst (f x s) = fst (f x t)"
  shows "fst (rbind m f s) = fst (rbind m f t)"
proof -
  from assms(1) obtain r where "\<And>s. m s = (r, s)" unfolding state_free_def by blast
  with assms(2) show ?thesis by (cases r) (simp_all add: rbind_def)
qed

lemma check_input_depends_on_entry:
  fixes s t :: "('acct, 'z) txval_scheme"
  assumes "\<And>cid. circuit_server_metadata_map t (who, cid) = circuit_server_metadata_map s (who, cid)"
  shows "fst (check_input lg (SignedOrigin who) cid input t) = fst (check_input lg (SignedOrigin who) cid input s)"
  unfolding check_input_def ensure_signed_Signed rbind_ret
  by (rule same_exit_after, rule state_free_basic, simp only: rbind_gets assms)
    (intro same_exit_after state_free_basic state_free_map_collect state_free_log state_free_rbind, simp)

section \<open>Properties\<close>

text \<open>C7: A dispatch writes no storage item outside its call's signature, deposits no event but those the call
  is for (and reports no account but its signer), returns no error but those the call can return, and changes
  no entry of an account other than its signer: so only the four requests ask the node for a job, only the
  package callback changes the reference package, and only a registration, a validation entry or a strip
  callback touch what is kept per account.\<close>

theorem calls_respect_their_effects:
  assumes "runtime_dispatch ctx call origin s = (r, t)"
  shows "(\<forall>c. c \<notin> writes_of call \<longrightarrow> same_cell c s t)
    \<and> (\<exists>es. events t = events s @ es \<and> list_all (emits call (signers origin)) es)
    \<and> (\<forall>e. r = Err e \<longrightarrow> e \<in> errors_of call)
    \<and> (\<forall>a. a \<notin> signers origin \<longrightarrow> same_account s t a)"
proof -
  have "effect_rel (writes_of call) (emits call (signers origin)) (signers origin) s t"
    using dispatch_effect [of call origin s ctx] assms by simp
  moreover have "\<forall>e. r = Err e \<longrightarrow> e \<in> errors_of call"
    using effect_dispatch [of call origin ctx] assms unfolding effect_ok_def by (metis fst_conv)
  ultimately show ?thesis unfolding effect_rel_def by blast
qed

theorem calls_respect_their_effects_witness:
  "same_cell PendingCell (garble_genesis :: nat garble)
     (snd (runtime_dispatch demo_context (TxValidation (store_metadata_call [1] [2] [3])) (SignedOrigin 7) garble_genesis))"
proof -
  let ?call = "TxValidation (store_metadata_call [1] [2] [3])"
  let ?m = "runtime_dispatch demo_context ?call (SignedOrigin 7) (garble_genesis :: nat garble)"
  have "?m = (fst ?m, snd ?m)" by (rule prod.collapse [symmetric])
  from conjunct1 [OF calls_respect_their_effects [OF this]]
  have "PendingCell \<notin> writes_of ?call \<longrightarrow> same_cell PendingCell garble_genesis (snd ?m)" by (rule spec)
  then show ?thesis by (rule mp) simp
qed

text \<open>C6: Whatever calls others make, in any order, an account's registered key, its validation entries and its
  pending circuits stay as they are, and a code typed by that account is judged as before: nobody can make
  another account's confirmation pass or fail, or fill another account's list of pending circuits.\<close>

theorem accounts_are_isolated:
  assumes "(foreign_step a ctxs)\<^sup>*\<^sup>* s t"
  shows "mobile_registry_map t a = mobile_registry_map s a
    \<and> get_pending_circuits_for_account t a = get_pending_circuits_for_account s a
    \<and> circuit_server_metadata_map t (a, cid) = circuit_server_metadata_map s (a, cid)
    \<and> fst (check_input lg (SignedOrigin a) cid input t) = fst (check_input lg (SignedOrigin a) cid input s)"
proof -
  have "same_account s t a"
    by (rule foreign_invariant.inv_run [OF assms]) (simp add: same_account_def)
  then show ?thesis
    by (auto simp: same_account_def get_pending_circuits_for_account_def intro: check_input_depends_on_entry)
qed

theorem accounts_are_isolated_witness:
  "fst (check_input True (SignedOrigin (1 :: nat)) [1] [52]
     (snd (runtime_dispatch demo_context (TxValidation (store_metadata_call [1] [2] [3])) (SignedOrigin 7) garble_genesis)))
   = fst (check_input True (SignedOrigin (1 :: nat)) [1] [52] garble_genesis)"
proof -
  have "(foreign_step 1 {demo_context})\<^sup>*\<^sup>* garble_genesis
     (snd (runtime_dispatch demo_context (TxValidation (store_metadata_call [1] [2] [3])) (SignedOrigin (7 :: nat)) garble_genesis))"
    by (intro r_into_rtranclp foreign) (simp_all add: signers_def signed_by_def)
  from accounts_are_isolated [OF this, of "[1]" True "[52]"] show ?thesis by (elim conjE)
qed

end
