(* ===== verification/Runtime_Invariant.thy ===== *)
theory Runtime_Invariant
  imports Effects
begin

text \<open>
  What holds of the runtime's state after any calls, in any order, from any origins and with any exits:
  every stored key, entry, package and pending list is within its bounds. Each part of the invariant is
  checked for the calls that write its storage item; the signatures of \<open>Effects\<close> do the rest.
\<close>

section \<open>The invariant of the runtime's state\<close>

text \<open>Every stored key is valid, and every bounded vector is within its bound.\<close>

definition pending_inv :: "('acct, 'z) garble_scheme \<Rightarrow> bool" where
  "pending_inv s \<longleftrightarrow> (\<forall>a. length (get_pending_circuits_for_account s a) \<le> MAX_NUMBER_PENDING_CIRCUITS_PER_ACCOUNT
     \<and> list_all stripped_ok (get_pending_circuits_for_account s a))"

definition runtime_inv :: "('acct, 'z) garble_scheme \<Rightarrow> bool" where
  "runtime_inv s \<longleftrightarrow> mobile_inv s \<and> txval_inv s \<and> circuits_inv s \<and> pending_inv s"

subsection \<open>Each invariant under each call\<close>

lemma inv_fields:
  "mobile_registry_map t = mobile_registry_map s \<Longrightarrow> mobile_inv t = mobile_inv s"
  "circuit_server_metadata_map t = circuit_server_metadata_map s \<Longrightarrow> txval_inv t = txval_inv s"
  "display_skcd_package_value t = display_skcd_package_value s \<Longrightarrow> circuits_inv t = circuits_inv s"
  "account_to_pending_circuits_map t = account_to_pending_circuits_map s \<Longrightarrow> pending_inv t = pending_inv s"
  by (simp_all add: mobile_inv_def txval_inv_def circuits_inv_def pending_inv_def get_pending_circuits_for_account_def)

text \<open>A call that does not write the item keeps the invariant on it, by its signature.\<close>

lemma dispatch_mobile_inv:
  assumes "mobile_inv s"
  shows "mobile_inv (snd (runtime_dispatch ctx call origin s))"
proof (cases "MobileCell \<in> writes_of call")
  case True
  then obtain k where "call = MobileRegistry (register_mobile_call k)"
    by (cases call rule: writes_of.cases) auto
  with assms show ?thesis by (simp add: register_mobile_keeps_inv)
next
  case False
  with assms show ?thesis
    by (simp only: inv_fields(1) [OF dispatch_keeps_cell [OF False, unfolded same_cell.simps]])
qed

lemma strip_callback_keeps_txval_inv:
  assumes "txval_inv s"
  shows "txval_inv (snd (callback_new_garbled_and_strip_signed lg origin mg mp md pg pp pd s))"
proof -
  let ?P = "\<lambda>s t :: ('a, 'b) garble_scheme. txval_inv s \<longrightarrow> txval_inv t"
  have "txval_inv (snd (store_metadata_aux origin mg md pd u))" if "txval_inv u" for u :: "('a, 'b) garble_scheme"
    using store_metadata_keeps_inv [OF that, of origin mg md pd] by (simp add: store_metadata_def)
  then have s: "keeps ?P (store_metadata_aux origin mg md pd)"
    by (simp add: keeps_def)
  have d: "keeps ?P (deposit_event e)" for e
    by (simp add: deposit_event_def keeps_def txval_inv_def)
  have "keeps ?P (callback_new_garbled_and_strip_signed lg origin mg mp md pg pp pd)"
    unfolding callback_new_garbled_and_strip_signed_def
    by (intro invariant_rel.kept_rbind invariant_rel.kept_signed keeps_attempt s d;
        ((rule keeps_modify, simp add: txval_inv_def) | intro invariant_rel.kept_quiet quiet_intros))
  from keepsD [OF this, of s] assms show ?thesis by simp
qed

lemma dispatch_txval_inv:
  assumes "txval_inv s"
  shows "txval_inv (snd (runtime_dispatch ctx call origin s))"
proof (cases "MetadataCell \<in> writes_of call")
  case True
  then consider (store) cid msg pin where "call = TxValidation (store_metadata_call cid msg pin)"
    | (callback) mg mp md pg pp pd where "call = OcwGarble (callback_new_garbled_and_strip_signed_call mg mp md pg pp pd)"
    by (cases call rule: writes_of.cases) auto
  then show ?thesis
    by cases (use assms in \<open>simp_all add: store_metadata_keeps_inv strip_callback_keeps_txval_inv\<close>)
next
  case False
  with assms show ?thesis
    by (simp only: inv_fields(2) [OF dispatch_keeps_cell [OF False, unfolded same_cell.simps]])
qed

lemma package_callback_keeps_inv:
  assumes "circuits_inv s"
  shows "circuits_inv (snd (callback_new_display_circuits_package_signed lg origin m mn p pn s))"
proof (cases "signed_by origin")
  case None
  with assms package_callback.rejects [OF None, of lg m mn p pn s] show ?thesis by simp
next
  case (Some who)
  then have o: "origin = SignedOrigin who" by (cases origin) (simp_all add: signed_by_def)
  have "circuits_inv t" if c: "callback_new_display_circuits_package_signed lg (SignedOrigin who) m mn p pn s = (r, t)" for r t
    using package_callback_cases [OF c] assms by (auto simp: circuits_inv_def)
  then show ?thesis unfolding o by (metis prod.collapse)
qed

lemma dispatch_circuits_inv:
  assumes "circuits_inv s"
  shows "circuits_inv (snd (runtime_dispatch ctx call origin s))"
proof (cases "PackageCell \<in> writes_of call")
  case True
  then obtain m mn p pn where "call = OcwCircuits (callback_new_display_circuits_package_signed_call m mn p pn)"
    by (cases call rule: writes_of.cases) auto
  with assms show ?thesis by (simp add: package_callback_keeps_inv)
next
  case False
  with assms show ?thesis
    by (simp only: inv_fields(3) [OF dispatch_keeps_cell [OF False, unfolded same_cell.simps]])
qed

lemma strip_callback_keeps_pending_inv:
  assumes "pending_inv s"
  shows "pending_inv (snd (callback_new_garbled_and_strip_signed lg origin mg mp md pg pp pd s))"
proof (cases "signed_by origin")
  case None
  with assms strip_callback.rejects [OF None, of lg mg mp md pg pp pd s] show ?thesis by simp
next
  case (Some who)
  then have o: "origin = SignedOrigin who" by (cases origin) (simp_all add: signed_by_def)
  have "pending_inv t" if c: "callback_new_garbled_and_strip_signed lg (SignedOrigin who) mg mp md pg pp pd s = (r, t)" for r t
    using strip_callback_pending [OF c] assms
    by (auto simp: pending_inv_def get_pending_circuits_for_account_def MAX_NUMBER_PENDING_CIRCUITS_PER_ACCOUNT_def)
  then show ?thesis unfolding o by (metis prod.collapse)
qed

lemma dispatch_pending_inv:
  assumes "pending_inv s"
  shows "pending_inv (snd (runtime_dispatch ctx call origin s))"
proof (cases "PendingCell \<in> writes_of call")
  case True
  then obtain mg mp md pg pp pd where "call = OcwGarble (callback_new_garbled_and_strip_signed_call mg mp md pg pp pd)"
    by (cases call rule: writes_of.cases) auto
  with assms show ?thesis by (simp add: strip_callback_keeps_pending_inv)
next
  case False
  with assms show ?thesis
    by (simp only: inv_fields(4) [OF dispatch_keeps_cell [OF False, unfolded same_cell.simps]])
qed

section \<open>Any calls in any order\<close>

text \<open>One dispatch, in the context of some block.\<close>

inductive runtime_step ::
  "'r block_context set \<Rightarrow> ('acct, 'z) garble_scheme \<Rightarrow> ('acct, 'z) garble_scheme \<Rightarrow> bool"
  for ctxs where
  dispatch: "ctx \<in> ctxs \<Longrightarrow> runtime_step ctxs s (snd (runtime_dispatch ctx call origin s))"

inductive_cases runtime_stepE: "runtime_step ctxs s t"

interpretation runtime_invariant: step_invariant "runtime_step ctxs" runtime_inv for ctxs
  by unfold_locales
    (auto simp: runtime_inv_def dispatch_mobile_inv dispatch_txval_inv dispatch_circuits_inv dispatch_pending_inv
      elim!: runtime_stepE)

section \<open>Properties\<close>

text \<open>C12: Whatever calls the runtime dispatches, in any order, from any origins and with any exits, every stored
  mobile key has 32 to 256 bytes, every validation entry and the reference package stay within their bounds,
  and every pending list holds at most sixteen entries, each within its bounds.\<close>

theorem runtime_state_stays_bounded:
  assumes "runtime_inv s" "(runtime_step ctxs)\<^sup>*\<^sup>* s t"
  shows "(mobile_registry_map t who = Some k \<longrightarrow> 32 \<le> length (pub_key k) \<and> length (pub_key k) \<le> 256)
    \<and> (circuit_server_metadata_map t (who, cid) = Some pkg \<longrightarrow>
         length cid \<le> 64 \<and> length (message_digits pkg) \<le> 10 \<and> length (pinpad_digits pkg) \<le> 10)
    \<and> length (message_skcd_cid (display_skcd_package_value t)) \<le> 64
    \<and> length (pinpad_skcd_cid (display_skcd_package_value t)) \<le> 64
    \<and> length (get_pending_circuits_for_account t who) \<le> 16
    \<and> (\<forall>x \<in> set (get_pending_circuits_for_account t who). stripped_ok x)"
proof -
  from runtime_invariant.inv_run [OF assms(2,1)] have "runtime_inv t" .
  then show ?thesis
    by (auto simp: runtime_inv_def mobile_inv_def txval_inv_def circuits_inv_def pending_inv_def MAX_PUB_KEY_LEN_def
        MAX_NUMBER_PENDING_CIRCUITS_PER_ACCOUNT_def list_all_iff)
qed

lemma garble_genesis_inv: "runtime_inv garble_genesis"
  by (simp add: runtime_inv_def mobile_inv_def txval_inv_def circuits_inv_def pending_inv_def garble_genesis_def
      default_display_skcd_package_def get_pending_circuits_for_account_def)

theorem runtime_state_stays_bounded_witness:
  "length (get_pending_circuits_for_account (snd (runtime_dispatch demo_context
     (OcwGarble (callback_new_garbled_and_strip_signed_call [81] [82] [3, 4] [83] [84] [4, 5])) (SignedOrigin (42 :: nat))
     garble_genesis)) 42) \<le> 16"
proof -
  let ?call = "OcwGarble (callback_new_garbled_and_strip_signed_call [81] [82] [3, 4] [83] [84] [4, 5])"
  have "(runtime_step {demo_context})\<^sup>*\<^sup>* garble_genesis
      (snd (runtime_dispatch demo_context ?call (SignedOrigin (42 :: nat)) garble_genesis))"
    by (intro r_into_rtranclp runtime_step.dispatch) simp
  from runtime_state_stays_bounded [OF garble_genesis_inv this]
  show ?thesis by blast
qed

text \<open>No call of the four pallets has any effect without a signed origin: root and unsigned origins get
  BadOrigin and the state does not change; and the pool rejects every unsigned call of the worker pallets.\<close>

lemma only_signed_calls_act:
  assumes "origin = RootOrigin \<or> origin = NoneOrigin"
  shows "runtime_dispatch ctx call origin s = (Err BadOrigin, s)
    \<and> circuits_validate_unsigned source ccall = InvalidCall \<and> garble_validate_unsigned source gcall = InvalidCall"
proof -
  have n: "signed_by origin = None" using assms by (auto simp: signed_by_def)
  have "runtime_dispatch ctx call origin s = (Err BadOrigin, s)"
  proof (cases "(ctx, call, origin)" rule: runtime_dispatch.cases)
    case (2 ctx c origin)
    with n show ?thesis
      by (cases c) (simp_all add: map_err_def generic_call.rejects display_call.rejects skcd_callback.rejects package_callback.rejects)
  next
    case (3 ctx c origin)
    with n show ?thesis
      by (cases c) (simp_all add: map_err_def standard_call.rejects strip_call.rejects garbled_callback.rejects strip_callback.rejects)
  qed (use n in \<open>simp_all add: map_err_def mobile_call.rejects store_call.rejects check_call.rejects\<close>)
  then show ?thesis by (simp add: circuits_validate_unsigned_def garble_validate_unsigned_def)
qed

lemma only_signed_calls_act_witness:
  "runtime_dispatch demo_context (OcwCircuits (callback_new_display_circuits_package_signed_call [1] 2 [3] 4)) RootOrigin
     (garble_genesis :: nat garble) = (Err BadOrigin, garble_genesis)"
  by (rule conjunct1 [OF only_signed_calls_act]) simp

end
