(* ===== verification/Call_Weights.thy ===== *)
theory Call_Weights
  imports Effects
begin

text \<open>
  The weights that the calls declare (\<open>#[pallet::weight]\<close>) beside what the calls write. A weight is a 64 bit
  number; \<open>db_writes n\<close> is \<open>T::DbWeight::get().writes(n)\<close>, the library's price of \<open>n\<close> writes to the database.
\<close>

section \<open>Declared weights\<close>

fun mobile_call_weight :: "(u64 \<Rightarrow> u64) \<Rightarrow> mobile_call \<Rightarrow> u64" where
  "mobile_call_weight db_writes (register_mobile_call k) = 10000 + db_writes 1"

fun tx_call_weight :: "(u64 \<Rightarrow> u64) \<Rightarrow> tx_call \<Rightarrow> u64" where
  "tx_call_weight db_writes (store_metadata_call cid msg pin) = 10000 + db_writes 1"
| "tx_call_weight db_writes (check_input_call cid input) = 10000 + db_writes 1"

fun circuits_call_weight :: "circuits_call \<Rightarrow> u64" where
  "circuits_call_weight (submit_config_generic_signed_call v) = 10000"
| "circuits_call_weight submit_config_display_circuits_package_signed_call = 10000"
| "circuits_call_weight (callback_new_skcd_signed_call v) = 10000"
| "circuits_call_weight (callback_new_display_circuits_package_signed_call m mn p pn) = 10000"

fun garble_call_weight :: "garble_call \<Rightarrow> u64" where
  "garble_call_weight (garble_standard_signed_call v) = 10000"
| "garble_call_weight (garble_and_strip_display_circuits_package_signed_call tx) = 10000"
| "garble_call_weight (callback_new_garbled_signed_call v) = 10000"
| "garble_call_weight (callback_new_garbled_and_strip_signed_call mg mp md pg pp pd) = 10000"

text \<open>The weight of a call of the runtime is that of the pallet's call.\<close>

fun call_weight :: "(u64 \<Rightarrow> u64) \<Rightarrow> runtime_call \<Rightarrow> u64" where
  "call_weight db_writes (MobileRegistry c) = mobile_call_weight db_writes c"
| "call_weight db_writes (OcwCircuits c) = circuits_call_weight c"
| "call_weight db_writes (OcwGarble c) = garble_call_weight c"
| "call_weight db_writes (TxValidation c) = tx_call_weight db_writes c"

section \<open>What is written\<close>

text \<open>
  The storage items of the chain that a dispatch has changed; off-chain index writes are not among them. A
  weight covers them when it is at least the base weight of all calls and the price of one write for each.
\<close>

definition changed_items :: "('acct, 'z) garble_scheme \<Rightarrow> ('acct, 'z) garble_scheme \<Rightarrow> cell set" where
  "changed_items s t = {c. c \<noteq> IndexWritesCell \<and> \<not> same_cell c s t}"

definition covers_writes :: "(u64 \<Rightarrow> u64) \<Rightarrow> u64 \<Rightarrow> ('acct, 'z) garble_scheme \<Rightarrow> ('acct, 'z) garble_scheme \<Rightarrow> bool" where
  "covers_writes db_writes w s t \<longleftrightarrow> 10000 + unat (db_writes 1) * card (changed_items s t) \<le> unat w"

instance cell :: finite
proof
  have "(UNIV :: cell set) = {MobileCell, MetadataCell, PackageCell, PendingCell, NonceCell, IndexWritesCell}"
    using cell.exhaust by blast
  then show "finite (UNIV :: cell set)" by (rule ssubst) simp
qed

lemma changed_items_written:
  "changed_items s (snd (runtime_dispatch ctx call origin s)) \<subseteq> writes_of call - {IndexWritesCell}"
  using dispatch_keeps_cell [of _ call s ctx origin] by (auto simp: changed_items_def)

lemma base_weight_sum:
  fixes x :: u64
  assumes "unat x + 10000 < 2 ^ 64"
  shows "unat (10000 + x) = 10000 + unat x"
proof -
  have "unat (10000 :: u64) = 10000" by (rule unat_numeral [THEN trans]) simp
  moreover have "LENGTH(64) = 64" by simp
  ultimately show ?thesis
    using assms iffD1 [OF unat_add_lem [of "10000 :: u64" x]] by (simp only: add.commute)
qed

lemma one_item_covered:
  assumes few: "card (changed_items s t) \<le> 1" and price: "unat (db_writes 1) + 10000 < 2 ^ 64"
  shows "covers_writes db_writes (10000 + db_writes 1) s t"
proof -
  from few have "unat (db_writes 1) * card (changed_items s t) \<le> unat (db_writes 1) * 1" by (rule mult_le_mono2)
  moreover from price have "unat (10000 + db_writes 1) = 10000 + unat (db_writes 1)" by (rule base_weight_sum)
  ultimately show ?thesis unfolding covers_writes_def by (simp only: nat_mult_1_right add_le_cancel_left)
qed

lemma base_weight_covers_iff:
  "covers_writes db_writes 10000 s t \<longleftrightarrow> unat (db_writes 1) = 0 \<or> changed_items s t = {}"
  by (simp add: covers_writes_def card_eq_0_iff)

lemma mobile_weight_eq: "call_weight db_writes (MobileRegistry c) = 10000 + db_writes 1"
  and txval_weight_eq: "call_weight db_writes (TxValidation d) = 10000 + db_writes 1"
  by (simp_all, (cases c; cases d; simp)+)

lemma circuits_weight_eq: "call_weight db_writes (OcwCircuits c) = 10000"
  by (cases c) simp_all

lemma garble_weight_eq: "call_weight db_writes (OcwGarble c) = 10000"
  by (cases c) simp_all

lemmas own_call_weight = mobile_weight_eq txval_weight_eq circuits_weight_eq garble_weight_eq

lemma one_item_written:
  assumes "writes_of call \<subseteq> {x}"
  shows "card (changed_items s (snd (runtime_dispatch ctx call origin s))) \<le> 1"
proof -
  have "changed_items s (snd (runtime_dispatch ctx call origin s)) \<subseteq> {x}"
    using changed_items_written [of s ctx call origin] assms by blast
  from card_mono [OF _ this] show ?thesis by simp
qed

lemma registry_writes_one: "writes_of (MobileRegistry c) \<subseteq> {MobileCell}"
  and txval_writes_one: "writes_of (TxValidation d) \<subseteq> {MetadataCell}"
  by (cases c, simp) (cases d; simp)

section \<open>Properties\<close>

text \<open>A callback for display circuits that goes through has changed the list of pending circuits.\<close>

lemma strip_callback_changes:
  assumes "callback_new_garbled_and_strip_signed lg origin mg mp md pg pp pd s = (Ret (), t)"
  shows "PendingCell \<in> changed_items s t"
proof (cases origin)
  case (SignedOrigin who)
  with assms have c: "callback_new_garbled_and_strip_signed lg (SignedOrigin who) mg mp md pg pp pd s = (Ret (), t)" by simp
  then have "get_pending_circuits_for_account t who \<noteq> get_pending_circuits_for_account s who"
    by (cases rule: strip_callback_cases) (simp_all add: pending_insert_def get_pending_circuits_for_account_def)
  then show ?thesis by (auto simp: changed_items_def get_pending_circuits_for_account_def)
qed (use assms in \<open>simp_all add: callback_new_garbled_and_strip_signed_def\<close>)



end
