(* ===== verification/Runtime_Api.thy ===== *)
theory Runtime_Api
  imports Runtime_Config
begin

text \<open>
  The runtime as the node calls it: the APIs of \<open>impl_runtime_apis!\<close> (\<open>runtime/src/lib.rs\<close>) over the
  library that answers them, and the executor of \<open>node/src/service.rs\<close>, which says when a node runs the
  runtime it was built with instead of the one on the chain.
\<close>

section \<open>The APIs\<close>

text \<open>
  What the library answers with: the executive, the pallets' functions and the inherents. \<open>'s\<close> is the
  state that the API is called on, \<open>'v\<close> stands for the values that pass through unseen (sources, hashes,
  accounts, inherent data, proofs, validity and outcome of a transaction, fees).
\<close>

record ('s, 'block, 'header, 'xt, 'v) api_library =
  executive_execute_block :: "'block \<Rightarrow> 's \<Rightarrow> 's"
  executive_initialize_block :: "'header \<Rightarrow> 's \<Rightarrow> 's"
  runtime_metadata :: 'v
  executive_apply_extrinsic :: "'xt \<Rightarrow> 's \<Rightarrow> 'v \<times> 's"
  executive_finalize_block :: "'s \<Rightarrow> 'header \<times> 's"
  create_extrinsics :: "'v \<Rightarrow> 's \<Rightarrow> 'xt list"
  check_extrinsics :: "'v \<Rightarrow> 'block \<Rightarrow> 's \<Rightarrow> 'v"
  executive_validate_transaction :: "'v \<Rightarrow> 'xt \<Rightarrow> 'v \<Rightarrow> 's \<Rightarrow> 'v \<times> 's"
  executive_offchain_worker :: "'header \<Rightarrow> 's \<Rightarrow> 's"
  aura_slot_duration :: "u64 \<Rightarrow> u64"
  aura_authority_list :: "'s \<Rightarrow> 'v list"
  generate_keys :: "bytes option \<Rightarrow> 's \<Rightarrow> bytes \<times> 's"
  decode_into_raw_public_keys :: "bytes \<Rightarrow> (bytes \<times> bytes) list option"
  grandpa_authority_list :: "'s \<Rightarrow> ('v \<times> u64) list"
  grandpa_set_id :: "'s \<Rightarrow> u64"
  system_account_nonce :: "'v \<Rightarrow> 's \<Rightarrow> u32"
  payment_query_info :: "'xt \<Rightarrow> u32 \<Rightarrow> 's \<Rightarrow> 'v"
  payment_query_fee_details :: "'xt \<Rightarrow> u32 \<Rightarrow> 's \<Rightarrow> 'v"

datatype ('block, 'header, 'xt, 'v) api_call =
    Core_version
  | Core_execute_block 'block
  | Core_initialize_block 'header
  | Metadata_metadata
  | BlockBuilder_apply_extrinsic 'xt
  | BlockBuilder_finalize_block
  | BlockBuilder_inherent_extrinsics 'v
  | BlockBuilder_check_inherents 'block 'v
  | TaggedTransactionQueue_validate_transaction 'v 'xt 'v
  | OffchainWorkerApi_offchain_worker 'header
  | AuraApi_slot_duration
  | AuraApi_authorities
  | SessionKeys_generate_session_keys "bytes option"
  | SessionKeys_decode_session_keys bytes
  | GrandpaApi_grandpa_authorities
  | GrandpaApi_current_set_id
  | GrandpaApi_submit_report_equivocation_unsigned_extrinsic 'v 'v
  | GrandpaApi_generate_key_ownership_proof u64 'v
  | AccountNonceApi_account_nonce 'v
  | TransactionPaymentApi_query_info 'xt u32
  | TransactionPaymentApi_query_fee_details 'xt u32

datatype ('header, 'xt, 'v) api_result =
    VersionIs runtime_version | Done | Value 'v | HeaderIs 'header | Extrinsics "'xt list" | SlotDuration u64
  | Authorities "'v list" | SessionKeysEncoded bytes | SessionKeysRaw "(bytes \<times> bytes) list option"
  | WeightedAuthorities "('v \<times> u64) list" | SetId u64 | Reported "unit option" | OwnershipProof "'v option" | AccountNonce u32

fun runtime_api ::
  "('s, 'block, 'header, 'xt, 'v) api_library \<Rightarrow> ('block, 'header, 'xt, 'v) api_call \<Rightarrow> 's \<Rightarrow> ('header, 'xt, 'v) api_result \<times> 's" where
  "runtime_api lib Core_version s = (VersionIs VERSION, s)"
| "runtime_api lib (Core_execute_block block) s = (Done, executive_execute_block lib block s)"
| "runtime_api lib (Core_initialize_block header) s = (Done, executive_initialize_block lib header s)"
| "runtime_api lib Metadata_metadata s = (Value (runtime_metadata lib), s)"
| "runtime_api lib (BlockBuilder_apply_extrinsic xt) s = apfst Value (executive_apply_extrinsic lib xt s)"
| "runtime_api lib BlockBuilder_finalize_block s = apfst HeaderIs (executive_finalize_block lib s)"
| "runtime_api lib (BlockBuilder_inherent_extrinsics data) s = (Extrinsics (create_extrinsics lib data s), s)"
| "runtime_api lib (BlockBuilder_check_inherents block data) s = (Value (check_extrinsics lib data block s), s)"
| "runtime_api lib (TaggedTransactionQueue_validate_transaction source tx block_hash) s =
     apfst Value (executive_validate_transaction lib source tx block_hash s)"
| "runtime_api lib (OffchainWorkerApi_offchain_worker header) s = (Done, executive_offchain_worker lib header s)"
| "runtime_api lib AuraApi_slot_duration s = (SlotDuration (api_slot_duration (aura_slot_duration lib)), s)"
| "runtime_api lib AuraApi_authorities s = (Authorities (aura_authority_list lib s), s)"
| "runtime_api lib (SessionKeys_generate_session_keys seed) s = apfst SessionKeysEncoded (generate_keys lib seed s)"
| "runtime_api lib (SessionKeys_decode_session_keys encoded) s = (SessionKeysRaw (decode_into_raw_public_keys lib encoded), s)"
| "runtime_api lib GrandpaApi_grandpa_authorities s = (WeightedAuthorities (grandpa_authority_list lib s), s)"
| "runtime_api lib GrandpaApi_current_set_id s = (SetId (grandpa_set_id lib s), s)"
| "runtime_api lib (GrandpaApi_submit_report_equivocation_unsigned_extrinsic equivocation_proof key_owner_proof) s =
     (Reported (submit_report_equivocation_unsigned_extrinsic equivocation_proof key_owner_proof), s)"
| "runtime_api lib (GrandpaApi_generate_key_ownership_proof set_id authority_id) s =
     (OwnershipProof (generate_key_ownership_proof set_id authority_id), s)"
| "runtime_api lib (AccountNonceApi_account_nonce account) s = (AccountNonce (system_account_nonce lib account s), s)"
| "runtime_api lib (TransactionPaymentApi_query_info uxt len) s = (Value (payment_query_info lib uxt len s), s)"
| "runtime_api lib (TransactionPaymentApi_query_fee_details uxt len) s = (Value (payment_query_fee_details lib uxt len s), s)"

section \<open>Which build runs\<close>

text \<open>
  \<open>ExecutorDispatch\<close>: the native runtime that the node was built with. A node runs it instead of the chain's
  Wasm only if name, specification version and authoring version of the two agree (the comment at
  \<open>VERSION\<close>).
\<close>

definition executor_native_version :: native_version where
  "executor_native_version = runtime_native_version"

definition same_runtime :: "runtime_version \<Rightarrow> runtime_version \<Rightarrow> bool" where
  "same_runtime v w \<longleftrightarrow> rt_spec_name v = rt_spec_name w \<and> spec_version v = spec_version w \<and> authoring_version v = authoring_version w"

definition native_only_if_same :: "(runtime_version \<Rightarrow> bool) \<Rightarrow> bool" where
  "native_only_if_same uses_native \<longleftrightarrow> (\<forall>v. uses_native v \<longrightarrow> same_runtime (native_runtime_version executor_native_version) v)"

text \<open>On a chain that still has the version of this source, the native build may be used.\<close>

lemma same_source_is_native:
  "runtime_api lib Core_version s = (VersionIs v, t) \<Longrightarrow> same_runtime (native_runtime_version executor_native_version) v"
  by (auto simp: same_runtime_def executor_native_version_def runtime_native_version_def)

section \<open>APIs of build features\<close>

text \<open>
  With \<open>try-runtime\<close>: an upgrade of the state whose failure is a panic, and the execution of a block without
  its checks. The weight and the limit of a block come from the library.
\<close>

definition try_on_runtime_upgrade :: "('s, 'e, u64) rust \<Rightarrow> u64 \<Rightarrow> ('s, 'f, u64 \<times> u64) rust" where
  "try_on_runtime_upgrade try_runtime_upgrade max_block =
     rbind (attempt try_runtime_upgrade) (\<lambda>result.
     rbind (case result of Inr weight \<Rightarrow> ret weight | Inl e \<Rightarrow> panic_with (Unwrap ''try_runtime_upgrade'')) (\<lambda>weight.
     ret (weight, max_block)))"

definition try_execute_block_no_check :: "('block \<Rightarrow> 's \<Rightarrow> u64 \<times> 's) \<Rightarrow> 'block \<Rightarrow> 's \<Rightarrow> u64 \<times> 's" where
  "try_execute_block_no_check executive_execute_block_no_check block = executive_execute_block_no_check block"

lemma try_upgrade_error_panics:
  "try_runtime_upgrade s = (Err e, t) \<Longrightarrow>
   try_on_runtime_upgrade try_runtime_upgrade max_block s = (Panic (Unwrap ''try_runtime_upgrade''), t)"
  by (simp add: try_on_runtime_upgrade_def rbind_Ret [OF attempt_Err])

text \<open>
  With \<open>runtime-benchmarks\<close>: the pallets that are measured, the storage keys that are not counted (in
  hexadecimal), and the two calls of the library's macros with them.
\<close>

definition benchmark_list :: "(string \<times> string) list" where
  "benchmark_list = [(''frame_benchmarking'', ''BaselineBench::<Runtime>''), (''frame_system'', ''SystemBench::<Runtime>''),
     (''pallet_balances'', ''Balances''), (''pallet_timestamp'', ''Timestamp''), (''pallet_ocw_circuits'', ''OcwCircuits''),
     (''pallet_ocw_garble'', ''OcwGarble'')]"

definition benchmark_whitelist :: "string list" where
  "benchmark_whitelist =
     [''26aa394eea5630e07c48ae0c9558cef702a5c1b19ab7a04f536c519aca4983ac'',
      ''c2261276cc9d1f8598ea4b6a74b15c2f57c875e4cff74148e4628f264b974c80'',
      ''26aa394eea5630e07c48ae0c9558cef7ff553b5a9862a516939d82b3d3d8661a'',
      ''26aa394eea5630e07c48ae0c9558cef70a98fdbe9ce6c55837576c60c7af3850'',
      ''26aa394eea5630e07c48ae0c9558cef780d41e5e16056765bc8461851072c9d7'']"

definition benchmark_metadata :: "((string \<times> string) list \<Rightarrow> bool \<Rightarrow> 'list) \<Rightarrow> 'info \<Rightarrow> bool \<Rightarrow> 'list \<times> 'info" where
  "benchmark_metadata list_benchmarks storage_info extra = (list_benchmarks benchmark_list extra, storage_info)"

definition dispatch_benchmark ::
  "((string \<times> string) list \<Rightarrow> 'config \<times> string list \<Rightarrow> 'error + 'batch list) \<Rightarrow> 'config \<Rightarrow> 'error + 'batch list" where
  "dispatch_benchmark add_benchmarks config = (case add_benchmarks benchmark_list (config, benchmark_whitelist) of
     Inl e \<Rightarrow> Inl e
   | Inr batches \<Rightarrow> Inr batches)"

text \<open>Each key is 32 bytes, all but one under the prefix of the System pallet.\<close>

lemma whitelist_keys:
  "\<forall>k \<in> set benchmark_whitelist. length k = 64"
  "length (filter (\<lambda>k. take 32 k = ''26aa394eea5630e07c48ae0c9558cef7'') benchmark_whitelist) = 4"
  by (simp_all add: benchmark_whitelist_def)

end
