(* ===== verification/Garble_Worker.thy ===== *)
theory Garble_Worker
  imports Garble_Calls
begin

text \<open>
  What the worker of ocw-garble does with a job: every exit of a run, its independence of the circuits
  worker, a complete run of a job for display circuits, and the way of the digits from the request over
  the worker and its callback to check_input.
\<close>

section \<open>Properties of the worker\<close>

text \<open>However a run of the garble worker leaves, it never returns an error. A run that returns has either
  left the job slot and the submitted transactions alone, or emptied the slot and had every local account
  submit the same one callback, or none; a run that panics has emptied the slot and submitted nothing.\<close>

lemma garble_worker_exits:
  "case garble_offchain_worker env cd s of (r, t) \<Rightarrow> (case r of
     Ret _ \<Rightarrow> local_storage t = local_storage s \<and> submitted t = submitted s
       \<or> local_storage t = (local_storage s)(garble_job_key cd := Some (garble_idle_job cd))
         \<and> (submitted t = submitted s \<or> (\<exists>call. submitted t =
              submitted s @ map (\<lambda>a. (a, into_call env call)) (local_accounts env GARB_KEY_TYPE)))
   | Err _ \<Rightarrow> False
   | Panic _ \<Rightarrow> local_storage t = (local_storage s)(garble_job_key cd := Some (garble_idle_job cd))
       \<and> submitted t = submitted s)"
proof -
  obtain r t where r: "garble_process_if_needed env cd s = (r, t)" by fastforce
  from garble_process_exit [OF r] r show ?thesis by (simp add: garble_offchain_worker_eq run_exit_def)
qed

text \<open>The two workers of the runtime do not disturb each other: the keys of their jobs and of their locks
  differ whatever the encoding of the block number, so a run of one leaves the other's job as it was.\<close>

lemma workers_are_independent:
  "circuits_job_key cc \<noteq> garble_job_key gc \<and> CIRC_LOCK_KEY \<noteq> GARB_LOCK_KEY
    \<and> garble_read_job gc (snd (circuits_process_if_needed env cc s)) = garble_read_job gc s
    \<and> circuits_read_job cc (snd (garble_process_if_needed env' gc s')) = circuits_read_job cc s'"
proof -
  have k: "circuits_job_key cc \<noteq> garble_job_key gc"
    by (simp add: circuits_job_key_def garble_job_key_def circuits_derived_key_def garble_derived_key_def
        CIRC_ONCHAIN_TX_KEY_def GARB_ONCHAIN_TX_KEY_def ascii_def byte_of_def)
  moreover have "CIRC_LOCK_KEY \<noteq> GARB_LOCK_KEY"
    by (simp add: CIRC_LOCK_KEY_def GARB_LOCK_KEY_def ascii_def byte_of_def)
  ultimately show ?thesis
    using circuits_slot.other_keys [of "garble_job_key gc" cc env s] garble_slot.other_keys [of "circuits_job_key cc" gc env' s']
    by (simp add: garble_read_job_def circuits_read_job_def storage_get_def garble_job_key_def [symmetric]
        circuits_job_key_def [symmetric])
qed

subsection \<open>From the request to the check\<close>

definition strip_post ::
  "('w, 'p, 'acct, garble_call, 'c) ocw_env \<Rightarrow> garble_codec \<Rightarrow> string \<Rightarrow> bytes \<Rightarrow> bytes \<Rightarrow> bytes \<Rightarrow> 'w \<Rightarrow> http_request" where
  "strip_post env cd root cid tx digits w = grpc_request (http env)
     (frame (the (enc_strip_request cd \<lparr>sreq_skcd_cid = cid, sreq_tx_msg = tx, sreq_digits = Some digits\<rparr>)))
     (root @ API_ENDPOINT_GARBLE_STRIP_URL) w"

text \<open>What the host must do for one of the two requests of a job.\<close>

definition strip_host_ok ::
  "('w, 'p, 'acct, garble_call, 'c) ocw_env \<Rightarrow> garble_codec \<Rightarrow> string \<Rightarrow> bytes \<Rightarrow> bytes \<Rightarrow> bytes \<Rightarrow>
   garble_and_strip_reply \<Rightarrow> 'w \<Rightarrow> 'w \<Rightarrow> bool" where
  "strip_host_ok env cd root cid tx digits reply w w' \<longleftrightarrow> valid_utf8 cid \<and> valid_utf8 tx
     \<and> enc_strip_request cd \<lparr>sreq_skcd_cid = cid, sreq_tx_msg = tx, sreq_digits = Some digits\<rparr> \<noteq> None
     \<and> (\<exists>payload trailer.
          replies (http env) (strip_post env cd root cid tx digits w) w (frame payload @ trailer) w'
          \<and> length payload < 2 ^ 32 \<and> 5 \<le> length trailer \<and> dec_strip_reply cd payload = Some reply)"

lemma call_grpc_strip_one_ok:
  assumes "std_build env" "env_var env ''INTERSTELLAR_URI_ROOT_API_GARBLE'' = Some root"
    and "strip_host_ok env cd root cid tx digits reply (world s) w"
  shows "call_grpc_garble_and_strip_one env cd cid tx digits s =
    (Ret reply, sent_request (strip_post env cd root cid tx digits (world s)) w s)"
proof -
  let ?req = "\<lparr>sreq_skcd_cid = cid, sreq_tx_msg = tx, sreq_digits = Some digits\<rparr>"
  from assms(3) obtain body payload trailer where e: "enc_strip_request cd ?req = Some body"
    and u: "valid_utf8 cid" "valid_utf8 tx"
    and r: "replies (http env) (strip_post env cd root cid tx digits (world s)) (world s) (frame payload @ trailer) w"
    and p: "length payload < 2 ^ 32" "dec_strip_reply cd payload = Some reply" "5 \<le> length trailer"
    by (auto simp: strip_host_ok_def)
  from r e have f: "fetch_from_remote_grpc_web (http env) (frame body) (root @ API_ENDPOINT_GARBLE_STRIP_URL) s =
      (Ret (frame payload @ trailer, GrpcWeb), sent_request (strip_post env cd root cid tx digits (world s)) w s)"
    by (simp add: strip_post_def fetch_replied)
  then have "map_err g (fetch_from_remote_grpc_web (http env) (frame body) (root @ API_ENDPOINT_GARBLE_STRIP_URL)) s =
      (Ret (frame payload @ trailer, GrpcWeb), sent_request (strip_post env cd root cid tx digits (world s)) w s)"
    for g :: "http_error \<Rightarrow> garble_error"
    by (simp add: map_err_def)
  with u show ?thesis
    by (simp add: call_grpc_garble_and_strip_one_def from_utf8_valid rbind_encode [where enc = "enc_strip_request cd", OF e]
        uri_root_std [OF assms(1,2)] Let_def rbind_Ret rbind_decode [where dec = "dec_strip_reply cd", OF p])
qed

lemma strip_job_run:
  assumes "garble_read_job cd s = strip_job mc pc tx msg pin"
    and "lock_acquire env GARB_LOCK_KEY GARB_LOCK_BLOCK_EXPIRATION GARB_LOCK_TIMEOUT_EXPIRATION (world s) = (True, w0)"
    and "std_build env" "env_var env ''INTERSTELLAR_URI_ROOT_API_GARBLE'' = Some root"
    and "strip_host_ok env cd root mc tx msg m w0 w1" "strip_host_ok env cd root pc [] pin p w1 w2"
  shows "garble_offchain_worker env cd s = (Ret (), s\<lparr>
     world := lock_release env GARB_LOCK_KEY w2,
     requests := requests s @ [strip_post env cd root mc tx msg w0, strip_post env cd root pc [] pin w1],
     local_storage := (local_storage s)(garble_job_key cd := Some (garble_idle_job cd)),
     submitted := submitted s @ map (\<lambda>a. (a, into_call env (callback_new_garbled_and_strip_signed_call
       (srep_pgarbled_cid m) (srep_packmsg_cid m) msg (srep_pgarbled_cid p) (srep_packmsg_cid p) pin)))
       (local_accounts env GARB_KEY_TYPE)\<rparr>)"
proof -
  define s1 where "s1 = put_local (garble_job_key cd) (garble_idle_job cd) (s\<lparr>world := w0\<rparr>)"
  define s2 where "s2 = sent_request (strip_post env cd root mc tx msg w0) w1 s1"
  define s3 where "s3 = sent_request (strip_post env cd root pc [] pin w1) w2 s2"
  note one = call_grpc_strip_one_ok [OF assms(3,4)]
  have a: "attempt (call_grpc_garble_and_strip_one env cd mc tx msg) s1 = (Ret (Inr m), s2)"
    using one [of cd mc tx msg m s1 w1] assms(5) by (simp add: attempt_Ret s1_def s2_def)
  have b: "attempt (call_grpc_garble_and_strip_one env cd pc [] pin) s2 = (Ret (Inr p), s3)"
    using one [of cd pc "[]" pin p s2 w2] assms(6) by (simp add: attempt_Ret s2_def s3_def)
  have c: "attempt (garble_run_job env cd (strip_job mc pc tx msg pin)) s1 = (Ret (Inr (GarbleAndStripReply m msg p pin)), s3)"
    by (intro attempt_Ret) (simp add: garble_run_job_def strip_job_def call_grpc_garble_and_strip_def rbind_Ret a b)
  have "garble_locked_part env cd (strip_job mc pc tx msg pin) (s\<lparr>world := w0\<rparr>) =
      (Ret (), submit_all env GARB_KEY_TYPE (garble_callback (GarbleAndStripReply m msg p pin)) s3)"
    by (simp add: garble_locked_part_def s1_def [symmetric] rbind_Ret c garble_finalize_grpc_call_def send_signed_ret)
  moreover have "garble_pending cd s"
    using assms(1) by (simp add: garble_pending_def strip_job_def)
  ultimately show ?thesis
    using assms(1,2) by (simp add: garble_offchain_worker_eq garble_process_eq run_slot_def with_guard_Ret
        submit_all_def s3_def s2_def s1_def sent_request_def put_local_def)
qed

text \<open>C15: A job for display circuits whose two requests are answered makes exactly two posts to the strip
  endpoint, first the message circuit with the message text and digits, then the pinpad circuit with no text
  and the pinpad digits, then has every local account submit the callback with the four identifiers and
  exactly the digits of the job, and leaves the slot empty and the lock released.\<close>

theorem strip_job_end_to_end:
  assumes "garble_read_job cd s = strip_job mc pc tx msg pin"
    and "lock_acquire env GARB_LOCK_KEY GARB_LOCK_BLOCK_EXPIRATION GARB_LOCK_TIMEOUT_EXPIRATION (world s) = (True, w0)"
    and "std_build env" "env_var env ''INTERSTELLAR_URI_ROOT_API_GARBLE'' = Some root"
    and "strip_host_ok env cd root mc tx msg m w0 w1" "strip_host_ok env cd root pc [] pin p w1 w2"
  shows "garble_offchain_worker env cd s = (Ret (), s\<lparr>
     world := lock_release env GARB_LOCK_KEY w2,
     requests := requests s @ [strip_post env cd root mc tx msg w0, strip_post env cd root pc [] pin w1],
     local_storage := (local_storage s)(garble_job_key cd := Some (garble_idle_job cd)),
     submitted := submitted s @ map (\<lambda>a. (a, into_call env (callback_new_garbled_and_strip_signed_call
       (srep_pgarbled_cid m) (srep_packmsg_cid m) msg (srep_pgarbled_cid p) (srep_packmsg_cid p) pin)))
       (local_accounts env GARB_KEY_TYPE)\<rparr>)"
  using assms by (rule strip_job_run)

text \<open>The job that a request leaves is the one the node's worker reads after the block.\<close>

lemma commit_last_write: "local_storage (commit_index_writes True (pre @ [(k, v)]) node) k = Some v"
  by (induction pre arbitrary: node)
    (auto simp: commit_index_writes_put local_map.lookup_same simp del: commit_index_writes.simps(2))

lemma committed_strip_job:
  assumes "\<And>d. dec_garble_job cd (enc_garble_job cd d) = Some d"
    and "ws = pre @ [(garble_job_key cd, enc_garble_job cd d)]"
  shows "garble_read_job cd (commit_index_writes True ws node) = d"
  using assms(1) by (simp add: assms(2) garble_read_job_def storage_get_def garble_job_key_def commit_last_write)

lemma stored_code_unique:
  assumes "circuit_server_metadata_map s (who, cid) = Some \<lparr>message_digits = msg, pinpad_digits = pin\<rparr>"
    and "length cid \<le> 64" "is_pinpad pin" "\<forall>d \<in> set msg. digit d"
  shows "\<exists>!input. (\<forall>b \<in> set input. digit b)
    \<and> fst (check_input lg (SignedOrigin who) cid input s) = Ret ()"
proof -
  have eq: "fst (check_input lg (SignedOrigin who) cid input s) = Ret () \<longleftrightarrow> computed_inputs pin input = msg"
    if "\<forall>b \<in> set input. digit b" for input
    using that assms by (subst check_input_verdict) (auto simp: digit_in_pinpad pinpad_log_safe)
  show ?thesis using unique_code [OF assms(3,4)] eq by (metis (no_types, lifting))
qed


section \<open>Concrete runs\<close>

text \<open>Two framed replies for the strip job.\<close>

definition demo_strip_responses :: "http_response list" where
  "demo_strip_responses = [ok_response (frame [77] @ [128, 0, 0, 0, 0]), ok_response (frame [80] @ [128, 0, 0, 0, 0])]"

lemma demo_strip_host:
  assumes "valid_utf8 cid" "valid_utf8 tx" "length v < 2 ^ 32"
  shows "strip_host_ok demo_env demo_garble_codec ''http://api'' cid tx digits
     \<lparr>srep_pgarbled_cid = v, srep_packmsg_cid = rev v\<rparr> (ok_response (frame v @ [128, 0, 0, 0, 0]) # ws) ws"
  unfolding strip_host_ok_def
  using assms by (intro conjI exI [of _ v] exI [of _ "[128, 0, 0, 0, 0]"])
    (simp_all add: scripted_replies demo_garble_codec_def)

lemma demo_strip_hosts:
  "strip_host_ok demo_env demo_garble_codec ''http://api'' [81, 1] [72] [0, 0]
     \<lparr>srep_pgarbled_cid = [77], srep_packmsg_cid = rev [77]\<rparr> demo_strip_responses
     [ok_response (frame [80] @ [128, 0, 0, 0, 0])]"
  "strip_host_ok demo_env demo_garble_codec ''http://api'' [81, 2] [] pin
     \<lparr>srep_pgarbled_cid = [80], srep_packmsg_cid = rev [80]\<rparr> [ok_response (frame [80] @ [128, 0, 0, 0, 0])] []"
  unfolding demo_strip_responses_def
  by (rule demo_strip_host; simp add: valid_ascii is_ascii_def)+

theorem strip_job_end_to_end_witness:
  "submitted (snd (garble_offchain_worker demo_env demo_garble_codec
     (put_local (garble_job_key demo_garble_codec)
       (enc_garble_job demo_garble_codec (strip_job [81, 1] [81, 2] [72] [0, 0] [4, 5])) (idle_node demo_strip_responses)))) =
   [(42, callback_new_garbled_and_strip_signed_call [77] [77] [0, 0] [80] [80] [4, 5])]"
  by (subst strip_job_end_to_end [OF _ _ _ _ demo_strip_hosts])
    (simp_all add: garble_read_job_def storage_get_def garble_job_key_def [symmetric] local_map.lookup_same
      demo_garble_roundtrip idle_node_def put_local_def)


end
