(* ===== verification/Worker_Race.thy ===== *)
theory Worker_Race
  imports Garble_Worker
begin

text \<open>
  The two workers as they really run: a node starts one run of each worker per imported block, on
  threads of their own, so runs overlap with each other and with the index writes of later blocks.
  A run is cut at its accesses to shared state, in the order of \<open>process_if_needed\<close>: read the slot,
  try the lock, empty the slot, work on the job read at the start, drop the lock. The step relation
  interleaves any number of runs; the big steps of the pallet theories are its runs without
  interference.
\<close>

section \<open>One run in steps\<close>

text \<open>What the steps need of a pallet; the two instances below are built from its definitions.\<close>

record ('w, 'acct, 'c, 'd, 'e) worker_ops =
  read_job :: "('w, 'acct, 'c) offchain \<Rightarrow> 'd"
  has_job :: "'d \<Rightarrow> bool"
  slot_key :: bytes
  idle_value :: bytes
  take_lock :: "'w \<Rightarrow> bool \<times> 'w"
  drop_lock :: "'w \<Rightarrow> 'w"
  drops_on_panic :: bool
  work :: "'d \<Rightarrow> (('w, 'acct, 'c) offchain, 'e, unit) rust"

definition circuits_ops ::
  "('w, 'p, 'acct, circuits_call, 'c) ocw_env \<Rightarrow> circuits_codec \<Rightarrow> ('w, 'acct, 'c, circuits_indexing_data, circuits_error) worker_ops" where
  "circuits_ops env cd = \<lparr>read_job = circuits_read_job cd, has_job = (\<lambda>d. c_block_number d \<noteq> 0),
     slot_key = circuits_job_key cd, idle_value = circuits_idle_job cd,
     take_lock = lock_acquire env CIRC_LOCK_KEY CIRC_LOCK_BLOCK_EXPIRATION CIRC_LOCK_TIMEOUT_EXPIRATION,
     drop_lock = lock_release env CIRC_LOCK_KEY, drops_on_panic = std_build env,
     work = (\<lambda>d. rbind (attempt (circuits_run_job env cd d)) (circuits_finalize_grpc_call env))\<rparr>"

definition garble_ops ::
  "('w, 'p, 'acct, garble_call, 'c) ocw_env \<Rightarrow> garble_codec \<Rightarrow> ('w, 'acct, 'c, garble_indexing_data, garble_error) worker_ops" where
  "garble_ops env cd = \<lparr>read_job = garble_read_job cd, has_job = (\<lambda>d. g_block_number d \<noteq> 0),
     slot_key = garble_job_key cd, idle_value = garble_idle_job cd,
     take_lock = lock_acquire env GARB_LOCK_KEY GARB_LOCK_BLOCK_EXPIRATION GARB_LOCK_TIMEOUT_EXPIRATION,
     drop_lock = lock_release env GARB_LOCK_KEY, drops_on_panic = std_build env,
     work = (\<lambda>d. rbind (attempt (garble_run_job env cd d)) (garble_finalize_grpc_call env))\<rparr>"

text \<open>Where a run stands, with the job it read; \<open>Leaving\<close> says whether the work panicked.\<close>

datatype 'd pc = Start | HasJob 'd | HasLock 'd | Emptied 'd | Leaving bool | Finished

text \<open>The node, the position of every run, and (for the statements) who worked on what.\<close>

record ('w, 'acct, 'c, 'd) race =
  node :: "('w, 'acct, 'c) offchain"
  pcs :: "nat \<Rightarrow> 'd pc"
  worked :: "(nat \<times> 'd) list"

definition at :: "nat \<Rightarrow> 'd pc \<Rightarrow> ('w, 'acct, 'c, 'd) race \<Rightarrow> ('w, 'acct, 'c, 'd) race" where
  "at i p s = s\<lparr>pcs := (pcs s)(i := p)\<rparr>"

definition with_node :: "('w, 'acct, 'c) offchain \<Rightarrow> ('w, 'acct, 'c, 'd) race \<Rightarrow> ('w, 'acct, 'c, 'd) race" where
  "with_node n s = s\<lparr>node := n\<rparr>"

lemma race_simps [simp]:
  "node (at i p s) = node s" "pcs (at i p s) = (pcs s)(i := p)" "worked (at i p s) = worked s"
  "node (with_node n s) = n" "pcs (with_node n s) = pcs s" "worked (with_node n s) = worked s"
  by (simp_all add: at_def with_node_def)

definition is_panic :: "('e, 'a) exit \<Rightarrow> bool" where
  "is_panic r = (case r of Panic _ \<Rightarrow> True | _ \<Rightarrow> False)"

inductive race_step ::
  "('w, 'acct, 'c, 'd, 'e) worker_ops \<Rightarrow> ('w, 'acct, 'c, 'd) race \<Rightarrow> ('w, 'acct, 'c, 'd) race \<Rightarrow> bool"
  for ops where
  import_block: "race_step ops s (with_node (commit_index_writes True ws (node s)) s)"
| read_slot: "pcs s i = Start \<Longrightarrow> d = read_job ops (node s) \<Longrightarrow>
    race_step ops s (at i (if has_job ops d then HasJob d else Finished) s)"
| try_lock: "pcs s i = HasJob d \<Longrightarrow> take_lock ops (world (node s)) = (b, w) \<Longrightarrow>
    race_step ops s (at i (if b then HasLock d else Finished) (with_node ((node s)\<lparr>world := w\<rparr>) s))"
| empty_slot: "pcs s i = HasLock d \<Longrightarrow>
    race_step ops s (at i (Emptied d) (with_node (put_local (slot_key ops) (idle_value ops) (node s)) s))"
| do_work: "pcs s i = Emptied d \<Longrightarrow> work ops d (node s) = (r, n) \<Longrightarrow>
    race_step ops s ((at i (Leaving (is_panic r)) (with_node n s))\<lparr>worked := worked s @ [(i, d)]\<rparr>)"
| leave: "pcs s i = Leaving b \<Longrightarrow>
    race_step ops s (at i Finished (with_node
      (if b \<and> \<not> drops_on_panic ops then node s else (node s)\<lparr>world := drop_lock ops (world (node s))\<rparr>) s))"

abbreviation race_run ::
  "('w, 'acct, 'c, 'd, 'e) worker_ops \<Rightarrow> ('w, 'acct, 'c, 'd) race \<Rightarrow> ('w, 'acct, 'c, 'd) race \<Rightarrow> bool" where
  "race_run ops \<equiv> (race_step ops)\<^sup>*\<^sup>*"

text \<open>A step of some run, as opposed to the import of a block.\<close>

definition worker_step ::
  "('w, 'acct, 'c, 'd, 'e) worker_ops \<Rightarrow> ('w, 'acct, 'c, 'd) race \<Rightarrow> ('w, 'acct, 'c, 'd) race \<Rightarrow> bool" where
  "worker_step ops s t \<longleftrightarrow> race_step ops s t \<and> pcs t \<noteq> pcs s"

section \<open>The lock\<close>

text \<open>
  What a storage lock is documented to do while it does not expire: it is granted exactly when it is
  free, and then it is held until it is dropped; the work on a job does not touch it.
\<close>

definition lock_laws :: "('w, 'acct, 'c, 'd, 'e) worker_ops \<Rightarrow> ('w \<Rightarrow> bool) \<Rightarrow> bool" where
  "lock_laws ops held \<longleftrightarrow>
     (\<forall>w. fst (take_lock ops w) = (\<not> held w) \<and> held (snd (take_lock ops w)))
     \<and> (\<forall>w. \<not> held (drop_lock ops w))
     \<and> (\<forall>d n. held (world (snd (work ops d n))) = held (world n))"

fun inside :: "'d pc \<Rightarrow> bool" where
  "inside (HasLock d) = True"
| "inside (Emptied d) = True"
| "inside (Leaving b) = True"
| "inside _ = False"

definition mutex :: "('w \<Rightarrow> bool) \<Rightarrow> ('w, 'acct, 'c, 'd) race \<Rightarrow> bool" where
  "mutex held s \<longleftrightarrow> (\<forall>i. inside (pcs s i) \<longrightarrow> held (world (node s)))
     \<and> (\<forall>i j. inside (pcs s i) \<longrightarrow> inside (pcs s j) \<longrightarrow> i = j)"

lemma commit_world [simp]: "world (commit_index_writes b ws s) = world s"
  by (induction b ws s rule: commit_index_writes.induct) simp_all

interpretation mutual_exclusion: step_invariant "race_step ops" "\<lambda>s. lock_laws ops held \<longrightarrow> mutex held s"
  for ops held
proof
  fix s t
  assume "race_step ops s t" and inv: "lock_laws ops held \<longrightarrow> mutex held s"
  then show "lock_laws ops held \<longrightarrow> mutex held t"
  proof (cases rule: race_step.cases)
    case (try_lock i d b w)
    show ?thesis
    proof
      assume l: "lock_laws ops held"
      with inv have m: "mutex held s" by simp
      from l try_lock(3) have "b = (\<not> held (world (node s)))" "held w"
        unfolding lock_laws_def by (metis fst_conv, metis snd_conv)
      with m try_lock show "mutex held t" by (auto simp: mutex_def)
    qed
  next
    case (do_work i d r n)
    show ?thesis
    proof
      assume l: "lock_laws ops held"
      with inv have m: "mutex held s" by simp
      from l do_work(3) have "held (world n) = held (world (node s))"
        unfolding lock_laws_def by (metis snd_conv)
      moreover from do_work(2) have "inside (pcs s i)" by simp
      ultimately show "mutex held t" using m do_work(1) by (auto simp: mutex_def)
    qed
  next
    case (empty_slot i d)
    then have "inside (pcs s i)" by simp
    with empty_slot(1) inv show ?thesis by (auto simp: mutex_def)
  next
    case (leave i b)
    then have "inside (pcs s i)" by simp
    with leave(1) inv show ?thesis by (auto simp: mutex_def)
  qed (auto simp: mutex_def)
qed

section \<open>Runs without interference are the workers of the pallets\<close>

text \<open>One worker from its start to its end, with no other step in between.\<close>

definition alone :: "('w, 'acct, 'c) offchain \<Rightarrow> ('w, 'acct, 'c, 'd) race" where
  "alone n = \<lparr>node = n, pcs = (\<lambda>_. Start), worked = []\<rparr>"

lemma alone_simps [simp]: "node (alone n) = n" "pcs (alone n) i = Start" "worked (alone n) = []"
  by (simp_all add: alone_def)

lemmas run_step = converse_rtranclp_into_rtranclp [of "race_step ops" for ops]

text \<open>The steps of a run that has read a job and gets the lock, when the work leaves with \<open>r\<close>.\<close>

definition locked_result ::
  "('w, 'acct, 'c, 'd, 'e) worker_ops \<Rightarrow> 'd \<Rightarrow> ('w, 'acct, 'c) offchain \<Rightarrow> ('w, 'acct, 'c) offchain" where
  "locked_result ops d n = (case work ops d (put_local (slot_key ops) (idle_value ops) n) of
     (r, n') \<Rightarrow> if is_panic r \<and> \<not> drops_on_panic ops then n' else n'\<lparr>world := drop_lock ops (world n')\<rparr>)"

lemma run_from_job:
  assumes "pcs s i = HasJob d" "take_lock ops (world (node s)) = (True, w)"
  shows "\<exists>t. race_run ops s t \<and> node t = locked_result ops d ((node s)\<lparr>world := w\<rparr>)
    \<and> pcs t = (pcs s)(i := Finished) \<and> worked t = worked s @ [(i, d)]"
proof -
  define s1 where "s1 = at i (HasLock d) (with_node ((node s)\<lparr>world := w\<rparr>) s)"
  define s2 where "s2 = at i (Emptied d) (with_node (put_local (slot_key ops) (idle_value ops) (node s1)) s1)"
  obtain r n where w: "work ops d (node s2) = (r, n)" by fastforce
  define s3 where "s3 = (at i (Leaving (is_panic r)) (with_node n s2))\<lparr>worked := worked s2 @ [(i, d)]\<rparr>"
  define s4 where "s4 = at i Finished (with_node
    (if is_panic r \<and> \<not> drops_on_panic ops then node s3 else (node s3)\<lparr>world := drop_lock ops (world (node s3))\<rparr>) s3)"
  have "race_step ops s s1"
    using race_step.try_lock [OF assms] by (simp add: s1_def)
  moreover have "race_step ops s1 s2"
    using race_step.empty_slot [of s1 i d ops] by (simp add: s1_def s2_def)
  moreover have "race_step ops s2 s3"
    using race_step.do_work [OF _ w, of i] by (simp add: s2_def s3_def)
  moreover have "race_step ops s3 s4"
    using race_step.leave [of s3 i "is_panic r" ops] by (simp add: s3_def s4_def)
  ultimately have "race_run ops s s4"
    by (meson r_into_rtranclp rtranclp_trans)
  moreover have "node s4 = locked_result ops d ((node s)\<lparr>world := w\<rparr>)"
    using w by (simp add: s4_def s3_def s2_def s1_def locked_result_def)
  moreover have "pcs s4 = (pcs s)(i := Finished)" "worked s4 = worked s @ [(i, d)]"
    by (simp_all add: s4_def s3_def s2_def s1_def)
  ultimately show ?thesis by blast
qed

text \<open>The big step that a run without interference amounts to.\<close>

definition big_step :: "('w, 'acct, 'c, 'd, 'e) worker_ops \<Rightarrow> ('w, 'acct, 'c) offchain \<Rightarrow> ('w, 'acct, 'c) offchain" where
  "big_step ops n = (if \<not> has_job ops (read_job ops n) then n
     else case take_lock ops (world n) of (b, w) \<Rightarrow>
       if b then locked_result ops (read_job ops n) (n\<lparr>world := w\<rparr>) else n\<lparr>world := w\<rparr>)"

lemma alone_runs_big_step:
  assumes "pcs s i = Start"
  shows "\<exists>t. race_run ops s t \<and> node t = big_step ops (node s) \<and> pcs t = (pcs s)(i := Finished)"
proof -
  let ?d = "read_job ops (node s)"
  obtain b w where l: "take_lock ops (world (node s)) = (b, w)" by fastforce
  define s1 where "s1 = at i (if has_job ops ?d then HasJob ?d else Finished) s"
  have 1: "race_step ops s s1" unfolding s1_def by (rule race_step.read_slot [OF assms refl])
  show ?thesis
  proof (cases "has_job ops ?d")
    case False
    with 1 show ?thesis
      by (intro exI [of _ s1]) (simp add: r_into_rtranclp s1_def big_step_def)
  next
    case True
    then have p: "pcs s1 i = HasJob ?d" and n: "node s1 = node s" by (simp_all add: s1_def)
    show ?thesis
    proof (cases b)
      case True
      with run_from_job [OF p, of ops w] l n obtain t where "race_run ops s1 t"
        "node t = locked_result ops ?d ((node s)\<lparr>world := w\<rparr>)" "pcs t = (pcs s1)(i := Finished)" by auto
      with 1 True l \<open>has_job ops ?d\<close> show ?thesis
        by (intro exI [of _ t]) (simp add: big_step_def s1_def run_step)
    next
      case False
      let ?t = "at i Finished (with_node ((node s1)\<lparr>world := w\<rparr>) s1)"
      have "race_step ops s1 ?t" using race_step.try_lock [OF p, of ops b w] l n False by simp
      with 1 False l \<open>has_job ops ?d\<close> show ?thesis
        by (intro exI [of _ ?t] conjI run_step [OF 1] r_into_rtranclp)
          (simp_all add: big_step_def s1_def)
    qed
  qed
qed

lemma run_slot_big_step:
  assumes "\<And>n. pending n \<longleftrightarrow> has_job ops (read_job ops n)"
    and "\<And>n. locked_part n = rbind (modify (put_local (slot_key ops) (idle_value ops))) (\<lambda>_. work ops (read_job ops n))"
    and "take_lock ops = lock_acquire env lock blocks millis" "drop_lock ops = lock_release env lock"
    and "drops_on_panic ops = std_build env"
  shows "snd (run_slot env lock blocks millis pending locked_part n) = big_step ops n"
proof -
  have g: "snd (with_guard env lock (rbind (modify (put_local k v)) (\<lambda>_. m)) x) =
      (case m (put_local k v x) of (r, n') \<Rightarrow>
         if is_panic r \<and> \<not> std_build env then n' else n'\<lparr>world := lock_release env lock (world n')\<rparr>)"
    for k v m x
    by (simp add: with_guard_def is_panic_def split: prod.splits exit.splits)
  show ?thesis
    by (simp add: run_slot_def big_step_def locked_result_def assms g split: prod.splits)
qed

lemma circuits_big_step: "snd (circuits_process_if_needed env cd n) = big_step (circuits_ops env cd) n"
  unfolding circuits_process_eq
  by (rule run_slot_big_step) (simp_all add: circuits_ops_def circuits_pending_def circuits_locked_part_def)

lemma garble_big_step: "snd (garble_process_if_needed env cd n) = big_step (garble_ops env cd) n"
  unfolding garble_process_eq
  by (rule run_slot_big_step) (simp_all add: garble_ops_def garble_pending_def garble_locked_part_def)

section \<open>Lock laws of the two workers\<close>

text \<open>They hold if the host's lock is a lock and its HTTP calls leave it alone.\<close>

definition host_lock_laws ::
  "('w, 'p, 'acct, 'call, 'c) ocw_env \<Rightarrow> bytes \<Rightarrow> nat \<Rightarrow> nat \<Rightarrow> ('w \<Rightarrow> bool) \<Rightarrow> bool" where
  "host_lock_laws env lock blocks millis held \<longleftrightarrow>
     (\<forall>w. fst (lock_acquire env lock blocks millis w) = (\<not> held w) \<and> held (snd (lock_acquire env lock blocks millis w)))
     \<and> (\<forall>w. \<not> held (lock_release env lock w))
     \<and> (\<forall>r w. held (snd (http_send (http env) r w)) = held w)
     \<and> (\<forall>p d w. held (snd (try_wait (http env) p d w)) = held w)"

definition same_held :: "('w \<Rightarrow> bool) \<Rightarrow> ('w, 'acct, 'c, 'z) offchain_scheme \<Rightarrow> ('w, 'acct, 'c, 'z) offchain_scheme \<Rightarrow> bool" where
  "same_held held s t \<longleftrightarrow> held (world t) = held (world s)"

lemma same_held_preorder: "preorder_rel (same_held held)"
  by (auto simp: same_held_def preorder_rel_def)

interpretation lock_state: kept_relation "same_held held" for held
  by (rule kept_relation.intro) (rule same_held_preorder)

lemma fetch_same_held:
  assumes "host_lock_laws env lock blocks millis held"
  shows "keeps (same_held held) (fetch_from_remote_grpc_web (http env) v url)"
  unfolding keeps_def
proof
  fix s
  have 1: "held (snd (http_send (http env) r w)) = held w" and 2: "held (snd (try_wait (http env) p d w)) = held w" for r p d w
    using assms by (simp_all add: host_lock_laws_def)
  show "same_held held s (snd (fetch_from_remote_grpc_web (http env) v url s))"
  proof (cases rule: fetch_cases [of "http env" v url s])
    case (not_sent w)
    with 1 [of "grpc_request (http env) v url (world s)" "world s"] show ?thesis by (simp add: same_held_def)
  next
    case (answered p w ans w')
    with 1 [of "grpc_request (http env) v url (world s)" "world s"]
      2 [of p "req_deadline (grpc_request (http env) v url (world s))" w]
    show ?thesis by (simp add: same_held_def)
  qed
qed

lemma finalizes_same_held: "finalizes env kt m \<Longrightarrow> keeps (same_held held) m"
  unfolding keeps_def finalizes_def same_held_def by (metis snd_conv submit_all_simps(1))

lemmas same_held_intros = lock_state.kept_rbind lock_state.kept_quiet
  keeps_attempt keeps_map_err

lemma circuits_run_job_held:
  assumes "host_lock_laws env lock blocks millis held"
  shows "keeps (same_held held) (circuits_run_job env cd d)"
proof -
  note f = fetch_same_held [OF assms]
  have "keeps (same_held held) (call_grpc_generic env cd v)" for v
    unfolding call_grpc_generic_def Let_def
    by (intro same_held_intros quiet_intros quiet_encode_body f) (auto intro!: same_held_intros quiet_intros)
  moreover have "keeps (same_held held) (call_grpc_display_one env cd b)" for b
    unfolding call_grpc_display_one_def Let_def
    by (intro same_held_intros quiet_intros quiet_encode_body f) (auto intro!: same_held_intros quiet_intros)
  ultimately show ?thesis
    unfolding circuits_run_job_def call_grpc_display_def
    by (cases "c_grpc_kind d") (auto intro!: same_held_intros(1,3) lock_state.kept_pure)
qed

lemma garble_run_job_held:
  assumes "host_lock_laws env lock blocks millis held"
  shows "keeps (same_held held) (garble_run_job env cd d)"
proof -
  note f = fetch_same_held [OF assms]
  have "keeps (same_held held) (call_grpc_garble env cd v)" for v
    unfolding call_grpc_garble_def Let_def
    by (intro same_held_intros quiet_intros quiet_encode_body f) (auto intro!: same_held_intros quiet_intros)
  moreover have "keeps (same_held held) (call_grpc_garble_and_strip_one env cd v tx ds)" for v tx ds
    unfolding call_grpc_garble_and_strip_one_def Let_def
    by (intro same_held_intros quiet_intros quiet_encode_body f) (auto intro!: same_held_intros quiet_intros)
  ultimately show ?thesis
    unfolding garble_run_job_def call_grpc_garble_and_strip_def
    by (cases "g_grpc_kind d") (auto intro!: same_held_intros(1,3) lock_state.kept_pure)
qed

lemma circuits_lock_laws:
  assumes "host_lock_laws env CIRC_LOCK_KEY CIRC_LOCK_BLOCK_EXPIRATION CIRC_LOCK_TIMEOUT_EXPIRATION held"
  shows "lock_laws (circuits_ops env cd) held"
proof -
  have "keeps (same_held held) (rbind (attempt (circuits_run_job env cd d)) (circuits_finalize_grpc_call env))" for d
    by (intro same_held_intros circuits_run_job_held [OF assms] finalizes_same_held [OF circuits_finalizes])
  with assms show ?thesis
    by (auto simp: lock_laws_def circuits_ops_def host_lock_laws_def keeps_def same_held_def)
qed

lemma garble_lock_laws:
  assumes "host_lock_laws env GARB_LOCK_KEY GARB_LOCK_BLOCK_EXPIRATION GARB_LOCK_TIMEOUT_EXPIRATION held"
  shows "lock_laws (garble_ops env cd) held"
proof -
  have "keeps (same_held held) (rbind (attempt (garble_run_job env cd d)) (garble_finalize_grpc_call env))" for d
    by (intro same_held_intros garble_run_job_held [OF assms] finalizes_same_held [OF garble_finalizes])
  with assms show ?thesis
    by (auto simp: lock_laws_def garble_ops_def host_lock_laws_def keeps_def same_held_def)
qed

section \<open>Two runs and a late block\<close>

lemma take_free_lock:
  assumes "lock_laws ops held" "\<not> held w"
  obtains w' where "take_lock ops w = (True, w')" "held w'"
  using assms unfolding lock_laws_def by (metis prod.collapse)

lemma locked_result_drops:
  assumes "lock_laws ops held" "drops_on_panic ops"
  shows "\<not> held (world (locked_result ops d n))"
  using assms by (auto simp: locked_result_def lock_laws_def split: prod.splits)

lemma two_runs_same_job:
  assumes "lock_laws ops held" "drops_on_panic ops" "has_job ops (read_job ops n)" "\<not> held (world n)"
  shows "\<exists>t. race_run ops (alone n) t \<and> worked t = [(0, read_job ops n), (1, read_job ops n)]
    \<and> pcs t = (\<lambda>_. Start)(0 := Finished, 1 := Finished)"
proof -
  let ?d = "read_job ops n"
  define s2 where "s2 = at 1 (HasJob ?d) (at 0 (HasJob ?d) (alone n))"
  have "race_step ops (alone n) (at 0 (HasJob ?d) (alone n))"
    using race_step.read_slot [of "alone n" 0 ?d ops] assms(3) by simp
  moreover have "race_step ops (at 0 (HasJob ?d) (alone n)) s2"
    using race_step.read_slot [of "at 0 (HasJob ?d) (alone n)" 1 ?d ops] assms(3) by (simp add: s2_def)
  ultimately have r2: "race_run ops (alone n) s2" by (meson r_into_rtranclp rtranclp_trans)
  from take_free_lock [OF assms(1,4)] obtain w where "take_lock ops (world (node s2)) = (True, w)"
    by (auto simp: s2_def)
  with run_from_job [of s2 0 ?d ops w] obtain t where r3: "race_run ops s2 t"
    and t: "node t = locked_result ops ?d ((node s2)\<lparr>world := w\<rparr>)" "pcs t = (pcs s2)(0 := Finished)"
      "worked t = [(0, ?d)]"
    by (auto simp: s2_def)
  from take_free_lock [OF assms(1) locked_result_drops [OF assms(1,2)]] obtain w' where
    "take_lock ops (world (node t)) = (True, w')" unfolding t(1) by blast
  moreover have "pcs t 1 = HasJob ?d" by (simp add: t(2) s2_def)
  ultimately obtain u where "race_run ops t u" "pcs u = (pcs t)(1 := Finished)" "worked u = [(0, ?d), (1, ?d)]"
    using run_from_job [of t 1 ?d ops w'] t(3) by auto
  moreover have "(pcs t)(1 := Finished) = (\<lambda>_. Start)(0 := Finished, 1 := Finished)"
    by (simp add: t(2) s2_def alone_def fun_eq_iff)
  ultimately show ?thesis using r2 r3 by (metis (no_types, lifting) rtranclp_trans)
qed

lemma late_job_overwritten:
  assumes "lock_laws ops held" "has_job ops (read_job ops n)" "\<not> held (world n)"
  shows "\<exists>s t. race_run ops (alone n) s \<and> node s = put_local (slot_key ops) v n
    \<and> race_run ops s t \<and> worked t = [(0, read_job ops n)] \<and> pcs t = (\<lambda>_. Start)(0 := Finished)
    \<and> (\<exists>w. node t = locked_result ops (read_job ops n) ((put_local (slot_key ops) v n)\<lparr>world := w\<rparr>))"
proof -
  let ?d = "read_job ops n"
  let ?s1 = "at 0 (HasJob ?d) (alone n)"
  define s where "s = with_node (put_local (slot_key ops) v n) ?s1"
  have "race_step ops (alone n) ?s1"
    using race_step.read_slot [of "alone n" 0 ?d ops] assms(2) by simp
  moreover have "race_step ops ?s1 s"
    using race_step.import_block [of ops ?s1 "[(slot_key ops, v)]"] by (simp add: s_def put_local_def)
  ultimately have r: "race_run ops (alone n) s" by (meson r_into_rtranclp rtranclp_trans)
  from take_free_lock [OF assms(1,3)] obtain w where "take_lock ops (world (node s)) = (True, w)"
    by (auto simp: s_def)
  with run_from_job [of s 0 ?d ops w] obtain t where "race_run ops s t"
    "node t = locked_result ops ?d ((node s)\<lparr>world := w\<rparr>)" "pcs t = (pcs s)(0 := Finished)" "worked t = [(0, ?d)]"
    by (auto simp: s_def)
  moreover have "(pcs s)(0 := Finished) = (\<lambda>_. Start)(0 := Finished)"
    by (simp add: s_def alone_def fun_eq_iff)
  ultimately show ?thesis using r by (intro exI [of _ s] exI [of _ t]) (auto simp: s_def)
qed

lemma locked_result_storage:
  assumes "keeps same_storage (work ops d)"
  shows "local_storage (locked_result ops d n) = (local_storage n)(slot_key ops := Some (idle_value ops))"
  using keepsD [OF assms, of "put_local (slot_key ops) (idle_value ops) n"]
  by (auto simp: locked_result_def same_storage_def put_local_def split: prod.splits)

section \<open>Properties\<close>



text \<open>C32: The lock does not make a job run once: two overlapping runs of the circuits worker can both work on
  the same job, one after the other, because the job is read before the lock is tried and not again after.\<close>

theorem one_job_worked_twice:
  assumes "host_lock_laws env CIRC_LOCK_KEY CIRC_LOCK_BLOCK_EXPIRATION CIRC_LOCK_TIMEOUT_EXPIRATION held"
    and "std_build env" "circuits_pending cd n" "\<not> held (world n)"
  shows "\<exists>t. race_run (circuits_ops env cd) (alone n) t
    \<and> worked t = [(0, circuits_read_job cd n), (1, circuits_read_job cd n)]"
  using two_runs_same_job [OF circuits_lock_laws [OF assms(1)], of cd n] assms(2-4)
  by (auto simp: circuits_ops_def circuits_pending_def)


section \<open>Concrete runs\<close>

text \<open>A node whose world is one lock, and whose host refuses every request.\<close>

definition lock_env :: "(bool, unit, nat, 'call, 'call) ocw_env" where
  "lock_env = \<lparr>std_build = True, env_var = (\<lambda>_. Some ''http://api''),
     http = \<lparr>timestamp = (\<lambda>_. 0), add_millis = (+), http_send = (\<lambda>_ w. (None, w)),
       try_wait = (\<lambda>_ _ w. (Inl (), w))\<rparr>,
     base64_decode = Some, lock_acquire = (\<lambda>_ _ _ w. (\<not> w, True)), lock_release = (\<lambda>_ _. False),
     local_accounts = (\<lambda>_. [42]), into_call = id\<rparr>"

lemma lock_env_laws: "host_lock_laws lock_env lock blocks millis id"
  by (simp add: host_lock_laws_def lock_env_def)


theorem one_job_worked_twice_witness:
  "\<exists>t. race_run (circuits_ops lock_env demo_circuits_codec) (alone (circuits_node (circuits_job None Display) False)) t
    \<and> worked t = [(0, circuits_job None Display), (1, circuits_job None Display)]"
  using one_job_worked_twice [OF lock_env_laws, of demo_circuits_codec "circuits_node (circuits_job None Display) False"]
  by (simp add: circuits_node_facts) (simp add: lock_env_def)

definition garble_node :: "garble_indexing_data \<Rightarrow> 'w \<Rightarrow> ('w, nat, garble_call) offchain" where
  "garble_node d w = put_local (garble_job_key demo_garble_codec) (enc_garble_job demo_garble_codec d) (idle_node w)"

lemma garble_node_facts: "garble_read_job demo_garble_codec (garble_node d w) = d" "world (garble_node d w) = w"
  by (simp_all add: garble_node_def garble_read_job_def storage_get_def garble_job_key_def [symmetric]
      local_map.lookup_same demo_garble_roundtrip idle_node_def)


end
