(* ===== verification/System.thy ===== *)
theory System
  imports Effects Worker_Race
begin

text \<open>
  The chain and a node together: dispatched calls, the end of a block (the buffered index writes reach
  the node's local storage), overlapping runs of the two off-chain workers, and whatever the outside
  world does, in any order. The invariant says which jobs a worker can find and which calls it can submit.
\<close>

section \<open>The system\<close>

text \<open>The chain's state, the node's, and the position of every run of the two workers.\<close>

record ('acct, 'w) system_state =
  chain :: "'acct garble"
  local_node :: "('w, 'acct, runtime_call) offchain"
  circuits_runs :: "nat \<Rightarrow> circuits_indexing_data pc"
  garble_runs :: "nat \<Rightarrow> garble_indexing_data pc"

text \<open>What the runs of one worker see.\<close>

definition circuits_view :: "('acct, 'w) system_state \<Rightarrow> ('w, 'acct, runtime_call, circuits_indexing_data) race" where
  "circuits_view s = \<lparr>node = local_node s, pcs = circuits_runs s, worked = []\<rparr>"

definition garble_view :: "('acct, 'w) system_state \<Rightarrow> ('w, 'acct, runtime_call, garble_indexing_data) race" where
  "garble_view s = \<lparr>node = local_node s, pcs = garble_runs s, worked = []\<rparr>"

text \<open>
  What is fixed of a deployment: the environments of the two workers, the SCALE codecs, and the contexts
  (randomness, log level) that blocks may be executed in.
\<close>

record ('w, 'p, 'acct, 'r) deployment =
  circuits_env :: "('w, 'p, 'acct, circuits_call, runtime_call) ocw_env"
  garble_env :: "('w, 'p, 'acct, garble_call, runtime_call) ocw_env"
  circuits_scale :: circuits_codec
  garble_scale :: garble_codec
  contexts :: "'r block_context set"

text \<open>
  \<open>From<Call<Self>>\<close> of \<open>construct_runtime!\<close> wraps a pallet's call in its variant; the SCALE codec is
  one and the same in the runtime's dispatch and its workers and round-trips; the random generator keeps
  what \<open>rand\<close> promises.
\<close>

definition deployment_ok :: "('w, 'p, 'acct, 'r) deployment \<Rightarrow> bool" where
  "deployment_ok dep \<longleftrightarrow> into_call (circuits_env dep) = OcwCircuits \<and> into_call (garble_env dep) = OcwGarble
     \<and> (\<forall>ctx \<in> contexts dep. circuits_codec_of ctx = circuits_scale dep \<and> garble_codec_of ctx = garble_scale dep
          \<and> rand_ok (randomness_of ctx))
     \<and> (\<forall>d. dec_circuits_job (circuits_scale dep) (enc_circuits_job (circuits_scale dep) d) = Some d)
     \<and> (\<forall>d. dec_garble_job (garble_scale dep) (enc_garble_job (garble_scale dep) d) = Some d)"

definition end_block :: "('acct, 'z) system_scheme \<Rightarrow> ('acct, 'z) system_scheme" where
  "end_block s = s\<lparr>events := [], offchain_index_writes := []\<rparr>"

text \<open>
  A worker moves by a step of one of its overlapping runs, or by a whole run that nothing interrupts. The
  outside may change the host's world at any time: its clock, the answers it will give, and the locks, so
  that a lock may also expire.
\<close>

inductive system_step ::
  "('w, 'p, 'acct, 'r) deployment \<Rightarrow> ('acct, 'w) system_state \<Rightarrow> ('acct, 'w) system_state \<Rightarrow> bool"
  for dep where
  extrinsic: "ctx \<in> contexts dep \<Longrightarrow>
    system_step dep s (s\<lparr>chain := snd (runtime_dispatch ctx call origin (chain s))\<rparr>)"
| block_end: "system_step dep s (s\<lparr>chain := end_block (chain s),
    local_node := commit_index_writes indexing (offchain_index_writes (chain s)) (local_node s)\<rparr>)"
| circuits_part: "worker_step (circuits_ops (circuits_env dep) (circuits_scale dep)) (circuits_view s) r \<Longrightarrow>
    system_step dep s (s\<lparr>local_node := node r, circuits_runs := pcs r\<rparr>)"
| garble_part: "worker_step (garble_ops (garble_env dep) (garble_scale dep)) (garble_view s) r \<Longrightarrow>
    system_step dep s (s\<lparr>local_node := node r, garble_runs := pcs r\<rparr>)"
| circuits_whole: "system_step dep s (s\<lparr>local_node :=
    snd (circuits_offchain_worker (circuits_env dep) (circuits_scale dep) (local_node s))\<rparr>)"
| garble_whole: "system_step dep s (s\<lparr>local_node :=
    snd (garble_offchain_worker (garble_env dep) (garble_scale dep) (local_node s))\<rparr>)"
| outside: "system_step dep s (s\<lparr>local_node := (local_node s)\<lparr>world := w\<rparr>\<rparr>)"

inductive_cases system_stepE: "system_step dep s t"

section \<open>Jobs and callbacks that are in order\<close>

definition code_ok :: "bytes \<Rightarrow> bytes \<Rightarrow> bool" where
  "code_ok md pd \<longleftrightarrow> is_pinpad pd \<and> length md = 2 \<and> (\<forall>d \<in> set md. digit d)"

definition circuits_job_ok :: "circuits_indexing_data \<Rightarrow> bool" where
  "circuits_job_ok d \<longleftrightarrow> (c_block_number d \<noteq> 0 \<longrightarrow> c_grpc_kind d = Generic \<longrightarrow> verilog_ipfs_hash d \<noteq> None)"

definition garble_job_ok :: "garble_indexing_data \<Rightarrow> bool" where
  "garble_job_ok d \<longleftrightarrow> (g_block_number d \<noteq> 0 \<longrightarrow> (case g_grpc_kind d of
     GarbleStandard \<Rightarrow> skcd_ipfs_cid d \<noteq> None
   | GarbleAndStrip \<Rightarrow> (\<exists>m p tx md pd. d = strip_job m p tx md pd \<and> code_ok md pd)))"

fun circuits_callback_ok :: "circuits_call \<Rightarrow> bool" where
  "circuits_callback_ok (callback_new_skcd_signed_call v) = True"
| "circuits_callback_ok (callback_new_display_circuits_package_signed_call m mn p pn) = True"
| "circuits_callback_ok _ = False"

fun garble_callback_ok :: "garble_call \<Rightarrow> bool" where
  "garble_callback_ok (callback_new_garbled_signed_call v) = True"
| "garble_callback_ok (callback_new_garbled_and_strip_signed_call mg mp md pg pp pd) = code_ok md pd"
| "garble_callback_ok _ = False"

definition submission_ok :: "('w, 'p, 'acct, 'r) deployment \<Rightarrow> 'acct \<times> runtime_call \<Rightarrow> bool" where
  "submission_ok dep = (\<lambda>(a, c). case c of
     OcwCircuits call \<Rightarrow> a \<in> set (local_accounts (circuits_env dep) CIRC_KEY_TYPE) \<and> circuits_callback_ok call
   | OcwGarble call \<Rightarrow> a \<in> set (local_accounts (garble_env dep) GARB_KEY_TYPE) \<and> garble_callback_ok call
   | _ \<Rightarrow> False)"

text \<open>A value that may be stored under a key of the local storage.\<close>

definition entry_ok :: "circuits_codec \<Rightarrow> garble_codec \<Rightarrow> bytes \<times> bytes \<Rightarrow> bool" where
  "entry_ok cc gc = (\<lambda>(k, v). (k = circuits_job_key cc \<longrightarrow> (\<exists>d. v = enc_circuits_job cc d \<and> circuits_job_ok d))
     \<and> (k = garble_job_key gc \<longrightarrow> (\<exists>d. v = enc_garble_job gc d \<and> garble_job_ok d)))"

definition storage_ok :: "circuits_codec \<Rightarrow> garble_codec \<Rightarrow> (bytes \<Rightarrow> bytes option) \<Rightarrow> bool" where
  "storage_ok cc gc m \<longleftrightarrow> (\<forall>k v. m k = Some v \<longrightarrow> entry_ok cc gc (k, v))"

lemma job_keys_differ: "circuits_job_key cc \<noteq> garble_job_key gc"
  by (simp add: circuits_job_key_def garble_job_key_def circuits_derived_key_def garble_derived_key_def
      CIRC_ONCHAIN_TX_KEY_def GARB_ONCHAIN_TX_KEY_def ascii_def byte_of_def)

lemma circuits_entry_ok: "circuits_job_ok d \<Longrightarrow> entry_ok cc gc (circuits_job_key cc, enc_circuits_job cc d)"
  and garble_entry_ok: "garble_job_ok e \<Longrightarrow> entry_ok cc gc (garble_job_key gc, enc_garble_job gc e)"
  using job_keys_differ [of cc gc] by (auto simp: entry_ok_def)

lemma idle_entries_ok:
  "entry_ok cc gc (circuits_job_key cc, circuits_idle_job cc)" "entry_ok cc gc (garble_job_key gc, garble_idle_job gc)"
  unfolding circuits_idle_job_def garble_idle_job_def
  by (auto intro!: circuits_entry_ok garble_entry_ok
      simp: circuits_job_ok_def garble_job_ok_def default_circuits_indexing_data_def default_garble_indexing_data_def)

lemma storage_ok_put: "storage_ok cc gc m \<Longrightarrow> entry_ok cc gc (k, v) \<Longrightarrow> storage_ok cc gc (m(k := Some v))"
  by (simp add: storage_ok_def)

lemma storage_ok_commit:
  "list_all (entry_ok cc gc) ws \<Longrightarrow> storage_ok cc gc (local_storage n) \<Longrightarrow>
   storage_ok cc gc (local_storage (commit_index_writes b ws n))"
  by (induction b ws n rule: commit_index_writes.induct) (simp_all add: storage_ok_put)

lemma commit_submitted [simp]: "submitted (commit_index_writes b ws n) = submitted n"
  by (induction b ws n rule: commit_index_writes.induct) simp_all

section \<open>Dispatches leave jobs that are in order\<close>

definition writes_ok :: "circuits_codec \<Rightarrow> garble_codec \<Rightarrow> ('acct, 'z) garble_scheme \<Rightarrow> ('acct, 'z) garble_scheme \<Rightarrow> bool" where
  "writes_ok cc gc s t \<longleftrightarrow> (\<exists>ws. offchain_index_writes t = offchain_index_writes s @ ws \<and> list_all (entry_ok cc gc) ws)"

lemma writes_ok_preorder: "preorder_rel (writes_ok cc gc)"
proof -
  have "writes_ok cc gc s u" if "writes_ok cc gc s t" "writes_ok cc gc t u" for s t u :: "('a, 'b) garble_scheme"
  proof -
    from that obtain vs ws where "offchain_index_writes u = offchain_index_writes s @ (vs @ ws)" "list_all (entry_ok cc gc) (vs @ ws)"
      by (auto simp: writes_ok_def)
    then show ?thesis unfolding writes_ok_def by blast
  qed
  then show ?thesis by (auto simp: preorder_rel_def writes_ok_def)
qed

interpretation job_writes: kept_relation "writes_ok cc gc" for cc gc
  by (rule kept_relation.intro) (rule writes_ok_preorder)

lemma writes_ok_same: "same_cell IndexWritesCell s t \<Longrightarrow> writes_ok cc gc s t"
  by (simp add: writes_ok_def)

lemma keeps_writes_ok_index: "entry_ok cc gc (k, v) \<Longrightarrow> keeps (writes_ok cc gc) (offchain_index_set k v)"
  unfolding offchain_index_set_def by (rule keeps_modify) (simp add: writes_ok_def)

lemma circuits_job_of_call_ok: "job_of_call lg (origin, call) = Some d \<Longrightarrow> circuits_job_ok d"
  by (cases "(lg, origin, call)" rule: job_of_call.cases) (auto simp: circuits_job_ok_def circuits_job_def split: if_splits)

lemma circuits_dispatch_writes_ok: "writes_ok cc gc s (snd (circuits_dispatch cc lg call origin s))"
  by (auto simp: writes_ok_def circuits_dispatch_writes split: option.splits intro: circuits_entry_ok circuits_job_of_call_ok)

lemma strip_request_writes_ok:
  assumes "rand_ok rd"
  shows "keeps (writes_ok cc gc) (garble_and_strip_display_circuits_package_signed gc rd lg origin tx)"
proof -
  have n: "keeps (writes_ok cc gc) (get_and_increment_nonce gc)"
    unfolding get_and_increment_nonce_def
    by (intro job_writes.kept_rbind job_writes.kept_pure keeps_modify) (simp add: writes_ok_def)
  have g: "keeps (writes_ok cc gc) (attempt get_display_circuits_package)"
    by (rule keeps_attempt) (simp add: keeps_def get_display_circuits_package_eq writes_ok_def)
  have j: "keeps (writes_ok cc gc) (append_or_replace_skcd_hash gc GarbleAndStrip None (Some m) (Some p) (Some tx)
      (Some (fst (gen_digits rd 2 (snd (shuffle rd (map byte_of [0..<10]) r)))))
      (Some (fst (shuffle rd (map byte_of [0..<10]) r))))" for m p r
  proof -
    have "is_pinpad (fst (shuffle rd (map byte_of [0..<10]) r))"
      using assms by (simp add: rand_ok_def is_pinpad_def)
    with gen_digits_range [OF assms, of 2] show ?thesis
      unfolding append_or_replace_skcd_hash_def garble_job_key_def [symmetric]
      by (intro keeps_writes_ok_index garble_entry_ok) (auto simp: garble_job_ok_def strip_job_def code_ok_def)
  qed
  show ?thesis
    unfolding garble_and_strip_display_circuits_package_signed_def Let_def case_prod_beta
    by (intro job_writes.kept_rbind job_writes.kept_signed n g j; intro job_writes.kept_quiet quiet_intros)
qed

lemma garble_keeps_writes:
  "IndexWritesCell \<notin> writes_of (OcwGarble call) \<Longrightarrow> writes_ok cc gc s (snd (garble_dispatch gc rd lg call origin s))"
  using keepsD [OF conjunct1 [OF effect_garble [unfolded effect_ok_def]], of call origin s gc rd lg]
  unfolding effect_rel_def by (blast intro: writes_ok_same)

lemma garble_dispatch_writes_ok:
  fixes s :: "('acct, 'z) garble_scheme"
  assumes "rand_ok rd"
  shows "writes_ok cc gc s (snd (garble_dispatch gc rd lg call origin s))"
proof (cases call)
  case (garble_standard_signed_call v)
  have "keeps (writes_ok cc gc :: _ \<Rightarrow> ('acct, 'z) garble_scheme \<Rightarrow> bool)
      (append_or_replace_skcd_hash gc GarbleStandard (Some v) None None None None None)"
    unfolding append_or_replace_skcd_hash_def garble_job_key_def [symmetric]
    by (intro keeps_writes_ok_index garble_entry_ok) (simp add: garble_job_ok_def)
  then have "keeps (writes_ok cc gc :: _ \<Rightarrow> ('acct, 'z) garble_scheme \<Rightarrow> bool) (garble_standard_signed gc lg origin v)"
    unfolding garble_standard_signed_def
    by (intro job_writes.kept_rbind job_writes.kept_signed; (assumption | intro job_writes.kept_quiet quiet_intros))
  then show ?thesis by (simp add: garble_standard_signed_call keepsD)
next
  case (garble_and_strip_display_circuits_package_signed_call tx)
  then show ?thesis by (simp add: keepsD [OF strip_request_writes_ok [OF assms]])
next
  case (callback_new_garbled_signed_call v)
  then show ?thesis by (intro garble_keeps_writes) simp
next
  case (callback_new_garbled_and_strip_signed_call mg mp md pg pp pd)
  then show ?thesis by (intro garble_keeps_writes) simp
qed

lemma dispatch_writes_ok:
  assumes "deployment_ok dep" "ctx \<in> contexts dep"
  shows "writes_ok (circuits_scale dep) (garble_scale dep) s (snd (runtime_dispatch ctx call origin s))"
proof -
  from assms have c: "circuits_codec_of ctx = circuits_scale dep" "garble_codec_of ctx = garble_scale dep" "rand_ok (randomness_of ctx)"
    by (auto simp: deployment_ok_def)
  have quiet: ?thesis if "IndexWritesCell \<notin> writes_of call"
    by (rule writes_ok_same, rule dispatch_keeps_cell) (rule that)
  show ?thesis
  proof (cases call)
    case (OcwCircuits call')
    then show ?thesis by (simp add: c circuits_dispatch_writes_ok)
  next
    case (OcwGarble call')
    then show ?thesis by (simp add: c garble_dispatch_writes_ok)
  next
    case (MobileRegistry call')
    then show ?thesis by (intro quiet) (cases call'; simp)
  next
    case (TxValidation call')
    then show ?thesis by (intro quiet) (cases call'; simp)
  qed
qed

section \<open>Workers find jobs and submit callbacks that are in order\<close>

text \<open>What a computation returns, whenever it returns.\<close>

definition returns :: "('a \<Rightarrow> bool) \<Rightarrow> ('s, 'e, 'a) rust \<Rightarrow> bool" where
  "returns R m \<longleftrightarrow> (\<forall>s x. fst (m s) = Ret x \<longrightarrow> R x)"

lemma returns_ret: "R x \<Longrightarrow> returns R (ret x)"
  by (simp add: returns_def)

lemma returns_rbind: "(\<And>x. returns R (f x)) \<Longrightarrow> returns R (rbind m f)"
  unfolding returns_def rbind_def by (auto split: prod.splits exit.splits)

lemma returns_attempt: "returns R m \<Longrightarrow> returns (\<lambda>q. \<forall>x. q = Inr x \<longrightarrow> R x) (attempt m)"
  unfolding returns_def attempt_def by (auto split: prod.splits exit.splits) (metis fst_conv)

context kept_relation
begin

lemma kept_returned:
  assumes m: "keeps P m" "returns R m" and f: "\<And>x. R x \<Longrightarrow> keeps P (f x)"
  shows "keeps P (rbind m f)"
  unfolding keeps_def
proof
  fix s
  obtain r t where r: "m s = (r, t)" by fastforce
  with keepsD [OF m(1), of s] have st: "P s t" by simp
  show "P s (snd (rbind m f s))"
  proof (cases r)
    case (Ret x)
    with m(2) r have "R x" unfolding returns_def by (metis fst_conv)
    from kept_trans [OF st keepsD [OF f [OF this], of t]] r Ret show ?thesis by (simp add: rbind_Ret)
  qed (use r st in \<open>simp_all add: rbind_def\<close>)
qed

end

definition submits :: "('acct \<times> 'c \<Rightarrow> bool) \<Rightarrow> ('w, 'acct, 'c, 'z) offchain_scheme \<Rightarrow> ('w, 'acct, 'c, 'z) offchain_scheme \<Rightarrow> bool" where
  "submits C s t \<longleftrightarrow> (\<exists>new. submitted t = submitted s @ new \<and> list_all C new)"

lemma submits_preorder: "preorder_rel (submits C)"
proof -
  have "submits C s u" if "submits C s t" "submits C t u" for s t u :: "('a, 'b, 'c, 'd) offchain_scheme"
  proof -
    from that obtain vs ws where "submitted u = submitted s @ (vs @ ws)" "list_all C (vs @ ws)"
      by (auto simp: submits_def)
    then show ?thesis unfolding submits_def by blast
  qed
  then show ?thesis by (auto simp: preorder_rel_def submits_def)
qed

interpretation submissions: kept_relation "submits C" for C
  by (rule kept_relation.intro) (rule submits_preorder)

lemma net_only_submits: "keeps net_only m \<Longrightarrow> keeps (submits C) m"
  by (auto simp: keeps_def net_only_def submits_def)

lemma submits_same: "submitted t = submitted s \<Longrightarrow> submits C s t"
  by (simp add: submits_def)

lemma keeps_send:
  assumes "\<And>a call. a \<in> set (local_accounts env kt) \<Longrightarrow> K call \<Longrightarrow> C (a, into_call env call)"
    and "\<And>a. keeps (submits C) (f a)" "\<And>a. returns K (f a)"
  shows "keeps (submits C) (send_signed_transaction env kt f)"
proof -
  have "keeps (submits C) (map_collect (\<lambda>account. rbind (f account) (\<lambda>call.
       rbind (modify (\<lambda>s. s\<lparr>submitted := submitted s @ [(account, into_call env call)]\<rparr>)) (\<lambda>_.
       ret account))) as)" if "set as \<subseteq> set (local_accounts env kt)" for as
    using that
  proof (induction as)
    case (Cons a as)
    have "keeps (submits C) (modify (\<lambda>s. s\<lparr>submitted := submitted s @ [(a, into_call env call)]\<rparr>))" if "K call" for call
      using assms(1) [OF _ that] Cons.prems by (intro keeps_modify) (simp add: submits_def)
    then have one: "keeps (submits C) (rbind (f a) (\<lambda>call.
       rbind (modify (\<lambda>s. s\<lparr>submitted := submitted s @ [(a, into_call env call)]\<rparr>)) (\<lambda>_. ret a)))"
      by (intro submissions.kept_returned [OF assms(2,3)] submissions.kept_rbind submissions.kept_pure)
    note rest = Cons.IH [OF subset_trans [OF set_subset_Cons Cons.prems]]
    show ?case
      unfolding map_collect.simps
      by (rule submissions.kept_rbind [OF one], rule submissions.kept_rbind [OF rest], rule submissions.kept_pure)
  qed (simp add: submissions.kept_pure)
  then show ?thesis by (simp add: send_signed_transaction_def)
qed

lemma run_slot_submits:
  assumes "pending s \<Longrightarrow> keeps (submits C) (locked_part s)"
  shows "submits C s (snd (run_slot env lock b m pending locked_part s))"
proof -
  have "submits C s (snd (with_guard env lock (locked_part s) (s\<lparr>world := w\<rparr>)))" if "pending s" for w
  proof -
    have "submits C (s\<lparr>world := w\<rparr>) (snd (with_guard env lock (locked_part s) (s\<lparr>world := w\<rparr>)))"
      by (rule keepsD, rule keeps_with_guard [OF assms [OF that]]) (simp add: submits_def)
    then show ?thesis by (simp add: submits_def)
  qed
  then show ?thesis by (auto simp: run_slot_def submits_def split: prod.splits)
qed

subsection \<open>The circuits worker\<close>

lemma circuits_callback_returns: "returns circuits_callback_ok (circuits_callback r)"
  by (cases r) (auto intro!: returns_rbind returns_ret)

lemma circuits_work_submits:
  assumes "into_call env = OcwCircuits" "circuits_env dep = env"
  shows "keeps (submits (submission_ok dep)) (rbind (attempt (circuits_run_job env cc d)) (circuits_finalize_grpc_call env))"
proof -
  have send: "keeps (submits (submission_ok dep)) (send_signed_transaction env CIRC_KEY_TYPE (\<lambda>_. circuits_callback r))" for r
    by (rule keeps_send [where K = circuits_callback_ok])
      (simp_all add: assms submission_ok_def circuits_callback_returns submissions.kept_quiet circuits_callback_quiet)
  have fin: "keeps (submits (submission_ok dep)) (circuits_finalize_grpc_call env r)" for r
    unfolding circuits_finalize_grpc_call_def
    by (cases r) (simp_all add: submissions.kept_pure submissions.kept_rbind send)
  show ?thesis
    by (intro submissions.kept_rbind keeps_attempt net_only_submits [OF circuits_run_job_net] fin)
qed

lemma circuits_worker_submits:
  assumes "into_call env = OcwCircuits" "circuits_env dep = env"
  shows "submits (submission_ok dep) s (snd (circuits_offchain_worker env cc s))"
proof -
  have "keeps (submits (submission_ok dep)) (circuits_locked_part env cc d)" for d
    unfolding circuits_locked_part_def
    by (intro submissions.kept_rbind keeps_modify circuits_work_submits [OF assms]) (simp add: submits_def)
  then show ?thesis
    unfolding offchain_worker_eq circuits_process_eq by (intro run_slot_submits)
qed

text \<open>A slot holds a job that is in order, and a run leaves one.\<close>

lemma circuits_read_ok:
  assumes "\<And>d. dec_circuits_job cc (enc_circuits_job cc d) = Some d" "storage_ok cc gc (local_storage s)"
  shows "circuits_job_ok (circuits_read_job cc s)"
proof (cases "local_storage s (circuits_job_key cc)")
  case None
  then show ?thesis
    by (simp add: circuits_read_job_def storage_get_def circuits_job_key_def circuits_job_ok_def default_circuits_indexing_data_def)
next
  case (Some v)
  with assms(2) obtain d where "v = enc_circuits_job cc d" "circuits_job_ok d"
    by (auto simp: storage_ok_def entry_ok_def)
  with assms(1) Some show ?thesis
    by (simp add: circuits_read_job_def storage_get_def circuits_job_key_def)
qed

lemma run_exit_storage_ok:
  assumes "run_exit env kt key idle s r t" "storage_ok cc gc (local_storage s)" "entry_ok cc gc (key, idle)"
  shows "storage_ok cc gc (local_storage t)"
  using assms by (cases r) (auto simp: run_exit_def storage_ok_put)

lemma circuits_worker_storage_ok:
  "storage_ok cc gc (local_storage s) \<Longrightarrow> storage_ok cc gc (local_storage (snd (circuits_offchain_worker env cc s)))"
  unfolding offchain_worker_eq
  by (rule run_exit_storage_ok [OF circuits_process_exit [OF prod.collapse [symmetric]]] idle_entries_ok | assumption)+

subsection \<open>The garble worker\<close>

lemma garble_read_ok:
  assumes "\<And>d. dec_garble_job gc (enc_garble_job gc d) = Some d" "storage_ok cc gc (local_storage s)"
  shows "garble_job_ok (garble_read_job gc s)"
proof (cases "local_storage s (garble_job_key gc)")
  case None
  then show ?thesis
    by (simp add: garble_read_job_def storage_get_def garble_job_key_def garble_job_ok_def default_garble_indexing_data_def)
next
  case (Some v)
  with assms(2) obtain d where "v = enc_garble_job gc d" "garble_job_ok d"
    by (auto simp: storage_ok_def entry_ok_def)
  with assms(1) Some show ?thesis
    by (simp add: garble_read_job_def storage_get_def garble_job_key_def)
qed

lemma garble_job_returns:
  assumes "garble_job_ok d" "g_block_number d \<noteq> 0"
  shows "returns (\<lambda>r. garble_callback_ok (garble_callback r)) (garble_run_job env gc d)"
proof (cases "g_grpc_kind d")
  case GarbleStandard
  then show ?thesis
    unfolding garble_run_job_def
    by (auto simp: call_grpc_garble_def Let_def case_prod_beta intro!: returns_rbind returns_ret)
next
  case GarbleAndStrip
  with assms obtain m p tx md pd where "d = strip_job m p tx md pd" "code_ok md pd"
    by (auto simp: garble_job_ok_def)
  then show ?thesis
    by (auto simp: garble_run_job_def strip_job_def call_grpc_garble_and_strip_def intro!: returns_rbind returns_ret)
qed

lemma garble_work_submits:
  assumes "into_call env = OcwGarble" "garble_env dep = env" "garble_job_ok d" "g_block_number d \<noteq> 0"
  shows "keeps (submits (submission_ok dep)) (rbind (attempt (garble_run_job env gc d)) (garble_finalize_grpc_call env))"
proof -
  have send: "keeps (submits (submission_ok dep)) (send_signed_transaction env GARB_KEY_TYPE (\<lambda>_. ret (garble_callback r)))"
    if "garble_callback_ok (garble_callback r)" for r
    by (rule keeps_send [where K = garble_callback_ok])
      (simp_all add: assms(1,2) submission_ok_def that returns_ret submissions.kept_pure)
  have fin: "keeps (submits (submission_ok dep)) (garble_finalize_grpc_call env q)"
    if "\<forall>r. q = Inr r \<longrightarrow> garble_callback_ok (garble_callback r)" for q
    unfolding garble_finalize_grpc_call_def using that
    by (cases q) (simp_all add: submissions.kept_pure submissions.kept_rbind send)
  show ?thesis
    by (rule submissions.kept_returned [OF keeps_attempt [OF net_only_submits [OF garble_run_job_net]]
          returns_attempt [OF garble_job_returns [OF assms(3,4)]] fin])
qed

lemma garble_worker_submits:
  assumes "into_call env = OcwGarble" "garble_env dep = env"
    and "\<And>d. dec_garble_job gc (enc_garble_job gc d) = Some d" "storage_ok cc gc (local_storage s)"
  shows "submits (submission_ok dep) s (snd (garble_offchain_worker env gc s))"
proof -
  have "keeps (submits (submission_ok dep)) (garble_locked_part env gc (garble_read_job gc s))" if "garble_pending gc s"
    unfolding garble_locked_part_def
    by (intro submissions.kept_rbind keeps_modify garble_work_submits [OF assms(1,2) garble_read_ok [OF assms(3,4)]])
      (use that in \<open>simp_all add: submits_def garble_pending_def\<close>)
  then show ?thesis
    unfolding garble_offchain_worker_eq garble_process_eq by (intro run_slot_submits)
qed

lemma garble_worker_storage_ok:
  "storage_ok cc gc (local_storage s) \<Longrightarrow> storage_ok cc gc (local_storage (snd (garble_offchain_worker env gc s)))"
  unfolding garble_offchain_worker_eq
  by (rule run_exit_storage_ok [OF garble_process_exit [OF prod.collapse [symmetric]]] idle_entries_ok | assumption)+

section \<open>Overlapping runs\<close>

text \<open>The job that a run works on, once it has read it.\<close>

fun job_of :: "'d pc \<Rightarrow> 'd option" where
  "job_of (HasJob d) = Some d"
| "job_of (HasLock d) = Some d"
| "job_of (Emptied d) = Some d"
| "job_of _ = None"

definition runs_ok :: "('d \<Rightarrow> bool) \<Rightarrow> (nat \<Rightarrow> 'd pc) \<Rightarrow> bool" where
  "runs_ok J ps \<longleftrightarrow> (\<forall>i d. job_of (ps i) = Some d \<longrightarrow> J d)"

lemma runs_ok_update: "runs_ok J ps \<Longrightarrow> (\<And>d. job_of p = Some d \<Longrightarrow> J d) \<Longrightarrow> runs_ok J (ps(i := p))"
  by (simp add: runs_ok_def)

text \<open>
  What a step of a run keeps, when the slot holds good jobs only, the work on a good job leaves the
  storage alone, and the submissions it makes are good.
\<close>

lemma worker_step_keeps:
  assumes step: "worker_step ops s t"
    and read: "has_job ops (read_job ops (node s)) \<Longrightarrow> J (read_job ops (node s))"
    and runs: "runs_ok J (pcs s)" and store: "storage_ok cc gc (local_storage (node s))"
    and idle: "entry_ok cc gc (slot_key ops, idle_value ops)"
    and work: "\<And>d n. J d \<Longrightarrow> same_storage n (snd (work ops d n)) \<and> submits C n (snd (work ops d n))"
  shows "runs_ok J (pcs t) \<and> storage_ok cc gc (local_storage (node t)) \<and> submits C (node s) (node t)"
proof -
  from step have "race_step ops s t" "pcs t \<noteq> pcs s" by (simp_all add: worker_step_def)
  then show ?thesis
  proof (cases rule: race_step.cases)
    case (read_slot i d)
    with runs store read show ?thesis
      by (auto simp: submits_same intro!: runs_ok_update split: if_splits)
  next
    case (try_lock i d b w)
    with runs have "J d" unfolding runs_ok_def by (metis job_of.simps(1))
    with try_lock runs store show ?thesis
      by (auto simp: submits_same intro!: runs_ok_update split: if_splits)
  next
    case (empty_slot i d)
    with runs have "J d" unfolding runs_ok_def by (metis job_of.simps(2))
    with empty_slot runs store idle show ?thesis
      by (auto simp: submits_same put_local_def storage_ok_put intro!: runs_ok_update)
  next
    case (do_work i d r n)
    with runs have "J d" unfolding runs_ok_def by (metis job_of.simps(3))
    from work [OF this, of "node s"] do_work runs store show ?thesis
      by (auto simp: same_storage_def intro!: runs_ok_update)
  next
    case (leave i b)
    with runs store show ?thesis by (auto simp: submits_same intro!: runs_ok_update)
  qed simp
qed

definition circuits_job_todo :: "circuits_indexing_data \<Rightarrow> bool" where
  "circuits_job_todo d \<longleftrightarrow> circuits_job_ok d \<and> c_block_number d \<noteq> 0"

definition garble_job_todo :: "garble_indexing_data \<Rightarrow> bool" where
  "garble_job_todo d \<longleftrightarrow> garble_job_ok d \<and> g_block_number d \<noteq> 0"

lemma circuits_part_keeps:
  assumes "worker_step (circuits_ops env cc) s t" "into_call env = OcwCircuits" "circuits_env dep = env"
    and "\<And>d. dec_circuits_job cc (enc_circuits_job cc d) = Some d"
    and "runs_ok circuits_job_todo (pcs s)" "storage_ok cc gc (local_storage (node s))"
  shows "runs_ok circuits_job_todo (pcs t) \<and> storage_ok cc gc (local_storage (node t)) \<and> submits (submission_ok dep) (node s) (node t)"
proof (rule worker_step_keeps [OF assms(1) _ assms(5,6)])
  show "circuits_job_todo (read_job (circuits_ops env cc) (node s))" if "has_job (circuits_ops env cc) (read_job (circuits_ops env cc) (node s))"
    using that circuits_read_ok [OF assms(4,6)] by (simp add: circuits_ops_def circuits_job_todo_def)
  show "entry_ok cc gc (slot_key (circuits_ops env cc), idle_value (circuits_ops env cc))"
    by (simp add: circuits_ops_def idle_entries_ok)
  show "same_storage n (snd (work (circuits_ops env cc) d n)) \<and> submits (submission_ok dep) n (snd (work (circuits_ops env cc) d n))" for d n
    by (simp add: circuits_ops_def keepsD [OF circuits_job_storage] keepsD [OF circuits_work_submits [OF assms(2,3)]])
qed

lemma garble_job_storage: "keeps same_storage (rbind (attempt (garble_run_job env gc d)) (garble_finalize_grpc_call env))"
  by (intro storage.kept_rbind keeps_attempt keeps_same_storage garble_run_job_net
      finalizes_storage [OF garble_finalizes])

lemma garble_part_keeps:
  assumes "worker_step (garble_ops env gc) s t" "into_call env = OcwGarble" "garble_env dep = env"
    and "\<And>d. dec_garble_job gc (enc_garble_job gc d) = Some d"
    and "runs_ok garble_job_todo (pcs s)" "storage_ok cc gc (local_storage (node s))"
  shows "runs_ok garble_job_todo (pcs t) \<and> storage_ok cc gc (local_storage (node t)) \<and> submits (submission_ok dep) (node s) (node t)"
proof (rule worker_step_keeps [OF assms(1) _ assms(5,6)])
  show "garble_job_todo (read_job (garble_ops env gc) (node s))" if "has_job (garble_ops env gc) (read_job (garble_ops env gc) (node s))"
    using that garble_read_ok [OF assms(4,6)] by (simp add: garble_ops_def garble_job_todo_def)
  show "entry_ok cc gc (slot_key (garble_ops env gc), idle_value (garble_ops env gc))"
    by (simp add: garble_ops_def idle_entries_ok)
  show "same_storage n (snd (work (garble_ops env gc) d n)) \<and> submits (submission_ok dep) n (snd (work (garble_ops env gc) d n))"
    if "garble_job_todo d" for d n
    using that by (simp add: garble_ops_def garble_job_todo_def keepsD [OF garble_job_storage]
        keepsD [OF garble_work_submits [OF assms(2,3)]])
qed

section \<open>The invariant\<close>

definition system_inv :: "('w, 'p, 'acct, 'r) deployment \<Rightarrow> ('acct, 'w) system_state \<Rightarrow> bool" where
  "system_inv dep s \<longleftrightarrow>
     list_all (entry_ok (circuits_scale dep) (garble_scale dep)) (offchain_index_writes (chain s))
   \<and> storage_ok (circuits_scale dep) (garble_scale dep) (local_storage (local_node s))
   \<and> list_all (submission_ok dep) (submitted (local_node s))
   \<and> runs_ok circuits_job_todo (circuits_runs s) \<and> runs_ok garble_job_todo (garble_runs s)"

lemma submits_list_all: "submits C s t \<Longrightarrow> list_all C (submitted s) \<Longrightarrow> list_all C (submitted t)"
  by (auto simp: submits_def)

lemma system_inv_step:
  assumes dep: "deployment_ok dep" and step: "system_step dep s t" and inv: "system_inv dep s"
  shows "system_inv dep t"
proof -
  from dep have c: "into_call (circuits_env dep) = OcwCircuits"
      "dec_circuits_job (circuits_scale dep) (enc_circuits_job (circuits_scale dep) d) = Some d"
    and g: "into_call (garble_env dep) = OcwGarble"
      "dec_garble_job (garble_scale dep) (enc_garble_job (garble_scale dep) e) = Some e" for d e
    by (simp_all add: deployment_ok_def)
  from inv have st: "storage_ok (circuits_scale dep) (garble_scale dep) (local_storage (local_node s))"
    and cr: "runs_ok circuits_job_todo (circuits_runs s)" and gr: "runs_ok garble_job_todo (garble_runs s)"
    by (simp_all add: system_inv_def)
  from step show ?thesis
  proof cases
    case (extrinsic ctx call origin)
    with dispatch_writes_ok [OF dep extrinsic(2), of "chain s" call origin] inv show ?thesis
      by (auto simp: system_inv_def writes_ok_def)
  next
    case (block_end indexing)
    with inv show ?thesis by (simp add: system_inv_def end_block_def storage_ok_commit)
  next
    case (circuits_part r)
    have "runs_ok circuits_job_todo (pcs (circuits_view s))"
      "storage_ok (circuits_scale dep) (garble_scale dep) (local_storage (node (circuits_view s)))"
      using cr st by (simp_all add: circuits_view_def)
    note k = circuits_part_keeps [OF circuits_part(2) c(1) refl c(2) this]
    then have "submits (submission_ok dep) (local_node s) (node r)" by (simp add: circuits_view_def)
    from submits_list_all [OF this] k inv circuits_part(1) show ?thesis by (simp add: system_inv_def)
  next
    case (garble_part r)
    have "runs_ok garble_job_todo (pcs (garble_view s))"
      "storage_ok (circuits_scale dep) (garble_scale dep) (local_storage (node (garble_view s)))"
      using gr st by (simp_all add: garble_view_def)
    note k = garble_part_keeps [OF garble_part(2) g(1) refl g(2) this]
    then have "submits (submission_ok dep) (local_node s) (node r)" by (simp add: garble_view_def)
    from submits_list_all [OF this] k inv garble_part(1) show ?thesis by (simp add: system_inv_def)
  next
    case circuits_whole
    from submits_list_all [OF circuits_worker_submits [OF c(1) refl, of "local_node s"]] inv circuits_whole show ?thesis
      by (simp add: system_inv_def circuits_worker_storage_ok)
  next
    case garble_whole
    from submits_list_all [OF garble_worker_submits [OF g(1) refl g(2) st]] inv garble_whole show ?thesis
      by (simp add: system_inv_def garble_worker_storage_ok)
  next
    case (outside w)
    with inv show ?thesis by (simp add: system_inv_def)
  qed
qed

text \<open>
  A node that has not run yet: nothing stored, nothing submitted, no index write of a block under way, and
  every run still to start.
\<close>

definition fresh_system :: "('acct, 'w) system_state \<Rightarrow> bool" where
  "fresh_system s \<longleftrightarrow> offchain_index_writes (chain s) = [] \<and> local_storage (local_node s) = (\<lambda>_. None) \<and> submitted (local_node s) = []
     \<and> circuits_runs s = (\<lambda>_. Start) \<and> garble_runs s = (\<lambda>_. Start)"

interpretation system_invariant: step_invariant "system_step dep" "\<lambda>s. deployment_ok dep \<longrightarrow> system_inv dep s" for dep
  by unfold_locales (auto intro: system_inv_step)

lemma reachable_inv:
  assumes "deployment_ok dep" "fresh_system s" "(system_step dep)\<^sup>*\<^sup>* s t"
  shows "system_inv dep t"
proof -
  from assms(2) have "system_inv dep s" by (simp add: fresh_system_def system_inv_def storage_ok_def runs_ok_def)
  with system_invariant.inv_run [OF assms(3)] assms(1) show ?thesis by blast
qed

lemma reachable_submission:
  assumes "deployment_ok dep" "fresh_system s" "(system_step dep)\<^sup>*\<^sup>* s t" "(a, c) \<in> set (submitted (local_node t))"
  shows "submission_ok dep (a, c)"
  using reachable_inv [OF assms(1-3)] assms(4) by (auto simp: system_inv_def list_all_iff)

text \<open>A job to be done has its arguments.\<close>

lemma circuits_todo_complete:
  assumes "circuits_job_todo d"
  shows "circuits_run_job env cc d = call_grpc_display env cc \<or> (\<exists>v. circuits_run_job env cc d = call_grpc_generic env cc v)"
  using assms by (cases "c_grpc_kind d") (auto simp: circuits_job_todo_def circuits_job_ok_def circuits_run_job_def)

lemma garble_todo_complete:
  assumes "garble_job_todo d"
  shows "(\<exists>v. garble_run_job env gc d = call_grpc_garble env gc v)
     \<or> (\<exists>m p tx md pd. garble_run_job env gc d = call_grpc_garble_and_strip env gc m p tx md pd
          \<and> is_pinpad pd \<and> length md = 2 \<and> (\<forall>x \<in> set md. digit x))"
proof (cases "g_grpc_kind d")
  case GarbleStandard
  with assms show ?thesis by (auto simp: garble_job_todo_def garble_job_ok_def garble_run_job_def)
next
  case GarbleAndStrip
  with assms obtain m p tx md pd where d: "d = strip_job m p tx md pd" and c: "code_ok md pd"
    by (auto simp: garble_job_todo_def garble_job_ok_def)
  have "garble_run_job env gc d = call_grpc_garble_and_strip env gc m p tx md pd"
    by (simp add: d garble_run_job_def strip_job_def)
  with c show ?thesis unfolding code_ok_def by blast
qed

end
