(* ===== verification/System_Runs.thy ===== *)
theory System_Runs
  imports System
begin

text \<open>
  What follows from the invariant of the system for its runs: complete jobs, submissions that are callbacks,
  and callbacks whose digits one code answers; and the way of the reference circuits to the chain. The
  concrete runs at the end take a request for display circuits through its block and the worker.
\<close>

section \<open>What an accepted callback leaves\<close>

lemma strip_callback_returns:
  assumes "callback_new_garbled_and_strip_signed lg (SignedOrigin who) mg mp md pg pp pd s = (Ret (), t)"
  shows "length mg \<le> 64 \<and> circuit_server_metadata_map t (who, mg) = Some \<lparr>message_digits = md, pinpad_digits = pd\<rparr>"
  by (rule strip_callback_cases [OF assms]) (simp_all add: callback_args_ok_def pending_insert_def)

lemma stored_code_stays_unique:
  assumes "circuit_server_metadata_map s (who, cid) = Some \<lparr>message_digits = md, pinpad_digits = pd\<rparr>" "length cid \<le> 64"
    and "code_ok md pd" "(foreign_step who ctxs)\<^sup>*\<^sup>* s t"
  shows "\<exists>!input. (\<forall>b \<in> set input. digit b) \<and> fst (check_input lg (SignedOrigin who) cid input t) = Ret ()"
proof -
  have "same_account s t who"
    by (rule foreign_invariant.inv_run [OF assms(4)]) (simp add: same_account_def)
  with assms(1) have "circuit_server_metadata_map t (who, cid) = Some \<lparr>message_digits = md, pinpad_digits = pd\<rparr>"
    by (simp add: same_account_def)
  from stored_code_unique [OF this assms(2)] assms(3) show ?thesis by (simp add: code_ok_def)
qed

text \<open>Where the invariant holds, the job in a slot and the job that a run has read are complete.\<close>

lemma inv_jobs_complete:
  assumes "deployment_ok dep" and inv: "system_inv dep t"
  shows "(circuits_pending (circuits_scale dep) (local_node t) \<and> d = circuits_read_job (circuits_scale dep) (local_node t)
        \<or> job_of (circuits_runs t i) = Some d \<longrightarrow>
       circuits_run_job env cc d = call_grpc_display env cc \<or> (\<exists>v. circuits_run_job env cc d = call_grpc_generic env cc v))
   \<and> (garble_pending (garble_scale dep) (local_node t) \<and> e = garble_read_job (garble_scale dep) (local_node t)
        \<or> job_of (garble_runs t i) = Some e \<longrightarrow>
       (\<exists>v. garble_run_job env' gc e = call_grpc_garble env' gc v)
     \<or> (\<exists>m p tx md pd. garble_run_job env' gc e = call_grpc_garble_and_strip env' gc m p tx md pd
          \<and> is_pinpad pd \<and> length md = 2 \<and> (\<forall>x \<in> set md. digit x)))"
proof -
  from inv have st: "storage_ok (circuits_scale dep) (garble_scale dep) (local_storage (local_node t))"
    by (simp add: system_inv_def)
  have "circuits_job_ok (circuits_read_job (circuits_scale dep) (local_node t))"
    and "garble_job_ok (garble_read_job (garble_scale dep) (local_node t))"
    using assms(1) by (auto simp: deployment_ok_def intro: circuits_read_ok [OF _ st] garble_read_ok [OF _ st])
  with inv have "circuits_job_todo d" if "circuits_pending (circuits_scale dep) (local_node t)
      \<and> d = circuits_read_job (circuits_scale dep) (local_node t) \<or> job_of (circuits_runs t i) = Some d"
    using that by (auto simp: circuits_job_todo_def circuits_pending_def system_inv_def runs_ok_def)
  moreover have "garble_job_todo e" if "garble_pending (garble_scale dep) (local_node t)
      \<and> e = garble_read_job (garble_scale dep) (local_node t) \<or> job_of (garble_runs t i) = Some e"
    using that inv \<open>garble_job_ok (garble_read_job (garble_scale dep) (local_node t))\<close>
    by (auto simp: garble_job_todo_def garble_pending_def system_inv_def runs_ok_def)
  ultimately show ?thesis
    using circuits_todo_complete [of d env cc] garble_todo_complete [of e env' gc] by blast
qed

section \<open>Properties\<close>

text \<open>C11: In every run of chain and node, whatever is dispatched, however the workers' runs overlap and their
  requests go, and even if a lock expires, the job in a slot and the job that any run has read are complete:
  what is run is one of the four API requests with its arguments present, so none of the expects on a
  missing identifier, text or digits can fail, and the digits of a job for display circuits are two digits
  with a permutation of the ten digits as their pinpad.\<close>

theorem jobs_are_complete:
  assumes "deployment_ok dep" "fresh_system s" "(system_step dep)\<^sup>*\<^sup>* s t"
  shows "(circuits_pending (circuits_scale dep) (local_node t) \<and> d = circuits_read_job (circuits_scale dep) (local_node t)
        \<or> job_of (circuits_runs t i) = Some d \<longrightarrow>
       circuits_run_job env cc d = call_grpc_display env cc \<or> (\<exists>v. circuits_run_job env cc d = call_grpc_generic env cc v))
   \<and> (garble_pending (garble_scale dep) (local_node t) \<and> e = garble_read_job (garble_scale dep) (local_node t)
        \<or> job_of (garble_runs t i) = Some e \<longrightarrow>
       (\<exists>v. garble_run_job env' gc e = call_grpc_garble env' gc v)
     \<or> (\<exists>m p tx md pd. garble_run_job env' gc e = call_grpc_garble_and_strip env' gc m p tx md pd
          \<and> is_pinpad pd \<and> length md = 2 \<and> (\<forall>x \<in> set md. digit x)))"
  by (rule inv_jobs_complete [OF assms(1) reachable_inv [OF assms]])

text \<open>C22: In every run, each transaction that the workers have submitted is a callback of one of the two
  pallets, signed by an account whose key the node holds under that pallet's key type, and no worker ever
  submits a request, a registration or a validation entry.\<close>

theorem workers_submit_only_callbacks:
  assumes "deployment_ok dep" "fresh_system s" "(system_step dep)\<^sup>*\<^sup>* s t" "(a, c) \<in> set (submitted (local_node t))"
  shows "(\<exists>v. c = OcwCircuits (callback_new_skcd_signed_call v)
      \<or> (\<exists>m mn p pn. c = OcwCircuits (callback_new_display_circuits_package_signed_call m mn p pn)))
      \<and> a \<in> set (local_accounts (circuits_env dep) CIRC_KEY_TYPE)
    \<or> (\<exists>v. c = OcwGarble (callback_new_garbled_signed_call v)
      \<or> (\<exists>mg mp md pg pp pd. c = OcwGarble (callback_new_garbled_and_strip_signed_call mg mp md pg pp pd)))
      \<and> a \<in> set (local_accounts (garble_env dep) GARB_KEY_TYPE)"
proof -
  from reachable_submission [OF assms] have ok: "submission_ok dep (a, c)" .
  then show ?thesis
  proof (cases c)
    case (OcwCircuits call)
    with ok show ?thesis by (cases call) (auto simp: submission_ok_def)
  next
    case (OcwGarble call)
    with ok show ?thesis by (cases call) (auto simp: submission_ok_def)
  qed (simp_all add: submission_ok_def)
qed

text \<open>C2: Take any callback for display circuits that a worker has submitted in any run. If it is dispatched
  successfully for its signer, in whatever state of the chain, then from there on, whatever calls others
  make, there is exactly one code of digits that check_input accepts from the signer for its circuit.\<close>

theorem accepted_callbacks_have_one_code:
  assumes "deployment_ok dep" "fresh_system s" "(system_step dep)\<^sup>*\<^sup>* s t"
    and "(a, OcwGarble (callback_new_garbled_and_strip_signed_call mg mp md pg pp pd)) \<in> set (submitted (local_node t))"
    and "runtime_dispatch ctx (OcwGarble (callback_new_garbled_and_strip_signed_call mg mp md pg pp pd)) (SignedOrigin a) u = (Ret (), v)"
    and "(foreign_step a ctxs)\<^sup>*\<^sup>* v w"
  shows "\<exists>!input. (\<forall>b \<in> set input. digit b) \<and> fst (check_input lg (SignedOrigin a) mg input w) = Ret ()"
proof -
  from reachable_submission [OF assms(1-4)] have code: "code_ok md pd" by (simp add: submission_ok_def)
  from assms(5) have "callback_new_garbled_and_strip_signed (logs_info ctx) (SignedOrigin a) mg mp md pg pp pd u = (Ret (), v)"
    by (auto simp: map_err_def split: prod.splits exit.splits)
  note r = strip_callback_returns [OF this]
  from stored_code_stays_unique [OF conjunct2 [OF r] conjunct1 [OF r] code assms(6)] show ?thesis .
qed

text \<open>C17: The reference circuits reach the chain: after a display request, the end of its block and a run of the
  worker whose two requests are answered, the node has submitted a callback for each of its accounts, and
  once one is dispatched, in whatever state, the reference package is the one of the replies, and every user's
  next request for garbled circuits goes through if the random seed decodes.\<close>

theorem reference_package_reaches_the_chain:
  assumes codec: "\<And>d. dec_circuits_job cc (enc_circuits_job cc d) = Some d"
    and request: "submit_config_display_circuits_package_signed cc (SignedOrigin user) s = (Ret (), s1)"
    and lock: "lock_acquire env CIRC_LOCK_KEY CIRC_LOCK_BLOCK_EXPIRATION CIRC_LOCK_TIMEOUT_EXPIRATION
      (world (commit_index_writes True (offchain_index_writes s1) n)) = (True, w0)"
    and env: "std_build env" "env_var env ''INTERSTELLAR_URI_ROOT_API_CIRCUITS'' = Some root"
      "\<forall>b. enc_display_request cc (display_request b) \<noteq> None"
    and hosts: "display_host_ok env cc root True m w0 w1" "display_host_ok env cc root False p w1 w2"
    and signer: "a \<in> set (local_accounts env CIRC_KEY_TYPE)"
    and args: "length (display_skcd_cid m) \<le> 64" "length (display_skcd_cid p) \<le> 64"
      "valid_utf8 (display_skcd_cid m)" "valid_utf8 (display_skcd_cid p)"
      "nb_digits (the (server_metadata m)) \<noteq> 0" "nb_digits (the (server_metadata p)) \<noteq> 0"
  shows "\<exists>call v. (a, into_call env call) \<in> set (submitted (snd
        (circuits_offchain_worker env cc (commit_index_writes True (offchain_index_writes s1) n))))
    \<and> circuits_dispatch cc lg call (SignedOrigin a) (u :: ('acct, 'z) garble_scheme) = (Ret (), v)
    \<and> message_skcd_cid (display_skcd_package_value v) = display_skcd_cid m
    \<and> pinpad_skcd_cid (display_skcd_package_value v) = display_skcd_cid p
    \<and> (\<forall>who tx gc rd lg'. (lg' \<longrightarrow> valid_utf8 tx) \<longrightarrow> drawn_digits gc rd (nonce v) \<noteq> None \<longrightarrow>
        fst (garble_and_strip_display_circuits_package_signed gc rd lg' (SignedOrigin who) tx v) = Ret ())"
proof -
  let ?n = "commit_index_writes True (offchain_index_writes s1) n"
  from request have w: "offchain_index_writes s1 = offchain_index_writes s @ [(circuits_job_key cc, enc_circuits_job cc (circuits_job None Display))]"
    by (auto simp: submit_config_display_circuits_package_signed_def append_or_replace_verilog_hash_def
        circuits_job_key_def circuits_job_def)
  have job: "circuits_read_job cc ?n = circuits_job None Display"
    using codec by (simp add: w circuits_read_job_def storage_get_def circuits_job_key_def [symmetric] commit_last_write)
  then have pending: "circuits_pending cc ?n" "c_grpc_kind (circuits_read_job cc ?n) = Display"
    by (simp_all add: circuits_pending_def circuits_job_def)
  from display_job_run [OF pending lock env hosts] signer
  have sent: "(a, into_call env (display_callback m p)) \<in> set (submitted (snd (circuits_offchain_worker env cc ?n)))"
    by simp
  let ?pkg = "\<lparr>message_skcd_cid = display_skcd_cid m, message_skcd_server_metadata_nb_digits = nb_digits (the (server_metadata m)),
    pinpad_skcd_cid = display_skcd_cid p, pinpad_skcd_server_metadata_nb_digits = nb_digits (the (server_metadata p))\<rparr>"
  let ?v = "set_display_package ?pkg (deposited (OcwCircuitsEvent (NewDisplaySkcdPackageIpfsCid (display_skcd_cid m) (display_skcd_cid p))) u)"
  have v: "circuits_dispatch cc lg (display_callback m p) (SignedOrigin a) u = (Ret (), ?v)"
    using args by (cases lg) (simp_all add: display_callback_def callback_new_display_circuits_package_signed_def from_utf8_valid)
  have strip: "fst (garble_and_strip_display_circuits_package_signed gc rd lg' (SignedOrigin who) tx ?v) = Ret ()"
    if "lg' \<longrightarrow> valid_utf8 tx" "drawn_digits gc rd (nonce ?v) \<noteq> None" for who tx gc lg' rd
    using that args by (subst strip_request_eq) (auto simp: package_ready_def request_log_safe_def)
  show ?thesis
    by (intro exI conjI allI impI) (rule sent, rule v, simp, simp, rule strip, assumption+)
qed

section \<open>Concrete runs\<close>

definition runtime_env :: "('call \<Rightarrow> runtime_call) \<Rightarrow> (http_response list, unit, nat, 'call, runtime_call) ocw_env" where
  "runtime_env wrap = \<lparr>std_build = True, env_var = env_var (demo_env :: (http_response list, unit, nat, 'call, 'call) ocw_env),
     http = scripted_host, base64_decode = Some, lock_acquire = (\<lambda>_ _ _ w. (True, w)),
     lock_release = (\<lambda>_ w. w), local_accounts = (\<lambda>_. [42]), into_call = wrap\<rparr>"

lemma runtime_env_simps [simp]:
  "std_build (runtime_env wrap)" "http (runtime_env wrap) = scripted_host" "local_accounts (runtime_env wrap) kt = [42]"
  "env_var (runtime_env wrap) ''INTERSTELLAR_URI_ROOT_API_GARBLE'' = Some ''http://api''"
  "lock_acquire (runtime_env wrap) k b m w = (True, w)" "lock_release (runtime_env wrap) k w = w"
  "into_call (runtime_env wrap) = wrap"
  by (simp_all add: runtime_env_def)

definition demo_deployment :: "(http_response list, unit, nat, bytes) deployment" where
  "demo_deployment = \<lparr>circuits_env = runtime_env OcwCircuits, garble_env = runtime_env OcwGarble,
     circuits_scale = demo_circuits_codec, garble_scale = demo_garble_codec, contexts = {demo_context}\<rparr>"

lemma demo_deployment_simps [simp]:
  "circuits_env demo_deployment = runtime_env OcwCircuits" "garble_env demo_deployment = runtime_env OcwGarble"
  "circuits_scale demo_deployment = demo_circuits_codec" "garble_scale demo_deployment = demo_garble_codec"
  "contexts demo_deployment = {demo_context}"
  by (simp_all add: demo_deployment_def)

lemma demo_deployment_ok: "deployment_ok demo_deployment"
  by (simp add: deployment_ok_def demo_circuits_roundtrip demo_garble_roundtrip demo_context_def demo_rand_ok)

text \<open>A request for display circuits, the end of its block, and a run of the garble worker.\<close>

definition demo_start :: "(nat, http_response list) system_state" where
  "demo_start = \<lparr>chain = demo_garble, local_node = idle_node demo_strip_responses,
     circuits_runs = (\<lambda>_. Start), garble_runs = (\<lambda>_. Start)\<rparr>"

definition demo_pin :: bytes where
  "demo_pin = rev (map byte_of [0..<10])"

definition demo_requested :: "(nat, http_response list) system_state" where
  "demo_requested = demo_start\<lparr>chain := snd (runtime_dispatch demo_context
     (OcwGarble (garble_and_strip_display_circuits_package_signed_call [72])) (SignedOrigin 7) (chain demo_start))\<rparr>"

definition demo_ended :: "(nat, http_response list) system_state" where
  "demo_ended = demo_requested\<lparr>chain := end_block (chain demo_requested),
     local_node := commit_index_writes True (offchain_index_writes (chain demo_requested)) (local_node demo_requested)\<rparr>"

definition demo_worked :: "(nat, http_response list) system_state" where
  "demo_worked = demo_ended\<lparr>local_node := snd (garble_offchain_worker (garble_env demo_deployment) (garble_scale demo_deployment) (local_node demo_ended))\<rparr>"

definition demo_callback :: garble_call where
  "demo_callback = callback_new_garbled_and_strip_signed_call [77] [77] [0, 0] [80] [80] demo_pin"

lemma demo_fresh: "fresh_system demo_start"
  by (simp add: fresh_system_def demo_start_def demo_garble_facts idle_node_def)

lemma demo_reaches_ended: "(system_step demo_deployment)\<^sup>*\<^sup>* demo_start demo_ended"
proof -
  have "system_step demo_deployment demo_start demo_requested"
    unfolding demo_requested_def by (rule extrinsic) simp
  moreover have "system_step demo_deployment demo_requested demo_ended"
    unfolding demo_ended_def by (rule block_end)
  ultimately show ?thesis by (rule converse_rtranclp_into_rtranclp [OF _ r_into_rtranclp])
qed

lemma demo_reaches_worked: "(system_step demo_deployment)\<^sup>*\<^sup>* demo_start demo_worked"
proof -
  have "system_step demo_deployment demo_ended demo_worked"
    unfolding demo_worked_def by (rule garble_whole)
  with demo_reaches_ended show ?thesis by (rule rtranclp.rtrancl_into_rtrancl)
qed

lemma demo_ended_job: "garble_read_job demo_garble_codec (local_node demo_ended) = strip_job [81, 1] [81, 2] [72] [0, 0] demo_pin"
  and demo_ended_world: "world (local_node demo_ended) = demo_strip_responses" "submitted (local_node demo_ended) = []"
proof -
  have c: "chain demo_requested = (set_nonce 1 demo_garble)\<lparr>offchain_index_writes := [(garble_job_key demo_garble_codec,
      enc_garble_job demo_garble_codec (strip_job [81, 1] [81, 2] [72] [0, 0] demo_pin))]\<rparr>"
    by (simp add: demo_requested_def demo_start_def demo_context_def strip_request_eq [OF demo_garble_facts(1,2)]
        demo_drawn demo_garble_facts demo_pin_def demo_package_ready_def)
  have n: "local_node demo_requested = idle_node demo_strip_responses"
    by (simp add: demo_requested_def demo_start_def)
  show "garble_read_job demo_garble_codec (local_node demo_ended) = strip_job [81, 1] [81, 2] [72] [0, 0] demo_pin"
    "world (local_node demo_ended) = demo_strip_responses" "submitted (local_node demo_ended) = []"
    by (simp_all add: demo_ended_def c n garble_read_job_def storage_get_def garble_job_key_def [symmetric]
        demo_garble_roundtrip idle_node_def)
qed

lemma demo_worked_submits: "submitted (local_node demo_worked) = [(42, OcwGarble demo_callback)]"
proof -
  have h: "strip_host_ok (runtime_env OcwGarble) = strip_host_ok (demo_env :: (http_response list, unit, nat, garble_call, garble_call) ocw_env)"
    by (intro ext) (simp add: strip_host_ok_def strip_post_def)
  show ?thesis
    unfolding demo_worked_def
    by (simp, subst strip_job_run [OF demo_ended_job, where ?w0.0 = demo_strip_responses and root = "''http://api''"
          and m = "\<lparr>srep_pgarbled_cid = [77], srep_packmsg_cid = rev [77]\<rparr>" and ?w2.0 = "[]"
          and ?w1.0 = "[ok_response (frame [80] @ [128, 0, 0, 0, 0])]" and p = "\<lparr>srep_pgarbled_cid = [80], srep_packmsg_cid = rev [80]\<rparr>"])
      (simp_all add: h demo_ended_world demo_strip_hosts [simplified] demo_callback_def)
qed

theorem jobs_are_complete_witness:
  "(\<exists>v. garble_run_job (runtime_env OcwGarble) demo_garble_codec (garble_read_job demo_garble_codec (local_node demo_ended)) =
       call_grpc_garble (runtime_env OcwGarble) demo_garble_codec v)
   \<or> (\<exists>m p tx md pd. garble_run_job (runtime_env OcwGarble) demo_garble_codec (garble_read_job demo_garble_codec (local_node demo_ended)) =
       call_grpc_garble_and_strip (runtime_env OcwGarble) demo_garble_codec m p tx md pd
       \<and> is_pinpad pd \<and> length md = 2 \<and> (\<forall>d \<in> set md. digit d))"
proof -
  have "garble_pending (garble_scale demo_deployment) (local_node demo_ended)"
    by (simp add: garble_pending_def demo_ended_job strip_job_def)
  with jobs_are_complete [OF demo_deployment_ok demo_fresh demo_reaches_ended, where env' = "runtime_env OcwGarble"
      and gc = demo_garble_codec and e = "garble_read_job demo_garble_codec (local_node demo_ended)"]
  show ?thesis unfolding demo_deployment_simps by blast
qed

theorem workers_submit_only_callbacks_witness:
  "(\<exists>mg mp md pg pp pd. OcwGarble demo_callback = OcwGarble (callback_new_garbled_and_strip_signed_call mg mp md pg pp pd))
   \<and> 42 \<in> set (local_accounts (garble_env demo_deployment) GARB_KEY_TYPE)"
proof -
  have "(42, OcwGarble demo_callback) \<in> set (submitted (local_node demo_worked))"
    by (simp add: demo_worked_submits)
  from workers_submit_only_callbacks [OF demo_deployment_ok demo_fresh demo_reaches_worked this]
  show ?thesis by (simp add: demo_callback_def)
qed

theorem accepted_callbacks_have_one_code_witness:
  "\<exists>!input. (\<forall>b \<in> set input. digit b) \<and> fst (check_input True (SignedOrigin 42) [77] input
     (snd (runtime_dispatch demo_context (OcwGarble demo_callback) (SignedOrigin 42) demo_garble))) = Ret ()"
proof -
  obtain v where v: "runtime_dispatch demo_context (OcwGarble demo_callback) (SignedOrigin 42) demo_garble = (Ret (), v)"
    using strip_callback_eq [of "[77]" "[77]" "[0, 0]" "[80]" "[80]" demo_pin True 42 demo_garble]
    by (simp add: callback_args_ok_def callback_log_safe_def valid_ascii is_ascii_def demo_garble_facts Let_def
        demo_callback_def demo_context_def map_err_def demo_pin_def)
  have "(42, OcwGarble demo_callback) \<in> set (submitted (local_node demo_worked))"
    by (simp add: demo_worked_submits)
  from accepted_callbacks_have_one_code [OF demo_deployment_ok demo_fresh demo_reaches_worked this [unfolded demo_callback_def]
      v [unfolded demo_callback_def] rtranclp.rtrancl_refl]
  show ?thesis unfolding v snd_conv .
qed

theorem reference_package_reaches_the_chain_witness:
  "\<exists>call v. (42, into_call demo_env call) \<in> set (submitted (snd (circuits_offchain_worker demo_env demo_circuits_codec
        (commit_index_writes True (offchain_index_writes (snd (submit_config_display_circuits_package_signed demo_circuits_codec
          (SignedOrigin (7 :: nat)) (garble_genesis :: nat garble)))) (idle_node demo_display_responses)))))
    \<and> circuits_dispatch demo_circuits_codec True call (SignedOrigin 42) (garble_genesis :: nat garble) = (Ret (), v)
    \<and> message_skcd_cid (display_skcd_package_value v) = [81]"
proof -
  let ?m = "\<lparr>display_skcd_cid = [81], server_metadata = Some \<lparr>nb_digits = 2\<rparr>\<rparr>"
  let ?p = "\<lparr>display_skcd_cid = [82], server_metadata = Some \<lparr>nb_digits = 10\<rparr>\<rparr>"
  have m: "display_host_ok demo_env demo_circuits_codec ''http://api'' True ?m demo_display_responses
      [ok_response (frame [10, 82] @ [128, 0, 0, 0, 0])]"
    unfolding display_host_ok_def demo_display_responses_def
    by (intro exI [of _ "[2, 81]"] exI [of _ "[128, 0, 0, 0, 0]"])
      (simp add: scripted_replies demo_circuits_codec_def)
  have p: "display_host_ok demo_env demo_circuits_codec ''http://api'' False ?p
      [ok_response (frame [10, 82] @ [128, 0, 0, 0, 0])] []"
    unfolding display_host_ok_def
    by (intro exI [of _ "[10, 82]"] exI [of _ "[128, 0, 0, 0, 0]"])
      (simp add: scripted_replies demo_circuits_codec_def)
  obtain s1 :: "nat garble" where s1: "submit_config_display_circuits_package_signed demo_circuits_codec (SignedOrigin 7) garble_genesis = (Ret (), s1)"
    by (simp add: submit_config_display_circuits_package_signed_def append_or_replace_verilog_hash_def)
  have w: "world (commit_index_writes True ws n) = world n" for ws and n :: "(http_response list, nat, circuits_call) offchain"
    by (induction ws arbitrary: n) auto
  have l: "lock_acquire demo_env CIRC_LOCK_KEY CIRC_LOCK_BLOCK_EXPIRATION CIRC_LOCK_TIMEOUT_EXPIRATION
      (world (commit_index_writes True (offchain_index_writes s1) (idle_node demo_display_responses :: (http_response list, nat, circuits_call) offchain)))
      = (True, demo_display_responses)"
    by (simp add: w idle_node_def)
  have e: "\<forall>b. enc_display_request demo_circuits_codec (display_request b) \<noteq> None"
    by (simp add: demo_circuits_codec_def)
  have a: "(42 :: nat) \<in> set (local_accounts demo_env CIRC_KEY_TYPE)" "length (display_skcd_cid ?m) \<le> 64" "length (display_skcd_cid ?p) \<le> 64"
    "valid_utf8 (display_skcd_cid ?m)" "valid_utf8 (display_skcd_cid ?p)"
    "nb_digits (the (server_metadata ?m)) \<noteq> 0" "nb_digits (the (server_metadata ?p)) \<noteq> 0"
    by (simp_all add: valid_ascii is_ascii_def)
  have c: "[81] = display_skcd_cid ?m" by simp
  show ?thesis
    unfolding s1 snd_conv
    by (subst c) (use reference_package_reaches_the_chain [OF demo_circuits_roundtrip s1 l demo_env_simps(1,4) e m p a,
        of True "garble_genesis :: nat garble"] in blast)
qed

end
