(* ===== verification/Worker_Calls.thy ===== *)
theory Worker_Calls
  imports Runtime_Api System_Runs
begin

text \<open>
  How a node calls the off-chain workers: the pallets of \<open>construct_runtime!\<close> (\<open>runtime/src/lib.rs\<close>) in
  their order, the hooks that the API of the off-chain workers runs, and the build that they run in. The
  lemmas show what a panic of one worker does to the other, and where the workers' requests go.
\<close>

section \<open>The pallets\<close>

datatype pallet =
    SystemPallet | RandomnessCollectiveFlipPallet | TimestampPallet | AuraPallet | GrandpaPallet | BalancesPallet
  | TransactionPaymentPallet | SudoPallet | MobileRegistryPallet | OcwCircuitsPallet | OcwGarblePallet | TxValidationPallet

definition runtime_pallets :: "pallet list" where
  "runtime_pallets = [SystemPallet, RandomnessCollectiveFlipPallet, TimestampPallet, AuraPallet, GrandpaPallet, BalancesPallet,
     TransactionPaymentPallet, SudoPallet, MobileRegistryPallet, OcwCircuitsPallet, OcwGarblePallet, TxValidationPallet]"

text \<open>The \<open>offchain_worker\<close> hook of each pallet; a pallet without one has the empty default.\<close>

fun offchain_hook ::
  "('w, 'p, 'acct, 'r) deployment \<Rightarrow> pallet \<Rightarrow> (('w, 'acct, runtime_call) offchain, unit, unit) rust" where
  "offchain_hook dep OcwCircuitsPallet =
     map_err (\<lambda>_. ()) (circuits_offchain_worker (circuits_env dep) (circuits_scale dep))"
| "offchain_hook dep OcwGarblePallet =
     map_err (\<lambda>_. ()) (garble_offchain_worker (garble_env dep) (garble_scale dep))"
| "offchain_hook dep _ = ret ()"

text \<open>
  \<open>Executive::offchain_worker\<close> is given the pallets as \<open>AllPalletsWithSystem\<close>. It is documented to run
  their hooks one after the other, in the order in which they are declared.
\<close>

fun run_hooks :: "(pallet \<Rightarrow> ('s, 'e, unit) rust) \<Rightarrow> pallet list \<Rightarrow> ('s, 'e, unit) rust" where
  "run_hooks hook [] = ret ()"
| "run_hooks hook (p # ps) = rbind (hook p) (\<lambda>_. run_hooks hook ps)"

definition hooks_in_order :: "((pallet \<Rightarrow> ('s, 'e, unit) rust) \<Rightarrow> pallet list \<Rightarrow> ('s, 'e, unit) rust) \<Rightarrow> bool" where
  "hooks_in_order executive_hooks \<longleftrightarrow> (\<forall>hook ps. executive_hooks hook ps = run_hooks hook ps)"

definition api_offchain_worker ::
  "((pallet \<Rightarrow> (('w, 'acct, runtime_call) offchain, unit, unit) rust) \<Rightarrow> pallet list \<Rightarrow>
     (('w, 'acct, runtime_call) offchain, unit, unit) rust) \<Rightarrow>
   ('w, 'p, 'acct, 'r) deployment \<Rightarrow> (('w, 'acct, runtime_call) offchain, unit, unit) rust" where
  "api_offchain_worker executive_hooks dep = executive_hooks (offchain_hook dep) runtime_pallets"

lemma api_offchain_worker_eq:
  assumes "hooks_in_order executive_hooks"
  shows "api_offchain_worker executive_hooks dep =
    rbind (map_err (\<lambda>_. ()) (circuits_offchain_worker (circuits_env dep) (circuits_scale dep))) (\<lambda>_.
      map_err (\<lambda>_. ()) (garble_offchain_worker (garble_env dep) (garble_scale dep)))"
  using assms by (simp add: hooks_in_order_def api_offchain_worker_def runtime_pallets_def)

text \<open>So a call of the API is one or two whole runs in the system.\<close>

lemma api_call_is_steps:
  assumes "hooks_in_order executive_hooks"
  shows "(system_step dep)\<^sup>*\<^sup>* s (s\<lparr>local_node := snd (api_offchain_worker executive_hooks dep (local_node s))\<rparr>)"
proof -
  define c where "c = circuits_offchain_worker (circuits_env dep) (circuits_scale dep) (local_node s)"
  define n where "n = snd c"
  define m where "m = snd (garble_offchain_worker (garble_env dep) (garble_scale dep) n)"
  have "snd (api_offchain_worker executive_hooks dep (local_node s)) \<in> {n, m}"
    unfolding api_offchain_worker_eq [OF assms] n_def m_def c_def
    by (auto simp: rbind_def map_err_def split: prod.splits exit.splits)
  moreover have 1: "system_step dep s (s\<lparr>local_node := n\<rparr>)"
    unfolding n_def c_def by (rule circuits_whole)
  moreover have 2: "system_step dep (s\<lparr>local_node := n\<rparr>) (s\<lparr>local_node := m\<rparr>)"
    using garble_whole [of dep "s\<lparr>local_node := n\<rparr>"] by (simp add: m_def)
  moreover from 1 have "(system_step dep)\<^sup>*\<^sup>* s (s\<lparr>local_node := n\<rparr>)" by (rule r_into_rtranclp)
  moreover from this 2 have "(system_step dep)\<^sup>*\<^sup>* s (s\<lparr>local_node := m\<rparr>)" by (rule rtranclp.rtrancl_into_rtrancl)
  ultimately show ?thesis by auto
qed

section \<open>A panic of the first worker\<close>

lemma circuits_panic_leaves:
  assumes "circuits_offchain_worker env cc s = (Panic p, t)"
  shows "local_storage t = (local_storage s)(circuits_job_key cc := Some (circuits_idle_job cc))" "submitted t = submitted s"
  using circuits_process_exit [of env cc s] assms by (simp_all add: offchain_worker_eq run_exit_def)

lemma circuits_idle_returns:
  "\<not> circuits_pending cc s \<Longrightarrow> circuits_offchain_worker env cc s = (Ret (), s)"
  by (simp add: offchain_worker_eq circuits_process_eq run_slot_def)

lemma garble_takes_job:
  assumes "dec_garble_job gc (garble_idle_job gc) = Some default_garble_indexing_data" "garble_pending gc s" "garble_lock_free env s"
  shows "\<not> garble_pending gc (snd (garble_offchain_worker env gc s))"
  using garble_slot.job_taken [OF assms] by (simp add: garble_offchain_worker_eq)

lemma garble_slot_kept:
  assumes "local_storage t (garble_job_key gc) = local_storage s (garble_job_key gc)"
  shows "garble_read_job gc t = garble_read_job gc s"
  using assms by (simp add: garble_read_job_def storage_get_def garble_job_key_def)

section \<open>Which build runs\<close>

text \<open>A worker's environment on a chain with the version \<open>onchain\<close>.\<close>

definition executed_on ::
  "(runtime_version \<Rightarrow> bool) \<Rightarrow> runtime_version \<Rightarrow> ('w, 'p, 'acct, 'call, 'c) ocw_env \<Rightarrow> ('w, 'p, 'acct, 'call, 'c) ocw_env" where
  "executed_on uses_native onchain env = env\<lparr>std_build := uses_native onchain\<rparr>"

section \<open>Where the requests go\<close>

definition posted_to :: "string set \<Rightarrow> ('w, 'z) net_scheme \<Rightarrow> ('w, 'z) net_scheme \<Rightarrow> bool" where
  "posted_to urls s t \<longleftrightarrow> (\<exists>rs. requests t = requests s @ rs \<and> list_all (\<lambda>r. req_url r \<in> urls) rs)"

lemma posted_to_preorder: "preorder_rel (posted_to urls)"
proof -
  have "posted_to urls s u" if "posted_to urls s t" "posted_to urls t u" for s t u :: "('a, 'b) net_scheme"
  proof -
    from that obtain vs ws where "requests u = requests s @ (vs @ ws)" "list_all (\<lambda>r. req_url r \<in> urls) (vs @ ws)"
      by (auto simp: posted_to_def)
    then show ?thesis unfolding posted_to_def by blast
  qed
  then show ?thesis by (auto simp: preorder_rel_def posted_to_def)
qed

interpretation posts: kept_relation "posted_to urls" for urls
  by (rule kept_relation.intro) (rule posted_to_preorder)

text \<open>The root that a worker reads under a name.\<close>

definition api_root :: "('w, 'p, 'acct, 'call, 'c) ocw_env \<Rightarrow> string \<Rightarrow> string option" where
  "api_root env name = (if std_build env then env_var env name else Some ''PLACEHOLDER_no_std'')"

definition circuits_urls :: "('w, 'p, 'acct, 'call, 'c) ocw_env \<Rightarrow> string set" where
  "circuits_urls env = {root @ API_ENDPOINT_GENERIC_URL | root. api_root env ''aaa'' = Some root}
     \<union> {root @ API_ENDPOINT_DISPLAY_URL | root. api_root env ''INTERSTELLAR_URI_ROOT_API_CIRCUITS'' = Some root}"

definition garble_urls :: "('w, 'p, 'acct, 'call, 'c) ocw_env \<Rightarrow> string set" where
  "garble_urls env = {root @ url | root url. api_root env ''INTERSTELLAR_URI_ROOT_API_GARBLE'' = Some root
     \<and> (url = API_ENDPOINT_GARBLE_URL \<or> url = API_ENDPOINT_GARBLE_STRIP_URL)}"

lemma keeps_uri_root:
  assumes "\<And>root. api_root env name = Some root \<Longrightarrow> keeps (posted_to urls) (f root)"
  shows "keeps (posted_to urls) (rbind (uri_root env name) f)"
  by (rule posts.kept_returned [where R = "\<lambda>root. api_root env name = Some root"])
    (simp_all add: posts.kept_quiet quiet_uri_root assms,
      auto simp: returns_def uri_root_def api_root_def unwrap_def split: option.splits)

lemma keeps_fetch_posted: "url \<in> urls \<Longrightarrow> keeps (posted_to urls) (fetch_from_remote_grpc_web h v url)"
  unfolding keeps_def
proof
  fix s :: "('a, 'b) net_scheme"
  assume "url \<in> urls"
  then show "posted_to urls s (snd (fetch_from_remote_grpc_web h v url s))"
    by (cases rule: fetch_cases [of h v url s]) (auto simp: posted_to_def sent_request_def grpc_request_def)
qed


lemmas posts_intros = posts.kept_rbind posts.kept_quiet keeps_attempt keeps_map_err keeps_uri_root keeps_fetch_posted

lemma call_grpc_generic_posts: "keeps (posted_to (circuits_urls env)) (call_grpc_generic env cd v)"
  unfolding call_grpc_generic_def Let_def
  by (intro posts_intros quiet_intros quiet_encode_body)
    (auto simp: circuits_urls_def intro!: posts_intros quiet_intros)

lemma call_grpc_display_one_posts: "keeps (posted_to (circuits_urls env)) (call_grpc_display_one env cd b)"
  unfolding call_grpc_display_one_def Let_def
  by (intro posts_intros quiet_intros quiet_encode_body)
    (auto simp: circuits_urls_def intro!: posts_intros quiet_intros)

lemma circuits_run_job_posts: "keeps (posted_to (circuits_urls env)) (circuits_run_job env cd d)"
  unfolding circuits_run_job_def call_grpc_display_def
  by (cases "c_grpc_kind d")
    (simp_all add: posts.kept_rbind posts.kept_pure keeps_attempt call_grpc_display_one_posts call_grpc_generic_posts)

lemma call_grpc_garble_posts: "keeps (posted_to (garble_urls env)) (call_grpc_garble env cd v)"
  unfolding call_grpc_garble_def Let_def
  by (intro posts_intros quiet_intros quiet_encode_body)
    (auto simp: garble_urls_def intro!: posts_intros quiet_intros)

lemma call_grpc_garble_and_strip_one_posts:
  "keeps (posted_to (garble_urls env)) (call_grpc_garble_and_strip_one env cd v tx ds)"
  unfolding call_grpc_garble_and_strip_one_def Let_def
  by (intro posts_intros quiet_intros quiet_encode_body)
    (auto simp: garble_urls_def intro!: posts_intros quiet_intros)

lemma garble_run_job_posts: "keeps (posted_to (garble_urls env)) (garble_run_job env cd d)"
  unfolding garble_run_job_def call_grpc_garble_and_strip_def
  by (cases "g_grpc_kind d")
    (simp_all add: posts.kept_rbind posts.kept_pure keeps_attempt call_grpc_garble_and_strip_one_posts call_grpc_garble_posts)

text \<open>The rest of a run makes no request.\<close>

lemma same_requests_posted: "requests t = requests s \<Longrightarrow> posted_to urls s t"
  by (simp add: posted_to_def)

lemma finalizes_posts: "finalizes env kt m \<Longrightarrow> keeps (posted_to urls) m"
  unfolding keeps_def finalizes_def by (metis snd_conv same_requests_posted submit_all_simps(2))

lemma run_slot_posts:
  assumes "keeps (posted_to urls) (locked_part s)"
  shows "posted_to urls s (snd (run_slot env lock b m pending locked_part s))"
proof -
  have "posted_to urls s (snd (with_guard env lock (locked_part s) (s\<lparr>world := w\<rparr>)))" for w
    using keepsD [OF keeps_with_guard [OF assms], of "s\<lparr>world := w\<rparr>" env lock] by (simp add: posted_to_def)
  then show ?thesis by (auto simp: run_slot_def posted_to_def split: prod.splits)
qed

lemma circuits_worker_posts: "posted_to (circuits_urls env) s (snd (circuits_offchain_worker env cd s))"
proof -
  have "keeps (posted_to (circuits_urls env)) (circuits_locked_part env cd d)" for d
    unfolding circuits_locked_part_def
    by (intro posts.kept_rbind keeps_attempt circuits_run_job_posts finalizes_posts [OF circuits_finalizes] keeps_modify)
      (simp add: posted_to_def)
  then show ?thesis unfolding offchain_worker_eq circuits_process_eq by (intro run_slot_posts)
qed

lemma garble_worker_posts: "posted_to (garble_urls env) s (snd (garble_offchain_worker env gc s))"
proof -
  have "keeps (posted_to (garble_urls env)) (garble_locked_part env gc d)" for d
    unfolding garble_locked_part_def
    by (intro posts.kept_rbind keeps_attempt garble_run_job_posts finalizes_posts [OF garble_finalizes] keeps_modify)
      (simp add: posted_to_def)
  then show ?thesis unfolding garble_offchain_worker_eq garble_process_eq by (intro run_slot_posts)
qed


section \<open>Properties\<close>

text \<open>C18: The node runs the workers of a block one after the other, circuits first. If that one panics, the garble
  worker does not run in this block: its job stays in the slot as it was and nothing is submitted; but the
  circuits job is gone, so the next call runs the garble worker, and takes the job if the lock is free.\<close>

theorem circuits_panic_delays_garble:
  assumes "hooks_in_order executive_hooks"
    and "\<And>d. dec_circuits_job (circuits_scale dep) (enc_circuits_job (circuits_scale dep) d) = Some d"
    and "\<And>d. dec_garble_job (garble_scale dep) (enc_garble_job (garble_scale dep) d) = Some d"
    and "circuits_offchain_worker (circuits_env dep) (circuits_scale dep) n = (Panic p, m)"
    and "garble_pending (garble_scale dep) n"
  shows "api_offchain_worker executive_hooks dep n = (Panic p, m)
    \<and> garble_pending (garble_scale dep) m \<and> garble_read_job (garble_scale dep) m = garble_read_job (garble_scale dep) n
    \<and> submitted m = submitted n
    \<and> api_offchain_worker executive_hooks dep m = map_err (\<lambda>_. ()) (garble_offchain_worker (garble_env dep) (garble_scale dep)) m
    \<and> (garble_lock_free (garble_env dep) m \<longrightarrow>
        \<not> garble_pending (garble_scale dep) (snd (api_offchain_worker executive_hooks dep m)))"
proof -
  note l = circuits_panic_leaves [OF assms(4)]
  have slot: "garble_read_job (garble_scale dep) m = garble_read_job (garble_scale dep) n"
    by (rule garble_slot_kept) (simp add: l job_keys_differ [symmetric])
  have idle: "\<not> circuits_pending (circuits_scale dep) m"
    using assms(2) by (simp add: circuits_pending_def circuits_read_job_def storage_get_def l circuits_idle_job_def
        circuits_job_key_def [symmetric] default_circuits_indexing_data_def)
  have now: "api_offchain_worker executive_hooks dep n = (Panic p, m)"
    by (simp add: api_offchain_worker_eq [OF assms(1)] rbind_def map_err_def assms(4))
  have later: "api_offchain_worker executive_hooks dep m = map_err (\<lambda>_. ()) (garble_offchain_worker (garble_env dep) (garble_scale dep)) m"
    by (simp add: api_offchain_worker_eq [OF assms(1)] rbind_def map_err_def circuits_idle_returns [OF idle])
  have pending: "garble_pending (garble_scale dep) m"
    using assms(5) slot by (simp add: garble_pending_def)
  moreover have "\<not> garble_pending (garble_scale dep) (snd (garble_offchain_worker (garble_env dep) (garble_scale dep) m))"
    if "garble_lock_free (garble_env dep) m"
    using garble_takes_job [OF _ pending that] assms(3) by (simp add: garble_idle_job_def)
  ultimately show ?thesis using now later slot l(2) by simp
qed

text \<open>C23: A worker posts to nothing but the pallet's own paths under the API root it reads: the configured
  one in the native build, a placeholder in the Wasm build. As a node leaves its native build as soon as the
  chain has another specification version, after an upgrade of the chain alone every request goes to the
  placeholder, whatever is configured.\<close>

theorem requests_go_to_the_api_roots:
  assumes "native_only_if_same uses_native" "ce = executed_on uses_native onchain env" "ge = executed_on uses_native onchain env'"
  shows "posted_to (circuits_urls ce) n (snd (circuits_offchain_worker ce cc n))
    \<and> posted_to (garble_urls ge) m (snd (garble_offchain_worker ge gc m))
    \<and> (spec_version onchain \<noteq> 100 \<longrightarrow>
        circuits_urls ce = {''PLACEHOLDER_no_std'' @ API_ENDPOINT_GENERIC_URL, ''PLACEHOLDER_no_std'' @ API_ENDPOINT_DISPLAY_URL}
      \<and> garble_urls ge = {''PLACEHOLDER_no_std'' @ API_ENDPOINT_GARBLE_URL, ''PLACEHOLDER_no_std'' @ API_ENDPOINT_GARBLE_STRIP_URL})"
proof -
  have "\<not> uses_native onchain" if "spec_version onchain \<noteq> 100"
    using assms(1) that
    by (auto simp: native_only_if_same_def same_runtime_def executor_native_version_def runtime_native_version_def VERSION_def)
  then have "circuits_urls ce = {''PLACEHOLDER_no_std'' @ API_ENDPOINT_GENERIC_URL, ''PLACEHOLDER_no_std'' @ API_ENDPOINT_DISPLAY_URL}
      \<and> garble_urls ge = {''PLACEHOLDER_no_std'' @ API_ENDPOINT_GARBLE_URL, ''PLACEHOLDER_no_std'' @ API_ENDPOINT_GARBLE_STRIP_URL}"
    if "spec_version onchain \<noteq> 100"
    using that unfolding assms(2,3) by (auto simp: circuits_urls_def garble_urls_def api_root_def executed_on_def)
  then show ?thesis by (simp only: circuits_worker_posts garble_worker_posts) simp
qed

section \<open>Concrete runs\<close>

text \<open>A generic job and a job for display circuits wait in a node without the variable that generic jobs read.\<close>

definition demo_two_jobs :: "(http_response list, nat, runtime_call) offchain" where
  "demo_two_jobs = put_local (garble_job_key demo_garble_codec)
       (enc_garble_job demo_garble_codec (strip_job [81, 1] [81, 2] [72] [0, 0] demo_pin))
     (put_local (circuits_job_key demo_circuits_codec)
       (enc_circuits_job demo_circuits_codec (circuits_job (Some [81]) Generic)) (idle_node []))"

lemma demo_two_jobs_reads:
  "circuits_read_job demo_circuits_codec demo_two_jobs = circuits_job (Some [81]) Generic"
  "garble_read_job demo_garble_codec demo_two_jobs = strip_job [81, 1] [81, 2] [72] [0, 0] demo_pin"
  by (simp_all add: demo_two_jobs_def circuits_read_job_def garble_read_job_def storage_get_def circuits_job_key_def [symmetric]
      garble_job_key_def [symmetric] put_local_def job_keys_differ demo_circuits_roundtrip demo_garble_roundtrip)

lemma demo_generic_panics:
  obtains p m where "circuits_offchain_worker (runtime_env OcwCircuits) demo_circuits_codec demo_two_jobs = (Panic p, m)"
proof -
  have "call_grpc_generic (runtime_env OcwCircuits) demo_circuits_codec [81] s = (Panic (Unwrap ''std::env::var''), s)"
    for s :: "(http_response list, nat, runtime_call) offchain"
    by (simp add: call_grpc_generic_def from_utf8_valid valid_ascii is_ascii_def rbind_encode demo_circuits_codec_def
        uri_root_def runtime_env_def)
  then show thesis
    by (intro that) (simp add: offchain_worker_eq circuits_process_eq run_slot_def circuits_pending_def demo_two_jobs_reads
        circuits_job_def circuits_locked_part_def circuits_run_job_def with_guard_def attempt_def rbind_def)
qed

theorem circuits_panic_delays_garble_witness:
  "\<exists>p m. api_offchain_worker run_hooks demo_deployment demo_two_jobs = (Panic p, m) \<and> garble_pending demo_garble_codec m
     \<and> \<not> garble_pending demo_garble_codec (snd (api_offchain_worker run_hooks demo_deployment m))"
proof -
  obtain p m where c: "circuits_offchain_worker (runtime_env OcwCircuits) demo_circuits_codec demo_two_jobs = (Panic p, m)"
    by (rule demo_generic_panics)
  have "garble_pending demo_garble_codec demo_two_jobs"
    by (simp add: garble_pending_def demo_two_jobs_reads strip_job_def)
  with circuits_panic_delays_garble [where executive_hooks = run_hooks and dep = demo_deployment and n = demo_two_jobs and p = p and m = m] c
  show ?thesis
    by (auto simp: hooks_in_order_def demo_circuits_roundtrip demo_garble_roundtrip garble_lock_free_def)
qed

theorem requests_go_to_the_api_roots_witness:
  "garble_urls (executed_on (same_runtime VERSION) (VERSION\<lparr>spec_version := 101\<rparr>) (runtime_env OcwGarble)) =
     {''PLACEHOLDER_no_std'' @ API_ENDPOINT_GARBLE_URL, ''PLACEHOLDER_no_std'' @ API_ENDPOINT_GARBLE_STRIP_URL}"
proof -
  have "native_only_if_same (same_runtime VERSION)"
    by (simp add: native_only_if_same_def executor_native_version_def runtime_native_version_def)
  from requests_go_to_the_api_roots [OF this refl refl, where env = "runtime_env OcwCircuits" and onchain = "VERSION\<lparr>spec_version := 101\<rparr>"
      and env' = "runtime_env OcwGarble" and n = "idle_node []" and m = "idle_node []" and cc = demo_circuits_codec and gc = demo_garble_codec]
  show ?thesis by simp
qed

end
