(* ===== verification/Executive.thy ===== *)
theory Executive
  imports System_Runs
begin

text \<open>
  From transactions to dispatches: the extrinsics of the runtime (\<open>runtime/src/lib.rs\<close>), the executive that
  applies them, and runs of a node in which whole blocks are built on any block of a tree. The executive, the signed
  extensions and the calls of the library's pallets are not in the repository; \<open>executive_ok\<close> states what is
  documented of them.
\<close>

section \<open>Extrinsics\<close>

text \<open>The runtime's \<open>Call\<close>: the calls of the own pallets, and those of the library's.\<close>

datatype 'lib outer_call = Own runtime_call | LibraryCall 'lib

text \<open>\<open>UncheckedExtrinsic<Address, Call, Signature, SignedExtra>\<close>.\<close>

record ('acct, 'sig, 'era, 'lib) extrinsic =
  xt_signature :: "('acct multi_address \<times> 'sig \<times> 'era signed_extra) option"
  function_call :: "'lib outer_call"

text \<open>\<open>AccountIdLookup\<close> knows account identifiers only. An extrinsic without a signature has no signer.\<close>

fun lookup_address :: "'acct multi_address \<Rightarrow> 'acct option" where
  "lookup_address (Id a) = Some a"
| "lookup_address _ = None"

definition xt_origin :: "('acct, 'sig, 'era, 'lib) extrinsic \<Rightarrow> 'acct origin option" where
  "xt_origin xt = (case xt_signature xt of
     None \<Rightarrow> Some NoneOrigin
   | Some (address, signature, extra) \<Rightarrow> map_option SignedOrigin (lookup_address address))"

text \<open>The extrinsic that is made of the transaction of a worker's call.\<close>

definition new_signed ::
  "runtime_call \<times> 'acct multi_address \<times> 'sig \<times> 'era signed_extra \<Rightarrow> ('acct, 'sig, 'era, 'lib) extrinsic" where
  "new_signed tx = (case tx of (call, address, signature, extra) \<Rightarrow>
     \<lparr>xt_signature = Some (address, signature, extra), function_call = Own call\<rparr>)"

section \<open>The executive\<close>

text \<open>
  \<open>apply_extrinsic\<close> is \<open>Executive::apply_extrinsic\<close> on the state of the library's pallets (nonces,
  balances) and on that of the own pallets. It gives \<open>None\<close> when the call of the API traps, an error when the
  transaction is not valid, and the outcome of the dispatch otherwise. \<open>library_dispatch\<close> is the own call that
  a call of the library dispatches for its signer, if any, as the calls of the Sudo pallet do.
\<close>

record ('x, 'v, 'acct, 'sig, 'era, 'lib) executive =
  apply_extrinsic :: "('acct, 'sig, 'era, 'lib) extrinsic \<Rightarrow> 'x \<times> 'acct garble \<Rightarrow>
    ('v + (runtime_error dispatch_error + unit)) option \<times> ('x \<times> 'acct garble)"
  library_dispatch :: "'lib \<Rightarrow> 'acct origin \<Rightarrow> (runtime_call \<times> 'acct origin) option"

text \<open>The own call that an extrinsic dispatches when it is applied, and the origin of the dispatch.\<close>

definition own_dispatch ::
  "('x, 'v, 'acct, 'sig, 'era, 'lib) executive \<Rightarrow> ('acct, 'sig, 'era, 'lib) extrinsic \<Rightarrow> (runtime_call \<times> 'acct origin) option" where
  "own_dispatch xc xt = Option.bind (xt_origin xt) (\<lambda>origin. case function_call xt of
     Own call \<Rightarrow> Some (call, origin)
   | LibraryCall l \<Rightarrow> library_dispatch xc l origin)"

fun outcome_of :: "('e, unit) exit \<Rightarrow> ('e + unit) option" where
  "outcome_of (Ret x) = Some (Inr ())"
| "outcome_of (Err e) = Some (Inl e)"
| "outcome_of (Panic p) = None"

text \<open>
  What is documented of the executive: an extrinsic that is not valid changes nothing of the own pallets, nor
  does one whose application traps, because the changes made so far are discarded; otherwise the own
  pallets change by the one dispatch of the extrinsic, which has not panicked, and the outcome of a direct
  call is the one reported.
\<close>

definition executive_ok :: "'r block_context set \<Rightarrow> ('x, 'v, 'acct, 'sig, 'era, 'lib) executive \<Rightarrow> bool" where
  "executive_ok ctxs xc \<longleftrightarrow> (\<forall>xt x s. case apply_extrinsic xc xt (x, s) of (res, (y, t)) \<Rightarrow>
     (case res of
        None \<Rightarrow> t = s
      | Some (Inl invalid) \<Rightarrow> t = s
      | Some (Inr outcome) \<Rightarrow> (case own_dispatch xc xt of
          None \<Rightarrow> t = s
        | Some (call, origin) \<Rightarrow> \<exists>ctx \<in> ctxs. \<exists>r. runtime_dispatch ctx call origin s = (r, t)
            \<and> outcome_of r \<noteq> None \<and> (function_call xt = Own call \<longrightarrow> outcome_of r = Some outcome))))"

text \<open>The transaction that \<open>create_transaction\<close> makes of a worker's call dispatches that call, signed by that account.\<close>

lemma created_transaction_dispatches:
  "create_transaction mortal signed_payload sign block_number call public account tx_nonce = Some tx \<Longrightarrow>
   own_dispatch xc (new_signed tx) = Some (call, SignedOrigin account)"
  by (auto simp: create_transaction_def Let_def new_signed_def own_dispatch_def xt_origin_def split: option.splits)

text \<open>The extrinsics of a block, in order.\<close>

fun apply_all ::
  "('x, 'v, 'acct, 'sig, 'era, 'lib) executive \<Rightarrow> ('acct, 'sig, 'era, 'lib) extrinsic list \<Rightarrow>
   'x \<times> 'acct garble \<Rightarrow> 'x \<times> 'acct garble" where
  "apply_all xc [] s = s"
| "apply_all xc (xt # xts) s = apply_all xc xts (snd (apply_extrinsic xc xt s))"

section \<open>Runs of a node, block by block\<close>

text \<open>
  Blocks form a tree: two blocks may be built on one, and a node may turn from one branch to another. A block
  is held with the states that its branch has gone through, its own first, and with the library's state. The
  chain of \<open>sys\<close> is that of the best block; the off-chain part of \<open>sys\<close> is one for all branches, and nothing
  takes back what a block of an abandoned branch has written into the node's local storage.
\<close>

record ('acct, 'w, 'x) node_state =
  sys :: "('acct, 'w) system_state"
  branches :: "('x \<times> 'acct garble list) list"

text \<open>
  The accounts in \<open>K\<close> are those whose keys only this node holds: what is dispatched as theirs has been
  submitted by the workers of this node.
\<close>

definition authentic ::
  "('x, 'v, 'acct, 'sig, 'era, 'lib) executive \<Rightarrow> 'acct set \<Rightarrow> ('w, 'acct, runtime_call) offchain \<Rightarrow>
   ('acct, 'sig, 'era, 'lib) extrinsic \<Rightarrow> bool" where
  "authentic xc K n xt \<longleftrightarrow> (\<forall>call a. own_dispatch xc xt = Some (call, SignedOrigin a) \<longrightarrow> a \<in> K \<longrightarrow> (a, call) \<in> set (submitted n))"

text \<open>
  A block is a list of extrinsics, whoever made them, applied one after the other on top of any block that the
  node has. Any block may become the best one. Between blocks the node moves by the steps of the system that
  do not touch the chain: its workers run and the outside changes.
\<close>

inductive node_step ::
  "('w, 'p, 'acct, 'r) deployment \<Rightarrow> ('x, 'v, 'acct, 'sig, 'era, 'lib) executive \<Rightarrow> 'acct set \<Rightarrow>
   ('acct, 'w, 'x) node_state \<Rightarrow> ('acct, 'w, 'x) node_state \<Rightarrow> bool"
  for dep xc K where
  import: "(x, c # cs) \<in> set (branches s) \<Longrightarrow> list_all (authentic xc K (local_node (sys s))) xts \<Longrightarrow>
    apply_all xc xts (x, c) = (y, d) \<Longrightarrow>
    node_step dep xc K s (s\<lparr>sys := (sys s)\<lparr>local_node := commit_index_writes indexing (offchain_index_writes d) (local_node (sys s))\<rparr>,
      branches := (y, end_block d # c # cs) # branches s\<rparr>)"
| best: "(x, c # cs) \<in> set (branches s) \<Longrightarrow> node_step dep xc K s (s\<lparr>sys := (sys s)\<lparr>chain := c\<rparr>\<rparr>)"
| between: "system_step dep (sys s) u \<Longrightarrow> chain u = chain (sys s) \<Longrightarrow> node_step dep xc K s (s\<lparr>sys := u\<rparr>)"

inductive_cases node_stepE: "node_step dep xc K s t"

section \<open>Blocks are dispatches\<close>

lemma executive_law:
  assumes "executive_ok ctxs xc" "apply_extrinsic xc xt (x, s) = (res, (y, t))"
  shows "case res of
      None \<Rightarrow> t = s
    | Some (Inl invalid) \<Rightarrow> t = s
    | Some (Inr outcome) \<Rightarrow> (case own_dispatch xc xt of
        None \<Rightarrow> t = s
      | Some (call, origin) \<Rightarrow> \<exists>ctx \<in> ctxs. \<exists>r. runtime_dispatch ctx call origin s = (r, t)
          \<and> outcome_of r \<noteq> None \<and> (function_call xt = Own call \<longrightarrow> outcome_of r = Some outcome))"
  using spec [OF spec [OF spec [OF assms(1) [unfolded executive_ok_def], of xt], of x], of s]
  unfolding assms(2) prod.case .

lemma apply_extrinsic_cases:
  assumes "executive_ok ctxs xc" "apply_extrinsic xc xt (x, s) = (res, (y, t))"
  obtains (nothing) "t = s"
  | (dispatched) ctx call origin r where "ctx \<in> ctxs" "own_dispatch xc xt = Some (call, origin)"
      "runtime_dispatch ctx call origin s = (r, t)" "outcome_of r \<noteq> None"
  using executive_law [OF assms] by (fastforce split: option.splits sum.splits)

text \<open>What the dispatches of a block's extrinsics keep holds after the block.\<close>

lemma apply_all_keeps:
  assumes ok: "executive_ok ctxs xc" and start: "P s"
    and step: "\<And>xt ctx call origin s r t. xt \<in> set xts \<Longrightarrow> own_dispatch xc xt = Some (call, origin) \<Longrightarrow> ctx \<in> ctxs \<Longrightarrow>
      runtime_dispatch ctx call origin s = (r, t) \<Longrightarrow> outcome_of r \<noteq> None \<Longrightarrow> P s \<Longrightarrow> P t"
  shows "P (snd (apply_all xc xts (x, s)))"
  using start step
proof (induction xts arbitrary: x s)
  case (Cons xt xts)
  obtain res y t where a: "apply_extrinsic xc xt (x, s) = (res, (y, t))" by (metis prod.collapse)
  have "P t"
    using ok a by (cases rule: apply_extrinsic_cases) (auto intro: Cons.prems)
  then have "P (snd (apply_all xc xts (y, t)))"
    by (rule Cons.IH) (rule Cons.prems(2), rule list.set_intros(2))
  with a show ?case by simp
qed simp

lemma block_dispatches:
  assumes "executive_ok (contexts dep) xc"
  shows "(system_step dep)\<^sup>*\<^sup>* s (s\<lparr>chain := snd (apply_all xc xts (x, chain s))\<rparr>)"
proof (rule apply_all_keeps [OF assms, where P = "\<lambda>c. (system_step dep)\<^sup>*\<^sup>* s (s\<lparr>chain := c\<rparr>)"])
  fix xt ctx call origin c r t
  assume "ctx \<in> contexts dep" and d: "runtime_dispatch ctx call origin c = (r, t)"
    and run: "(system_step dep)\<^sup>*\<^sup>* s (s\<lparr>chain := c\<rparr>)"
  from extrinsic [OF this(1), of "s\<lparr>chain := c\<rparr>" call origin] d
  have "system_step dep (s\<lparr>chain := c\<rparr>) (s\<lparr>chain := t\<rparr>)" by simp
  with run show "(system_step dep)\<^sup>*\<^sup>* s (s\<lparr>chain := t\<rparr>)" by (rule rtranclp.rtrancl_into_rtrancl)
qed simp

text \<open>The invariant of the system holds whichever finished block is the best one.\<close>

lemma system_inv_other_chain:
  "system_inv dep s \<Longrightarrow> offchain_index_writes c = [] \<Longrightarrow> system_inv dep (s\<lparr>chain := c\<rparr>)"
  by (simp add: system_inv_def)

lemma system_inv_block:
  assumes dep: "deployment_ok dep" and xc: "executive_ok (contexts dep) xc" and inv: "system_inv dep s"
    and "offchain_index_writes c = []" "apply_all xc xts (x, c) = (y, d)"
  shows "system_inv dep (s\<lparr>chain := end_block d, local_node := commit_index_writes b (offchain_index_writes d) (local_node s)\<rparr>)"
proof -
  let ?u = "s\<lparr>chain := c\<rparr>"
  have "(system_step dep)\<^sup>*\<^sup>* ?u (?u\<lparr>chain := d\<rparr>)"
    using block_dispatches [OF xc, of ?u xts x] assms(5) by simp
  moreover have "system_step dep (?u\<lparr>chain := d\<rparr>)
      (s\<lparr>chain := end_block d, local_node := commit_index_writes b (offchain_index_writes d) (local_node s)\<rparr>)"
    using block_end [of dep "?u\<lparr>chain := d\<rparr>" b] by simp
  ultimately have "(system_step dep)\<^sup>*\<^sup>* ?u
      (s\<lparr>chain := end_block d, local_node := commit_index_writes b (offchain_index_writes d) (local_node s)\<rparr>)"
    by (rule rtranclp.rtrancl_into_rtrancl)
  from system_invariant.inv_run [OF this] system_inv_other_chain [OF inv assms(4)] dep show ?thesis by blast
qed

section \<open>What is filed under the node's own accounts\<close>

text \<open>
  For an account of the node: its validation entries are codes of two digits with a pinpad, and each of its
  pending circuits has an entry.
\<close>

definition codes_inv :: "'acct \<Rightarrow> ('acct, 'z) garble_scheme \<Rightarrow> bool" where
  "codes_inv a s \<longleftrightarrow>
     (\<forall>cid pkg. circuit_server_metadata_map s (a, cid) = Some pkg \<longrightarrow> length cid \<le> 64 \<and> code_ok (message_digits pkg) (pinpad_digits pkg))
   \<and> (\<forall>c \<in> set (get_pending_circuits_for_account s a).
        circuit_server_metadata_map s (a, message_pgarbled_cid c) \<noteq> None \<and> message_nb_digits c = 2)"

lemma codes_inv_same: "same_account s t a \<Longrightarrow> codes_inv a s \<Longrightarrow> codes_inv a t"
  by (simp add: codes_inv_def same_account_def get_pending_circuits_for_account_def)

lemma codes_inv_stored:
  "codes_inv a s \<Longrightarrow> length mg \<le> 64 \<Longrightarrow> code_ok md pd \<Longrightarrow> codes_inv a (callback_stored a mg mp md pg pp pd s)"
  by (auto simp: codes_inv_def)

lemma codes_inv_listed:
  assumes "codes_inv a s" "length mg \<le> 64" "code_ok md pd"
  shows "codes_inv a (pending_insert a (get_pending_circuits_for_account s a @ [stripped_package mg mp md pg pp])
    (callback_stored a mg mp md pg pp pd s))"
  using codes_inv_stored [OF assms] assms(3)
  by (auto simp: codes_inv_def pending_insert_def get_pending_circuits_for_account_def stripped_package_def code_ok_def)

lemma strip_callback_codes:
  assumes "codes_inv a s" "code_ok md pd"
    and "callback_new_garbled_and_strip_signed lg (SignedOrigin a) mg mp md pg pp pd s = (r, t)"
  shows "codes_inv a t"
  using assms(3)
proof (cases rule: strip_callback_cases)
  case stopped
  with assms(1) show ?thesis by (simp add: codes_inv_def get_pending_circuits_for_account_def)
next
  case unlisted
  with assms show ?thesis by (simp add: codes_inv_stored)
next
  case listed
  with assms show ?thesis by (simp add: codes_inv_listed callback_args_ok_def)
qed

lemma untouched_codes:
  assumes "codes_inv a s" "MetadataCell \<notin> writes_of call" "PendingCell \<notin> writes_of call"
  shows "codes_inv a (snd (runtime_dispatch ctx call origin s))"
  using dispatch_keeps_cell [OF assms(2), of s ctx origin] dispatch_keeps_cell [OF assms(3), of s ctx origin] assms(1)
  by (simp add: codes_inv_def get_pending_circuits_for_account_def)

text \<open>A call that a worker submits, by what it writes.\<close>

lemma worker_call_cases:
  assumes "submission_ok dep (a, call)"
  obtains (harmless) "MobileCell \<notin> writes_of call" "MetadataCell \<notin> writes_of call" "PendingCell \<notin> writes_of call"
  | (strip) mg mp md pg pp pd where "call = OcwGarble (callback_new_garbled_and_strip_signed_call mg mp md pg pp pd)" "code_ok md pd"
proof -
  from assms consider (circuits) c where "call = OcwCircuits c"
    | (garbled) v where "call = OcwGarble (callback_new_garbled_signed_call v)"
    | (listed) mg mp md pg pp pd where "call = OcwGarble (callback_new_garbled_and_strip_signed_call mg mp md pg pp pd)" "code_ok md pd"
    by (auto simp: submission_ok_def split: runtime_call.splits elim: garble_callback_ok.elims)
  then show thesis
  proof cases
    case (circuits c)
    then show thesis by (cases c) (simp_all add: harmless)
  qed (simp_all add: harmless strip)
qed

lemma strip_dispatch:
  assumes "runtime_dispatch ctx (OcwGarble (callback_new_garbled_and_strip_signed_call mg mp md pg pp pd)) origin s = (r, t)"
  obtains q where "callback_new_garbled_and_strip_signed (logs_info ctx) origin mg mp md pg pp pd s = (q, t)"
    "\<And>p. q = Panic p \<Longrightarrow> outcome_of r = None"
  using assms by (auto simp: map_err_def split: prod.splits exit.splits)

lemma signed_by_account: "a \<in> signers origin \<longleftrightarrow> origin = SignedOrigin a"
  by (cases origin) (auto simp: signers_def signed_by_def)

lemma dispatch_codes:
  assumes inv: "codes_inv a s" and d: "runtime_dispatch ctx call origin s = (r, t)"
    and auth: "origin = SignedOrigin a \<Longrightarrow> submission_ok dep (a, call)"
  shows "codes_inv a t"
proof (cases "a \<in> signers origin")
  case False
  from dispatch_keeps_account [OF this, of s ctx call] d inv show ?thesis by (auto intro: codes_inv_same)
next
  case True
  then have o: "origin = SignedOrigin a" by (simp add: signed_by_account)
  from auth [OF this] show ?thesis
  proof (cases rule: worker_call_cases)
    case harmless
    from untouched_codes [OF inv harmless(2,3), of ctx origin] d show ?thesis by simp
  next
    case (strip mg mp md pg pp pd)
    from d [unfolded strip(1) o] show ?thesis
      by (rule strip_dispatch) (rule strip_callback_codes [OF inv strip(2)])
  qed
qed

text \<open>With a full list, the account's part of the state stays as it is.\<close>

lemma full_dispatch:
  assumes full: "length (get_pending_circuits_for_account s a) = MAX_NUMBER_PENDING_CIRCUITS_PER_ACCOUNT"
    and d: "runtime_dispatch ctx call origin s = (r, t)" and r: "outcome_of r \<noteq> None"
    and auth: "origin = SignedOrigin a \<Longrightarrow> submission_ok dep (a, call)"
  shows "same_account s t a"
proof (cases "a \<in> signers origin")
  case False
  from dispatch_keeps_account [OF this, of s ctx call] show ?thesis unfolding d snd_conv .
next
  case True
  then have o: "origin = SignedOrigin a" by (simp add: signed_by_account)
  from auth [OF this] show ?thesis
  proof (cases rule: worker_call_cases)
    case harmless
    from dispatch_keeps_cell [OF harmless(1), of s ctx origin] dispatch_keeps_cell [OF harmless(2), of s ctx origin]
      dispatch_keeps_cell [OF harmless(3), of s ctx origin]
    show ?thesis unfolding d snd_conv by (simp add: same_account_def)
  next
    case (strip mg mp md pg pp pd)
    from d [unfolded strip(1) o] show ?thesis
    proof (rule strip_dispatch)
      fix q
      assume q: "callback_new_garbled_and_strip_signed (logs_info ctx) (SignedOrigin a) mg mp md pg pp pd s = (q, t)"
        and none: "\<And>p. q = Panic p \<Longrightarrow> outcome_of r = None"
      have returned: "q = Panic p \<Longrightarrow> same_account s t a" for p
        using none r by iprover
      from q show ?thesis
      proof (cases rule: strip_callback_cases)
        case listed
        with full show ?thesis by (simp add: MAX_NUMBER_PENDING_CIRCUITS_PER_ACCOUNT_def)
      qed (rule returned, assumption)+
    qed
  qed
qed

lemma same_account_trans: "same_account s t a \<Longrightarrow> same_account t u a \<Longrightarrow> same_account s u a"
  and same_account_refl: "same_account s s a"
  by (simp_all add: same_account_def)

lemma same_account_end_block: "same_account s (end_block c) a = same_account s c a"
  by (simp add: same_account_def end_block_def)

lemma same_account_pending:
  "same_account s t a \<Longrightarrow> get_pending_circuits_for_account t a = get_pending_circuits_for_account s a"
  by (simp add: same_account_def get_pending_circuits_for_account_def)

abbreviation list_full :: "'acct \<Rightarrow> ('acct, 'z) garble_scheme \<Rightarrow> bool" where
  "list_full a c \<equiv> length (get_pending_circuits_for_account c a) = MAX_NUMBER_PENDING_CIRCUITS_PER_ACCOUNT"

text \<open>What a block keeps for an account whose transactions in it are those of the workers.\<close>

lemma block_codes:
  assumes dep: "deployment_ok dep" and xc: "executive_ok (contexts dep) xc"
    and auth: "list_all (authentic xc K n) xts" and sub: "list_all (submission_ok dep) (submitted n)" and a: "a \<in> K"
    and blk: "apply_all xc xts (x, c) = (y, d)"
  shows "codes_inv a c \<Longrightarrow> codes_inv a (end_block d)" "list_full a c \<Longrightarrow> same_account c (end_block d) a"
proof -
  have signed: "submission_ok dep (a, call)" if "xt \<in> set xts" "own_dispatch xc xt = Some (call, origin)" "origin = SignedOrigin a"
    for xt call origin
    using that auth sub a by (auto simp: list_all_iff authentic_def)
  show "codes_inv a (end_block d)" if "codes_inv a c"
  proof -
    have "codes_inv a (snd (apply_all xc xts (x, c)))"
    proof (rule apply_all_keeps [OF xc, where P = "codes_inv a"])
      fix xt ctx call origin v r w
      assume xt: "xt \<in> set xts" "own_dispatch xc xt = Some (call, origin)"
        and d: "runtime_dispatch ctx call origin v = (r, w)" and v: "codes_inv a v"
      from v d signed [OF xt] show "codes_inv a w" by (rule dispatch_codes)
    qed (rule that)
    then show ?thesis by (simp add: blk codes_inv_def end_block_def get_pending_circuits_for_account_def)
  qed
  show "same_account c (end_block d) a" if full: "list_full a c"
  proof -
    have "same_account c (snd (apply_all xc xts (x, c))) a"
    proof (rule apply_all_keeps [OF xc, where P = "\<lambda>e. same_account c e a"])
      fix xt ctx call origin e r f
      assume xt: "xt \<in> set xts" "own_dispatch xc xt = Some (call, origin)"
        and d: "runtime_dispatch ctx call origin e = (r, f)" "outcome_of r \<noteq> None" and e: "same_account c e a"
      have "list_full a e" using full by (simp only: same_account_pending [OF e])
      from full_dispatch [OF this d signed [OF xt]] have "same_account e f a" .
      with e show "same_account c f a" by (rule same_account_trans)
    qed (rule same_account_refl)
    then show ?thesis by (simp add: blk same_account_end_block)
  qed
qed

section \<open>The invariant of a node\<close>

definition frozen :: "'acct \<Rightarrow> 'acct garble \<Rightarrow> 'acct garble \<Rightarrow> bool" where
  "frozen a d c \<longleftrightarrow> (list_full a c \<longrightarrow> same_account c d a)"

lemma frozen_trans: "frozen a c b \<Longrightarrow> (list_full a c \<Longrightarrow> same_account c d a) \<Longrightarrow> frozen a d b"
  unfolding frozen_def by (metis same_account_trans same_account_pending)

definition branch_ok :: "'acct set \<Rightarrow> 'acct garble list \<Rightarrow> bool" where
  "branch_ok K cs \<longleftrightarrow> (\<forall>c \<in> set cs. offchain_index_writes c = [] \<and> (\<forall>a \<in> K. codes_inv a c))
     \<and> (\<forall>a \<in> K. sorted_wrt (frozen a) cs)"

definition node_inv :: "('w, 'p, 'acct, 'r) deployment \<Rightarrow> 'acct set \<Rightarrow> ('acct, 'w, 'x) node_state \<Rightarrow> bool" where
  "node_inv dep K s \<longleftrightarrow> system_inv dep (sys s) \<and> (\<forall>(x, cs) \<in> set (branches s). branch_ok K cs)"

text \<open>A node at its start has one block, with nothing filed under its own accounts.\<close>

definition fresh_node :: "'acct set \<Rightarrow> ('acct, 'w, 'x) node_state \<Rightarrow> bool" where
  "fresh_node K s \<longleftrightarrow> fresh_system (sys s) \<and> map snd (branches s) = [[chain (sys s)]]
     \<and> (\<forall>a \<in> K. (\<forall>cid. circuit_server_metadata_map (chain (sys s)) (a, cid) = None)
          \<and> account_to_pending_circuits_map (chain (sys s)) a = None)"

lemma fresh_node_inv:
  assumes "deployment_ok dep" "fresh_node K s"
  shows "node_inv dep K s"
proof -
  from assms(2) have "fresh_system (sys s)" by (simp add: fresh_node_def)
  then have "system_inv dep (sys s)" and w: "offchain_index_writes (chain (sys s)) = []"
    using reachable_inv [OF assms(1) _ rtranclp.rtrancl_refl] by (simp_all add: fresh_system_def)
  moreover from assms(2) have "codes_inv a (chain (sys s))" if "a \<in> K" for a
    using that by (simp add: fresh_node_def codes_inv_def get_pending_circuits_for_account_def)
  with assms(2) w have "branch_ok K cs" if "(x, cs) \<in> set (branches s)" for x cs
    using that by (auto simp: branch_ok_def fresh_node_def)
  ultimately show ?thesis by (auto simp: node_inv_def)
qed

lemma branch_ok_import:
  assumes dep: "deployment_ok dep" and xc: "executive_ok (contexts dep) xc" and br: "branch_ok K (c # cs)"
    and auth: "list_all (authentic xc K n) xts" and sub: "list_all (submission_ok dep) (submitted n)"
    and blk: "apply_all xc xts (x, c) = (y, d)"
  shows "branch_ok K (end_block d # c # cs)"
proof -
  note keeps = block_codes [OF dep xc auth sub _ blk]
  have "frozen a (end_block d) b" if "a \<in> K" "b \<in> set (c # cs)" for a b
  proof (cases "b = c")
    case True
    with keeps(2) [OF that(1)] show ?thesis by (simp add: frozen_def)
  next
    case False
    with that br have "frozen a c b" by (auto simp: branch_ok_def)
    from this keeps(2) [OF that(1)] show ?thesis by (rule frozen_trans)
  qed
  moreover have "codes_inv a (end_block d)" if "a \<in> K" for a
    using br that by (intro keeps(1)) (auto simp: branch_ok_def)
  moreover have "offchain_index_writes (end_block d) = []" by (simp add: end_block_def)
  ultimately show ?thesis using br by (auto simp: branch_ok_def)
qed

lemma node_inv_step:
  assumes dep: "deployment_ok dep" and xc: "executive_ok (contexts dep) xc"
    and step: "node_step dep xc K s t" and inv: "node_inv dep K s"
  shows "node_inv dep K t"
proof -
  from inv have sys: "system_inv dep (sys s)" and br: "\<And>x cs. (x, cs) \<in> set (branches s) \<Longrightarrow> branch_ok K cs"
    by (auto simp: node_inv_def)
  from sys have sub: "list_all (submission_ok dep) (submitted (local_node (sys s)))" by (simp add: system_inv_def)
  from step show ?thesis
  proof cases
    case (import x c cs xts y d indexing)
    from br [OF import(2)] have b: "branch_ok K (c # cs)" "offchain_index_writes c = []" by (simp_all add: branch_ok_def)
    from system_inv_block [OF dep xc sys b(2) import(4), of indexing] sys
    have "system_inv dep (sys t)" by (simp add: import(1) system_inv_def end_block_def)
    moreover have "branch_ok K (end_block d # c # cs)"
      by (rule branch_ok_import [OF dep xc b(1) import(3) sub import(4)])
    ultimately show ?thesis using br by (auto simp: node_inv_def import(1))
  next
    case (best x c cs)
    from br [OF best(2)] have "offchain_index_writes c = []" by (simp add: branch_ok_def)
    from system_inv_other_chain [OF sys this] inv best(1) show ?thesis by (simp add: node_inv_def)
  next
    case (between u)
    from system_inv_step [OF dep between(2) sys] inv between(1) show ?thesis by (simp add: node_inv_def)
  qed
qed

lemma reachable_node_inv:
  assumes "deployment_ok dep" "executive_ok (contexts dep) xc" "fresh_node K s" "(node_step dep xc K)\<^sup>*\<^sup>* s t"
  shows "node_inv dep K t"
  using assms(4) by (induction rule: rtranclp_induct)
    (auto intro: fresh_node_inv [OF assms(1,3)] node_inv_step [OF assms(1,2)])

text \<open>
  Whatever branch a job comes from, abandoned or not, it is complete when a worker finds it, and what the workers
  hand over for submission are callbacks for accounts of the node.
\<close>

lemma node_jobs_complete:
  assumes "deployment_ok dep" "executive_ok (contexts dep) xc" "fresh_node K s" "(node_step dep xc K)\<^sup>*\<^sup>* s t"
    and "garble_pending (garble_scale dep) (local_node (sys t))"
  shows "(\<exists>v. garble_run_job env gc (garble_read_job (garble_scale dep) (local_node (sys t))) = call_grpc_garble env gc v)
    \<or> (\<exists>m p tx md pd. garble_run_job env gc (garble_read_job (garble_scale dep) (local_node (sys t))) =
         call_grpc_garble_and_strip env gc m p tx md pd \<and> is_pinpad pd \<and> length md = 2 \<and> (\<forall>x \<in> set md. digit x))"
proof -
  from reachable_node_inv [OF assms(1-4)] have "system_inv dep (sys t)" by (simp add: node_inv_def)
  from inv_jobs_complete [OF assms(1) this, of _ undefined undefined undefined "garble_read_job (garble_scale dep) (local_node (sys t))"]
    assms(5) show ?thesis by blast
qed

lemma node_submissions_ok:
  assumes "deployment_ok dep" "executive_ok (contexts dep) xc" "fresh_node K s" "(node_step dep xc K)\<^sup>*\<^sup>* s t"
    and "(a, c) \<in> set (submitted (local_node (sys t)))"
  shows "submission_ok dep (a, c)"
  using reachable_node_inv [OF assms(1-4)] assms(5) by (auto simp: node_inv_def system_inv_def list_all_iff)

text \<open>Such a code has two digits and one answer.\<close>

lemma code_answer:
  assumes "circuit_server_metadata_map s (who, cid) = Some pkg" "length cid \<le> 64" "code_ok (message_digits pkg) (pinpad_digits pkg)"
  shows "\<exists>code. length code = 2 \<and> (\<forall>b \<in> set code. digit b) \<and> (\<forall>input. (\<forall>b \<in> set input. digit b) \<longrightarrow>
    (fst (check_input lg (SignedOrigin who) cid input s) = Ret ()) = (input = code))"
proof -
  from assms(3) have pin: "is_pinpad (pinpad_digits pkg)" and msg: "length (message_digits pkg) = 2" "\<forall>d \<in> set (message_digits pkg). digit d"
    by (simp_all add: code_ok_def)
  have eq: "fst (check_input lg (SignedOrigin who) cid input s) = Ret () \<longleftrightarrow> computed_inputs (pinpad_digits pkg) input = message_digits pkg"
    if "\<forall>b \<in> set input. digit b" for input
    using that assms(1,2) pin msg(2) by (subst check_input_verdict) (auto simp: digit_in_pinpad pinpad_log_safe)
  obtain code where code: "\<forall>b \<in> set code. digit b" "computed_inputs (pinpad_digits pkg) code = message_digits pkg"
    "\<And>input. (\<forall>b \<in> set input. digit b) \<Longrightarrow> computed_inputs (pinpad_digits pkg) input = message_digits pkg \<Longrightarrow> input = code"
    using unique_code [OF pin msg(2)] by metis
  have "length code = 2"
    using arg_cong [OF code(2), of length] msg(1) by (simp add: computed_inputs_def)
  with eq code show ?thesis by blast
qed

section \<open>Properties\<close>




section \<open>Concrete runs\<close>

text \<open>An executive that checks nonces: a request in a first block, the run of the worker, its callback in a second.\<close>

definition demo_apply ::
  "(nat, unit, unit, unit) extrinsic \<Rightarrow> (nat \<Rightarrow> u32) \<times> nat garble \<Rightarrow>
   (unit + (runtime_error dispatch_error + unit)) option \<times> ((nat \<Rightarrow> u32) \<times> nat garble)" where
  "demo_apply xt s = (case (xt_signature xt, function_call xt) of
     (Some (Id a, signature, extra), Own call) \<Rightarrow>
       if check_nonce extra = fst s a then
         (case runtime_dispatch demo_context call (SignedOrigin a) (snd s) of (r, t) \<Rightarrow>
            (case outcome_of r of
               None \<Rightarrow> (None, s)
             | Some outcome \<Rightarrow> (Some (Inr outcome), ((fst s)(a := fst s a + 1), t))))
       else (Some (Inl ()), s)
   | _ \<Rightarrow> (Some (Inl ()), s))"

definition demo_executive :: "(nat \<Rightarrow> u32, unit, nat, unit, unit, unit) executive" where
  "demo_executive = \<lparr>apply_extrinsic = demo_apply, library_dispatch = (\<lambda>l origin. None)\<rparr>"

lemma demo_executive_ok: "executive_ok {demo_context} demo_executive"
  unfolding executive_ok_def demo_executive_def executive.simps demo_apply_def
  by (auto simp: own_dispatch_def xt_origin_def
      split: option.splits prod.splits multi_address.splits outer_call.splits if_splits)

definition demo_xt :: "runtime_call \<Rightarrow> nat \<Rightarrow> u32 \<Rightarrow> (nat, unit, unit, unit) extrinsic" where
  "demo_xt call a n = new_signed (the (create_transaction (\<lambda>_ _. ()) (\<lambda>_ _. Some []) (\<lambda>_ _. Some ()) 1 call () a n))"

lemma demo_xt_eq [simp]:
  "xt_signature (demo_xt call a n) = Some (Id a, (), \<lparr>check_non_zero_sender = (), check_spec_version = (), check_tx_version = (),
     check_genesis = (), check_era = (), check_nonce = n, check_weight = (), charge_transaction_payment = 0\<rparr>)"
  "function_call (demo_xt call a n) = Own call"
  by (simp_all add: demo_xt_def new_signed_def create_transaction_def Let_def)

lemma demo_xt_dispatch [simp]: "own_dispatch demo_executive (demo_xt call a n) = Some (call, SignedOrigin a)"
  by (simp add: own_dispatch_def xt_origin_def)

text \<open>
  Two blocks: the genesis, and the block of the request on top of it. A third one holds the callback \<open>n\<close> times.
\<close>

type_synonym demo_branch = "(nat \<Rightarrow> u32) \<times> nat garble list"

definition demo_first :: demo_branch where
  "demo_first = ((\<lambda>_. 0), [demo_garble])"

definition demo_second :: demo_branch where
  "demo_second = ((\<lambda>_. 0)(7 := 1), [chain demo_worked, demo_garble])"

definition demo_callbacks :: "nat \<Rightarrow> (nat, unit, unit, unit) extrinsic list" where
  "demo_callbacks n = map (\<lambda>i. demo_xt (OcwGarble demo_callback) 42 (word_of_nat i)) [0..<n]"

text \<open>The branch of a new block, and the node once it has imported it as its best one.\<close>

definition demo_branch_after :: "demo_branch \<Rightarrow> (nat, unit, unit, unit) extrinsic list \<Rightarrow> demo_branch" where
  "demo_branch_after b xts = (case apply_all demo_executive xts (fst b, hd (snd b)) of (y, d) \<Rightarrow> (y, end_block d # snd b))"

definition demo_block ::
  "demo_branch \<Rightarrow> (nat, unit, unit, unit) extrinsic list \<Rightarrow> (nat, http_response list, nat \<Rightarrow> u32) node_state \<Rightarrow>
   (nat, http_response list, nat \<Rightarrow> u32) node_state" where
  "demo_block b xts s = (let d = snd (apply_all demo_executive xts (fst b, hd (snd b))) in
     s\<lparr>sys := (sys s)\<lparr>chain := end_block d, local_node := commit_index_writes True (offchain_index_writes d) (local_node (sys s))\<rparr>,
       branches := demo_branch_after b xts # branches s\<rparr>)"

definition demo_node_start :: "(nat, http_response list, nat \<Rightarrow> u32) node_state" where
  "demo_node_start = \<lparr>sys = demo_start, branches = [demo_first]\<rparr>"

definition demo_node_worked :: "(nat, http_response list, nat \<Rightarrow> u32) node_state" where
  "demo_node_worked = \<lparr>sys = demo_worked, branches = [demo_second, demo_first]\<rparr>"

lemma demo_request_dispatch:
  "runtime_dispatch demo_context (OcwGarble (garble_and_strip_display_circuits_package_signed_call [72])) (SignedOrigin 7) demo_garble =
    (Ret (), chain demo_requested)"
proof -
  have "fst (runtime_dispatch demo_context (OcwGarble (garble_and_strip_display_circuits_package_signed_call [72])) (SignedOrigin 7) demo_garble) = Ret ()"
    by (simp add: demo_context_def map_err_def strip_request_eq [OF demo_garble_facts(1,2)] demo_drawn demo_garble_facts)
  then show ?thesis
    by (simp add: demo_requested_def demo_start_def prod_eq_iff)
qed

abbreviation demo_filed :: "nat garble \<Rightarrow> nat garble" where
  "demo_filed s \<equiv> pending_insert 42 (get_pending_circuits_for_account s 42 @ [stripped_package [77] [77] [0, 0] [80] [80]])
     (callback_stored 42 [77] [77] [0, 0] [80] [80] demo_pin s)"

lemma demo_callback_dispatch:
  assumes "length (get_pending_circuits_for_account s 42) < 16"
  shows "runtime_dispatch demo_context (OcwGarble demo_callback) (SignedOrigin 42) s = (Ret (), demo_filed s)"
  using strip_callback_eq [of "[77]" "[77]" "[0, 0]" "[80]" "[80]" demo_pin True 42 s] assms
  by (simp add: callback_args_ok_def callback_log_safe_def valid_ascii is_ascii_def Let_def
      demo_callback_def demo_context_def map_err_def demo_pin_def)

lemma demo_chain_worked: "chain demo_worked = end_block (chain demo_requested)"
  "get_pending_circuits_for_account (chain demo_worked) 42 = []"
proof -
  show c: "chain demo_worked = end_block (chain demo_requested)"
    by (simp add: demo_worked_def demo_ended_def)
  have "same_cell PendingCell (chain demo_start) (chain demo_requested)"
    using dispatch_keeps_cell [of PendingCell "OcwGarble (garble_and_strip_display_circuits_package_signed_call [72])"
        "chain demo_start" demo_context "SignedOrigin 7"]
    by (simp add: demo_requested_def del: runtime_dispatch.simps)
  then show "get_pending_circuits_for_account (chain demo_worked) 42 = []"
    using demo_garble_facts(6) by (simp add: c end_block_def demo_start_def get_pending_circuits_for_account_def)
qed

lemma apply_all_append: "apply_all xc (xs @ ys) s = apply_all xc ys (apply_all xc xs s)"
  by (induction xc xs s rule: apply_all.induct) simp_all

lemma demo_apply_callback:
  assumes "length (get_pending_circuits_for_account s 42) < 16" "f 42 = n"
  shows "apply_extrinsic demo_executive (demo_xt (OcwGarble demo_callback) 42 n) (f, s) = (Some (Inr (Inr ())), (f(42 := n + 1), demo_filed s))"
  using assms(2) by (simp add: demo_executive_def demo_apply_def demo_callback_dispatch [OF assms(1)] del: runtime_dispatch.simps)

text \<open>Up to sixteen callbacks are filed.\<close>

lemma demo_callbacks_applied:
  assumes "n \<le> 16" "f 42 = 0" "get_pending_circuits_for_account c 42 = []"
  shows "\<exists>d. apply_all demo_executive (demo_callbacks n) (f, c) = (f(42 := word_of_nat n), d)
    \<and> get_pending_circuits_for_account d 42 = replicate n (stripped_package [77] [77] [0, 0] [80] [80])"
  using assms(1)
proof (induction n)
  case 0
  have "f(42 := 0) = f" using assms(2) by auto
  with assms show ?case by (simp add: demo_callbacks_def)
next
  case (Suc n)
  from Suc.IH [OF Suc_leD [OF Suc.prems]] obtain d where d: "apply_all demo_executive (demo_callbacks n) (f, c) = (f(42 := word_of_nat n), d)"
    and p: "get_pending_circuits_for_account d 42 = replicate n (stripped_package [77] [77] [0, 0] [80] [80])"
    by blast
  have len: "length (get_pending_circuits_for_account d 42) < 16" using p Suc.prems by simp
  have step: "demo_callbacks (Suc n) = demo_callbacks n @ [demo_xt (OcwGarble demo_callback) 42 (word_of_nat n)]"
    by (simp add: demo_callbacks_def)
  have "apply_all demo_executive (demo_callbacks (Suc n)) (f, c) = (f(42 := word_of_nat (Suc n)), demo_filed d)"
    using demo_apply_callback [OF len, of "f(42 := word_of_nat n)" "word_of_nat n"]
    unfolding step apply_all_append d by (simp add: add.commute)
  moreover have "get_pending_circuits_for_account (demo_filed d) 42 = replicate (Suc n) (stripped_package [77] [77] [0, 0] [80] [80])"
    using p by (simp add: pending_insert_def get_pending_circuits_for_account_def replicate_append_same)
  ultimately show ?case by blast
qed

lemma demo_block_run:
  assumes "(x, c # cs) \<in> set (branches s)" "list_all (authentic demo_executive {42} (local_node (sys s))) xts"
  shows "(node_step demo_deployment demo_executive {42})\<^sup>*\<^sup>* s (demo_block (x, c # cs) xts s)"
proof -
  obtain y d where a: "apply_all demo_executive xts (x, c) = (y, d)" by (metis prod.collapse)
  let ?n = "commit_index_writes True (offchain_index_writes d) (local_node (sys s))"
  let ?u = "s\<lparr>sys := (sys s)\<lparr>local_node := ?n\<rparr>, branches := (y, end_block d # c # cs) # branches s\<rparr>"
  have "node_step demo_deployment demo_executive {42} s ?u" by (rule import [OF assms a])
  moreover have "node_step demo_deployment demo_executive {42} ?u (?u\<lparr>sys := (sys ?u)\<lparr>chain := end_block d\<rparr>\<rparr>)"
    by (rule best [where x = y and cs = "c # cs"]) simp
  moreover have "?u\<lparr>sys := (sys ?u)\<lparr>chain := end_block d\<rparr>\<rparr> = demo_block (x, c # cs) xts s"
    by (simp add: demo_block_def demo_branch_after_def a)
  ultimately show ?thesis by (auto intro: converse_rtranclp_into_rtranclp r_into_rtranclp)
qed

lemma demo_callbacks_authentic:
  "list_all (authentic demo_executive {42} (local_node (sys demo_node_worked))) (demo_callbacks n)"
  by (simp add: list_all_iff demo_callbacks_def authentic_def demo_worked_submits demo_node_worked_def)

lemma demo_request_block:
  "demo_block demo_first [demo_xt (OcwGarble (garble_and_strip_display_circuits_package_signed_call [72])) 7 0] demo_node_start =
    \<lparr>sys = demo_ended, branches = [demo_second, demo_first]\<rparr>"
proof -
  have "apply_all demo_executive [demo_xt (OcwGarble (garble_and_strip_display_circuits_package_signed_call [72])) 7 0]
      (\<lambda>_. 0, demo_garble) = ((\<lambda>_. 0)(7 := 1), chain demo_requested)"
    by (simp add: demo_executive_def demo_apply_def demo_request_dispatch del: runtime_dispatch.simps)
  then show ?thesis
    by (simp add: demo_block_def demo_branch_after_def demo_first_def demo_second_def demo_chain_worked(1)
        demo_node_start_def demo_ended_def demo_requested_def Let_def del: apply_all.simps runtime_dispatch.simps)
qed

lemma demo_run_worked: "(node_step demo_deployment demo_executive {42})\<^sup>*\<^sup>* demo_node_start demo_node_worked"
proof -
  let ?s = "\<lparr>sys = demo_ended, branches = [demo_second, demo_first]\<rparr>"
  have "(node_step demo_deployment demo_executive {42})\<^sup>*\<^sup>* demo_node_start
      (demo_block ((\<lambda>_. 0), [demo_garble]) [demo_xt (OcwGarble (garble_and_strip_display_circuits_package_signed_call [72])) 7 0] demo_node_start)"
    by (rule demo_block_run) (simp_all add: demo_node_start_def demo_first_def authentic_def)
  then have "(node_step demo_deployment demo_executive {42})\<^sup>*\<^sup>* demo_node_start ?s"
    unfolding demo_first_def [symmetric] demo_request_block .
  moreover have "system_step demo_deployment demo_ended demo_worked"
    unfolding demo_worked_def by (rule garble_whole)
  then have "node_step demo_deployment demo_executive {42} ?s demo_node_worked"
    using between [of demo_deployment ?s demo_worked demo_executive "{42}"] by (simp add: demo_worked_def demo_node_worked_def)
  ultimately show ?thesis by (rule rtranclp.rtrancl_into_rtrancl)
qed

definition demo_node_end :: "nat \<Rightarrow> (nat, http_response list, nat \<Rightarrow> u32) node_state" where
  "demo_node_end n = demo_block demo_second (demo_callbacks n) demo_node_worked"

lemma demo_node_run: "(node_step demo_deployment demo_executive {42})\<^sup>*\<^sup>* demo_node_start (demo_node_end n)"
proof -
  have "(node_step demo_deployment demo_executive {42})\<^sup>*\<^sup>* demo_node_worked (demo_node_end n)"
    unfolding demo_node_end_def demo_second_def
    by (rule demo_block_run [OF _ demo_callbacks_authentic]) (simp add: demo_node_worked_def demo_second_def)
  with demo_run_worked show ?thesis by (rule rtranclp_trans)
qed

lemma demo_third:
  assumes "n \<le> 16"
  obtains y d where "demo_branch_after demo_second (demo_callbacks n) = (y, [d, chain demo_worked, demo_garble])"
    "get_pending_circuits_for_account d 42 = replicate n (stripped_package [77] [77] [0, 0] [80] [80])"
    "(y, [d, chain demo_worked, demo_garble]) \<in> set (branches (demo_node_end n))"
proof -
  from demo_callbacks_applied [OF assms _ demo_chain_worked(2), of "(\<lambda>_. 0)(7 := 1)"] obtain d where
    d: "apply_all demo_executive (demo_callbacks n) ((\<lambda>_. 0)(7 := 1), chain demo_worked) = ((\<lambda>_. 0)(7 := 1, 42 := word_of_nat n), d)"
    and p: "get_pending_circuits_for_account d 42 = replicate n (stripped_package [77] [77] [0, 0] [80] [80])" by auto
  have b: "demo_branch_after demo_second (demo_callbacks n) =
      ((\<lambda>_. 0)(7 := 1, 42 := word_of_nat n), [end_block d, chain demo_worked, demo_garble])"
    by (simp add: demo_branch_after_def demo_second_def d)
  show thesis
    by (rule that [OF b]) (use p in \<open>simp_all add: b demo_node_end_def demo_block_def Let_def
        end_block_def get_pending_circuits_for_account_def\<close>)
qed

text \<open>
  A request whose block is abandoned is worked on all the same: the callback goes through on the branch beside
  it, where nobody has made a request.
\<close>

lemma abandoned_request_is_answered:
  "\<exists>t y d. (node_step demo_deployment demo_executive {42})\<^sup>*\<^sup>* demo_node_start t
    \<and> apply_all demo_executive [demo_xt (OcwGarble demo_callback) 42 0] (\<lambda>_. 0, demo_garble) = (y, d)
    \<and> (y, [end_block d, demo_garble]) \<in> set (branches t)
    \<and> get_pending_circuits_for_account (end_block d) 42 = [stripped_package [77] [77] [0, 0] [80] [80]]"
proof -
  let ?xts = "[demo_xt (OcwGarble demo_callback) 42 0]"
  let ?t = "demo_block (\<lambda>_. 0, [demo_garble]) ?xts demo_node_worked"
  have xts: "demo_callbacks (Suc 0) = ?xts" by (simp add: demo_callbacks_def)
  obtain y d where a: "apply_all demo_executive ?xts (\<lambda>_. 0, demo_garble) = (y, d)"
    and p: "get_pending_circuits_for_account d 42 = [stripped_package [77] [77] [0, 0] [80] [80]]"
    using demo_callbacks_applied [of 1 "\<lambda>_. 0" demo_garble] by (auto simp: xts demo_garble_facts(6) simp del: apply_all.simps)
  have "(node_step demo_deployment demo_executive {42})\<^sup>*\<^sup>* demo_node_worked ?t"
    by (rule demo_block_run) (simp_all add: demo_node_worked_def demo_first_def authentic_def demo_worked_submits)
  with demo_run_worked have "(node_step demo_deployment demo_executive {42})\<^sup>*\<^sup>* demo_node_start ?t" by (rule rtranclp_trans)
  moreover have "(y, [end_block d, demo_garble]) \<in> set (branches ?t)"
    by (simp add: demo_block_def demo_branch_after_def Let_def a del: apply_all.simps)
  moreover have "get_pending_circuits_for_account (end_block d) 42 = [stripped_package [77] [77] [0, 0] [80] [80]]"
    using p by (simp add: end_block_def get_pending_circuits_for_account_def)
  ultimately show ?thesis using a by blast
qed

lemma demo_executive_allowed: "executive_ok (contexts demo_deployment) demo_executive"
  by (simp add: demo_executive_ok)

lemma demo_fresh_node: "fresh_node {42} demo_node_start"
  by (simp add: fresh_node_def demo_node_start_def demo_fresh demo_first_def)
    (simp add: demo_start_def demo_garble_def garble_genesis_def set_display_package_def)




end
