(* ===== verification/Worker_Time.thy ===== *)
theory Worker_Time
  imports Worker_Race Runtime_Config
begin

text \<open>
  How long the runs of the workers last. First in steps: any finite number of runs comes to an end,
  however it is scheduled, unless it is never scheduled. Then in milliseconds: what the deadlines of
  the requests bound, compared with the life of the storage lock, and what an expired lock admits.
\<close>

section \<open>Runs end\<close>

text \<open>The steps that a run still has to make at most.\<close>

fun steps_left :: "'d pc \<Rightarrow> nat" where
  "steps_left Start = 5"
| "steps_left (HasJob d) = 4"
| "steps_left (HasLock d) = 3"
| "steps_left (Emptied d) = 2"
| "steps_left (Leaving b) = 1"
| "steps_left Finished = 0"

lemma steps_left_bounds: "steps_left p \<le> 5" "steps_left p = 0 \<longleftrightarrow> p = Finished"
  by (cases p; simp)+

definition unfinished :: "('w, 'acct, 'c, 'd) race \<Rightarrow> nat set" where
  "unfinished s = {i. pcs s i \<noteq> Finished}"

definition total_left :: "('w, 'acct, 'c, 'd) race \<Rightarrow> nat" where
  "total_left s = (\<Sum>i \<in> unfinished s. steps_left (pcs s i))"

lemma race_step_progress:
  assumes "race_step ops s t"
  shows "pcs t = pcs s \<or> (\<exists>i p. pcs t = (pcs s)(i := p) \<and> steps_left p < steps_left (pcs s i))"
  using assms by (cases rule: race_step.cases) (auto intro!: exI)

lemma total_left_update:
  assumes "finite (unfinished s)" "pcs t = (pcs s)(i := p)" "steps_left p < steps_left (pcs s i)"
  shows "finite (unfinished t) \<and> unfinished t \<subseteq> unfinished s \<and> total_left t < total_left s"
proof -
  from assms(3) have i: "i \<in> unfinished s" using steps_left_bounds(2) [of "pcs s i"] by (auto simp: unfinished_def)
  with assms(2) have sub: "unfinished t \<subseteq> unfinished s" by (auto simp: unfinished_def)
  have "total_left t = (\<Sum>j \<in> unfinished s. steps_left (pcs t j))"
    unfolding total_left_def using sub assms(1) by (intro sum.mono_neutral_left) (auto simp: unfinished_def)
  also have "\<dots> = steps_left p + (\<Sum>j \<in> unfinished s - {i}. steps_left (pcs s j))"
    using i assms(1,2) by (simp add: sum.remove)
  also have "\<dots> < steps_left (pcs s i) + (\<Sum>j \<in> unfinished s - {i}. steps_left (pcs s j))"
    using assms(3) by simp
  also have "\<dots> = total_left s"
    using i assms(1) by (simp add: total_left_def sum.remove)
  finally show ?thesis using sub assms(1) finite_subset by blast
qed

lemma worker_step_decreases:
  assumes "worker_step ops s t" "finite (unfinished s)"
  shows "finite (unfinished t) \<and> total_left t < total_left s"
  using race_step_progress [of ops s t] total_left_update [OF assms(2)] assms(1)
  unfolding worker_step_def by blast

lemma race_step_left:
  assumes "race_step ops s t" "finite (unfinished s)"
  shows "finite (unfinished t) \<and> (pcs t = pcs s \<and> total_left t = total_left s \<or> total_left t < total_left s)"
proof (cases "pcs t = pcs s")
  case True
  with assms(2) show ?thesis by (simp add: unfinished_def total_left_def)
next
  case False
  with worker_step_decreases [OF _ assms(2), of ops t] assms(1) show ?thesis by (simp add: worker_step_def)
qed

lemma counted_steps:
  assumes "(worker_step ops ^^ k) s t" "finite (unfinished s)"
  shows "k + total_left t \<le> total_left s \<and> finite (unfinished t)"
  using assms
proof (induction k arbitrary: t)
  case (Suc k)
  from Suc.prems(1) obtain u where u: "(worker_step ops ^^ k) s u" "worker_step ops u t" by auto
  from Suc.IH [OF u(1) Suc.prems(2)] worker_step_decreases [OF u(2)] show ?case by auto
qed simp

text \<open>No run is ever stuck: a run that is not finished has a next step.\<close>

lemma next_step:
  assumes "pcs s i \<noteq> Finished"
  obtains t where "worker_step ops s t"
proof -
  have "\<exists>t. race_step ops s t \<and> pcs t i \<noteq> pcs s i"
  proof (cases "pcs s i")
    case Start
    then show ?thesis by (intro exI conjI, rule race_step.read_slot [OF _ refl]) auto
  next
    case (HasJob d)
    obtain b w where "take_lock ops (world (node s)) = (b, w)" by fastforce
    with HasJob show ?thesis by (intro exI conjI, rule race_step.try_lock) auto
  next
    case (HasLock d)
    then show ?thesis by (intro exI conjI, rule race_step.empty_slot) auto
  next
    case (Emptied d)
    obtain r n where "work ops d (node s) = (r, n)" by fastforce
    with Emptied show ?thesis by (intro exI conjI, rule race_step.do_work) auto
  next
    case (Leaving b)
    then show ?thesis by (intro exI conjI, rule race_step.leave) auto
  qed (use assms in simp)
  then obtain t where "race_step ops s t" "pcs t \<noteq> pcs s" by metis
  with that show thesis by (simp add: worker_step_def)
qed

lemma runs_to_end:
  assumes "finite (unfinished s)"
  shows "\<exists>t. (worker_step ops)\<^sup>*\<^sup>* s t \<and> unfinished t = {}"
  using assms
proof (induction "total_left s" arbitrary: s rule: less_induct)
  case less
  show ?case
  proof (cases "unfinished s = {}")
    case False
    then obtain i where "pcs s i \<noteq> Finished" by (auto simp: unfinished_def)
    then obtain u where u: "worker_step ops s u" by (rule next_step)
    with worker_step_decreases [OF u less.prems] less.hyps obtain t where
      "(worker_step ops)\<^sup>*\<^sup>* u t" "unfinished t = {}" by blast
    with u show ?thesis by (meson converse_rtranclp_into_rtranclp)
  qed blast
qed

lemma total_left_bound: "finite (unfinished s) \<Longrightarrow> total_left s \<le> 5 * card (unfinished s)"
proof -
  have "total_left s \<le> of_nat (card (unfinished s)) * 5"
    unfolding total_left_def by (rule sum_bounded_above) (rule steps_left_bounds)
  then show ?thesis by simp
qed

lemma only_blocks_in_the_end:
  assumes "\<And>n. race_step ops (f n) (f (Suc n))" "finite (unfinished (f 0))"
  shows "\<exists>n. \<forall>m \<ge> n. pcs (f m) = pcs (f n)"
proof -
  have fin: "finite (unfinished (f n))" for n
    by (induction n) (use assms race_step_left in blast)+
  have step: "pcs (f (Suc n)) = pcs (f n) \<and> total_left (f (Suc n)) = total_left (f n)
      \<or> total_left (f (Suc n)) < total_left (f n)" for n
    using race_step_left [OF assms(1) fin] by blast
  obtain n where n: "\<And>m. total_left (f n) \<le> total_left (f m)"
    using ex_has_least_nat [of "\<lambda>_. True" 0 "\<lambda>n. total_left (f n)"] by blast
  have "pcs (f (n + k)) = pcs (f n) \<and> total_left (f (n + k)) = total_left (f n)" for k
  proof (induction k)
    case (Suc k)
    with step [of "n + k"] n [of "Suc (n + k)"] show ?case by auto
  qed simp
  then show ?thesis by (metis le_iff_add)
qed

lemma all_runs_end:
  assumes "finite (unfinished s)"
  shows "\<forall>k t. (worker_step ops ^^ k) s t \<longrightarrow> k \<le> 5 * card (unfinished s)"
    and "\<exists>t. (worker_step ops)\<^sup>*\<^sup>* s t \<and> unfinished t = {}"
    and "\<forall>f. f 0 = s \<longrightarrow> (\<forall>n. race_step ops (f n) (f (Suc n))) \<longrightarrow> (\<exists>n. \<forall>m \<ge> n. pcs (f m) = pcs (f n))"
proof -
  show "\<forall>k t. (worker_step ops ^^ k) s t \<longrightarrow> k \<le> 5 * card (unfinished s)"
  proof (intro allI impI)
    fix k t
    assume "(worker_step ops ^^ k) s t"
    from counted_steps [OF this assms] total_left_bound [OF assms] show "k \<le> 5 * card (unfinished s)" by simp
  qed
  show "\<exists>t. (worker_step ops)\<^sup>*\<^sup>* s t \<and> unfinished t = {}" by (rule runs_to_end [OF assms])
  show "\<forall>f. f 0 = s \<longrightarrow> (\<forall>n. race_step ops (f n) (f (Suc n))) \<longrightarrow> (\<exists>n. \<forall>m \<ge> n. pcs (f m) = pcs (f n))"
    using only_blocks_in_the_end assms by blast
qed

section \<open>Milliseconds\<close>

text \<open>
  What the host promises about time, on a clock in milliseconds: its timestamps are the clock, the
  addition of a duration saturates at most, and neither sending nor awaiting a request outlasts the
  deadline it is given.
\<close>

definition timed_host :: "('w, 'p) http_host \<Rightarrow> ('w \<Rightarrow> nat) \<Rightarrow> bool" where
  "timed_host h clock \<longleftrightarrow> (\<forall>w. unat (timestamp h w) \<le> clock w)
     \<and> (\<forall>t d. unat (add_millis h t d) \<le> unat t + unat d)
     \<and> (\<forall>r w. clock (snd (http_send h r w)) \<le> max (clock w) (unat (req_deadline r)))
     \<and> (\<forall>p d w. clock (snd (try_wait h p d w)) \<le> max (clock w) (unat d))"

text \<open>\<open>takes clock n m\<close>: however \<open>m\<close> leaves, at most \<open>n\<close> milliseconds have passed.\<close>

definition takes :: "('w \<Rightarrow> nat) \<Rightarrow> nat \<Rightarrow> (('w, 'z) net_scheme, 'e, 'a) rust \<Rightarrow> bool" where
  "takes clock n m \<longleftrightarrow> (\<forall>s. clock (world (snd (m s))) \<le> clock (world s) + n)"

lemma takes_rbind:
  assumes "takes clock n m" "\<And>x. takes clock k (f x)"
  shows "takes clock (n + k) (rbind m f)"
  unfolding takes_def
proof
  fix s
  obtain r t where m: "m s = (r, t)" by fastforce
  with assms(1) have t: "clock (world t) \<le> clock (world s) + n" unfolding takes_def by (metis snd_conv)
  show "clock (world (snd (rbind m f s))) \<le> clock (world s) + (n + k)"
  proof (cases r)
    case (Ret x)
    from assms(2) have "clock (world (snd (f x t))) \<le> clock (world t) + k" by (simp add: takes_def)
    with m t Ret show ?thesis by (simp add: rbind_def)
  qed (use m t in \<open>simp_all add: rbind_def\<close>)
qed

lemma takes_quiet: "quiet m \<Longrightarrow> takes clock 0 m"
  by (simp add: takes_def quiet_def)

lemma takes_attempt: "takes clock n m \<Longrightarrow> takes clock n (attempt m)"
  and takes_map_err: "takes clock n m \<Longrightarrow> takes clock n (map_err g m)"
  by (auto simp: takes_def attempt_def map_err_def split: prod.splits exit.splits; metis snd_conv)+

lemma takes_after_quiet: "quiet m \<Longrightarrow> (\<And>x. takes clock n (f x)) \<Longrightarrow> takes clock n (rbind m f)"
  using takes_rbind [OF takes_quiet] by fastforce

lemma takes_then_quiet: "takes clock n m \<Longrightarrow> (\<And>x. quiet (f x)) \<Longrightarrow> takes clock n (rbind m f)"
  using takes_rbind [OF _ takes_quiet] by fastforce

lemma fetch_takes:
  assumes "timed_host h clock"
  shows "takes clock 10000 (fetch_from_remote_grpc_web h v url)"
  unfolding takes_def
proof
  fix s
  let ?req = "grpc_request h v url (world s)"
  have "unat (req_deadline ?req) \<le> unat (timestamp h (world s)) + unat (10000 :: u64)"
    using assms by (simp only: timed_host_def grpc_request_def http_request.simps)
  moreover have "unat (timestamp h (world s)) \<le> clock (world s)" using assms by (simp add: timed_host_def)
  ultimately have d: "unat (req_deadline ?req) \<le> clock (world s) + 10000" by simp
  have sent: "clock (snd (http_send h ?req (world s))) \<le> max (clock (world s)) (unat (req_deadline ?req))"
    using assms by (simp add: timed_host_def)
  have waited: "clock (snd (try_wait h p x w)) \<le> max (clock w) (unat x)" for p x w
    using assms by (simp add: timed_host_def)
  show "clock (world (snd (fetch_from_remote_grpc_web h v url s))) \<le> clock (world s) + 10000"
  proof (cases rule: fetch_cases [of h v url s])
    case (not_sent w)
    with sent d show ?thesis by simp
  next
    case (answered p w ans w')
    with sent d waited [of p "req_deadline ?req" w] show ?thesis by simp
  qed
qed

lemma finalizes_takes: "finalizes env kt m \<Longrightarrow> takes clock 0 m"
  unfolding finalizes_def takes_def by (metis add.right_neutral order_refl snd_conv submit_all_simps(1))

text \<open>How many requests a job needs.\<close>

definition circuits_requests :: "circuits_grpc_kind \<Rightarrow> nat" where
  "circuits_requests k = (case k of Generic \<Rightarrow> 1 | Display \<Rightarrow> 2)"

definition garble_requests :: "garble_grpc_kind \<Rightarrow> nat" where
  "garble_requests k = (case k of GarbleStandard \<Rightarrow> 1 | GarbleAndStrip \<Rightarrow> 2)"

text \<open>A worker's call: quiet preparations, one request, a quiet reading of the answer.\<close>

lemma request_takes:
  assumes "timed_host h clock" "\<And>x. quiet (f x)"
  shows "takes clock 10000 (rbind (map_err e (fetch_from_remote_grpc_web h v url)) f)"
  by (intro takes_then_quiet takes_map_err fetch_takes assms)

lemma circuits_call_takes:
  assumes "timed_host (http env) clock"
  shows "takes clock 10000 (call_grpc_generic env cd v)" "takes clock 10000 (call_grpc_display_one env cd b)"
  unfolding call_grpc_generic_def call_grpc_display_one_def Let_def
  by (rule request_takes [OF assms], (auto intro!: quiet_intros)[1] | rule takes_after_quiet, (intro quiet_intros; fail))+

lemma garble_call_takes:
  assumes "timed_host (http env) clock"
  shows "takes clock 10000 (call_grpc_garble env cd v)" "takes clock 10000 (call_grpc_garble_and_strip_one env cd v tx ds)"
  unfolding call_grpc_garble_def call_grpc_garble_and_strip_one_def Let_def
  by (rule request_takes [OF assms], (auto intro!: quiet_intros)[1] | rule takes_after_quiet, (intro quiet_intros; fail))+

lemma two_calls_take:
  assumes "takes clock 10000 m" "takes clock 10000 m'" "\<And>x y. quiet (f x y)"
  shows "takes clock 20000 (rbind (attempt m) (\<lambda>x. rbind (attempt m') (f x)))"
  using takes_rbind [OF takes_attempt [OF assms(1)] takes_then_quiet [OF takes_attempt [OF assms(2)]], OF assms(3)] by simp

lemma circuits_job_takes:
  assumes "timed_host (http env) clock"
  shows "takes clock (10000 * circuits_requests (c_grpc_kind d)) (circuits_run_job env cd d)"
proof (cases "c_grpc_kind d")
  case Generic
  then show ?thesis
    by (simp add: circuits_run_job_def circuits_requests_def)
      (intro takes_after_quiet quiet_intros circuits_call_takes [OF assms])
next
  case Display
  then show ?thesis
    by (simp add: circuits_run_job_def circuits_requests_def call_grpc_display_def)
      (intro two_calls_take circuits_call_takes [OF assms] quiet_intros)
qed

lemma garble_job_takes:
  assumes "timed_host (http env) clock"
  shows "takes clock (10000 * garble_requests (g_grpc_kind d)) (garble_run_job env cd d)"
proof (cases "g_grpc_kind d")
  case GarbleStandard
  then show ?thesis
    by (simp add: garble_run_job_def garble_requests_def)
      (intro takes_after_quiet quiet_intros garble_call_takes [OF assms])
next
  case GarbleAndStrip
  have "takes clock 20000 (call_grpc_garble_and_strip env cd m p tx md pd)" for m p tx md pd
    unfolding call_grpc_garble_and_strip_def
    by (intro two_calls_take garble_call_takes [OF assms] quiet_intros)
  with GarbleAndStrip show ?thesis
    by (simp add: garble_run_job_def garble_requests_def) (intro takes_after_quiet quiet_intros)
qed

lemma work_takes:
  assumes "takes clock n job" "\<And>r. finalizes env kt (fin r)"
  shows "takes clock n (rbind (attempt job) fin)"
  using takes_rbind [OF takes_attempt [OF assms(1)] finalizes_takes [OF assms(2)]] by simp

text \<open>
  The earliest time at which a lock made by \<open>with_block_and_time_deadline\<close> expires: when the
  milliseconds have passed and the blocks have come, which are a block time apart.
\<close>

definition lock_lifetime :: "nat \<Rightarrow> nat \<Rightarrow> nat" where
  "lock_lifetime blocks millis = max millis (blocks * unat MILLISECS_PER_BLOCK)"

lemma lock_lifetimes:
  "lock_lifetime CIRC_LOCK_BLOCK_EXPIRATION CIRC_LOCK_TIMEOUT_EXPIRATION = 18000"
  "lock_lifetime GARB_LOCK_BLOCK_EXPIRATION GARB_LOCK_TIMEOUT_EXPIRATION = 18000"
  by (simp_all add: lock_lifetime_def CIRC_LOCK_BLOCK_EXPIRATION_def CIRC_LOCK_TIMEOUT_EXPIRATION_def
      GARB_LOCK_BLOCK_EXPIRATION_def GARB_LOCK_TIMEOUT_EXPIRATION_def MILLISECS_PER_BLOCK_def)

section \<open>A host that never answers\<close>

text \<open>Its world is the clock; every request is accepted and runs into its deadline.\<close>

definition silent_host :: "(nat, unit) http_host" where
  "silent_host = \<lparr>timestamp = word_of_nat, add_millis = (+), http_send = (\<lambda>_ w. (Some (), w)),
     try_wait = (\<lambda>_ d w. (Inl (), max w (unat d)))\<rparr>"

definition silent_env :: "(nat, unit, nat, 'call, 'call) ocw_env" where
  "silent_env = \<lparr>std_build = True, env_var = (\<lambda>_. Some ''http://api''), http = silent_host,
     base64_decode = Some, lock_acquire = (\<lambda>_ _ _ w. (True, w)), lock_release = (\<lambda>_ w. w),
     local_accounts = (\<lambda>_. [42]), into_call = id\<rparr>"

lemma silent_timed: "timed_host silent_host id"
  by (auto simp: timed_host_def silent_host_def unsigned_of_nat take_bit_nat_eq_self_iff take_bit_nat_less_eq_self unat_word_ariths)

lemma silent_simps [simp]:
  "std_build silent_env" "env_var silent_env name = Some ''http://api''" "local_accounts silent_env kt = [42]"
  "http silent_env = silent_host"
  by (simp_all add: silent_env_def)

lemma silent_request:
  assumes "world s + 10000 < 2 ^ 64"
  shows "map_err e (fetch_from_remote_grpc_web silent_host v url) s =
    (Err (e DeadlineReached), sent_request (grpc_request silent_host v url (world s)) (world s + 10000) s)"
proof -
  have "unat (word_of_nat (world s) + 10000 :: u64) = world s + 10000"
    using assms by (simp add: unat_word_ariths unsigned_of_nat take_bit_nat_eq_self)
  then show ?thesis by (simp add: map_err_def fetch_eq silent_host_def grpc_request_def)
qed

lemma demo_requests_encode:
  "enc_display_request demo_circuits_codec r = Some [word_of_nat (length (req_digits_bboxes r))]"
  "enc_strip_request demo_garble_codec q = Some (sreq_skcd_cid q @ sreq_tx_msg q)"
  by (simp_all add: demo_circuits_codec_def demo_garble_codec_def)

lemma silent_display:
  assumes "world s + 10000 < 2 ^ 64"
  shows "\<exists>t. call_grpc_display_one silent_env demo_circuits_codec b s = (Err CHttpFetchingError, t) \<and> world t = world s + 10000"
  unfolding call_grpc_display_one_def
  by (simp add: rbind_encode [where enc = "enc_display_request demo_circuits_codec", OF demo_requests_encode(1)] uri_root_std Let_def)
    (simp add: rbind_def silent_request [OF assms])

lemma silent_strip:
  assumes "world s + 10000 < 2 ^ 64" "valid_utf8 cid" "valid_utf8 tx"
  shows "\<exists>t. call_grpc_garble_and_strip_one silent_env demo_garble_codec cid tx ds s = (Err GHttpFetchingError, t) \<and> world t = world s + 10000"
  unfolding call_grpc_garble_and_strip_one_def
  by (simp add: from_utf8_valid assms(2,3) rbind_encode [where enc = "enc_strip_request demo_garble_codec", OF demo_requests_encode(2)] uri_root_std Let_def)
    (simp add: rbind_def silent_request [OF assms(1)])

lemma two_silent_calls:
  assumes "\<And>s. world s + 10000 < 2 ^ 64 \<Longrightarrow> \<exists>t. m s = (Err e, t) \<and> world t = world s + 10000"
    and "\<And>s. world s + 10000 < 2 ^ 64 \<Longrightarrow> \<exists>t. m' s = (Err e', t) \<and> world t = world s + (10000 :: nat)"
    and "world s + 20000 < 2 ^ 64"
  shows "\<exists>t. rbind (attempt m) (\<lambda>x. rbind (attempt m') (\<lambda>y. rbind (expect_ok msg x) (f y))) s = (Panic (Expect msg), t)
    \<and> world t = world s + 20000"
proof -
  from assms(1) [of s] assms(3) obtain t where t: "m s = (Err e, t)" "world t = world s + 10000" by auto
  from assms(2) [of t] assms(3) t(2) obtain u where u: "m' t = (Err e', u)" "world u = world t + 10000" by auto
  show ?thesis using t u by (simp add: rbind_def attempt_def)
qed

lemma panicking_work: "job s = (Panic p, t) \<Longrightarrow> rbind (attempt job) fin s = (Panic p, t)"
  by (simp add: rbind_Panic attempt_Panic)

lemma idle_world: "world (idle_node w) = w"
  by (simp add: idle_node_def)

lemma silent_display_job:
  assumes "world n + 20000 < 2 ^ 64"
  shows "world (snd (work (circuits_ops silent_env demo_circuits_codec) (circuits_job None Display) n)) = world n + 20000"
proof -
  have "\<exists>t. circuits_run_job silent_env demo_circuits_codec (circuits_job None Display) n = (Panic (Expect ''message_reply failed!''), t)
      \<and> world t = world n + 20000"
    unfolding circuits_run_job_def circuits_job_def call_grpc_display_def
    by simp (rule two_silent_calls [OF silent_display silent_display assms])
  then show ?thesis by (auto simp: circuits_ops_def panicking_work)
qed

lemma silent_strip_job:
  assumes "world n + 20000 < 2 ^ 64"
  shows "world (snd (work (garble_ops silent_env demo_garble_codec) (strip_job [] [] [] msg pin) n)) = world n + 20000"
proof -
  have e: "valid_utf8 []" by code_simp
  have "\<exists>t. garble_run_job silent_env demo_garble_codec (strip_job [] [] [] msg pin) n = (Panic (Expect ''message_reply failed!''), t)
      \<and> world t = world n + 20000"
    unfolding garble_run_job_def strip_job_def call_grpc_garble_and_strip_def
    by simp (rule two_silent_calls [OF silent_strip [OF _ e e] silent_strip [OF _ e e] assms])
  then show ?thesis by (auto simp: garble_ops_def panicking_work)
qed

section \<open>When a lock expires\<close>

text \<open>The interleaving with one more step: time passes, and a lock that was held may be free afterwards.\<close>

inductive expiring_step ::
  "('w, 'acct, 'c, 'd, 'e) worker_ops \<Rightarrow> ('w \<Rightarrow> 'w) \<Rightarrow> ('w, 'acct, 'c, 'd) race \<Rightarrow> ('w, 'acct, 'c, 'd) race \<Rightarrow> bool"
  for ops later where
  work: "race_step ops s t \<Longrightarrow> expiring_step ops later s t"
| expire: "expiring_step ops later s (with_node ((node s)\<lparr>world := later (world (node s))\<rparr>) s)"

lemma expired_lock_admits_second:
  assumes "lock_laws ops held" "has_job ops (read_job ops n)" "\<not> held (world n)" "\<And>w. \<not> held (later w)"
  shows "\<exists>t. (expiring_step ops later)\<^sup>*\<^sup>* (alone n) t
    \<and> pcs t 0 = HasLock (read_job ops n) \<and> pcs t 1 = HasLock (read_job ops n)"
proof -
  let ?d = "read_job ops n"
  define s1 where "s1 = at 0 (HasJob ?d) (alone n)"
  define s2 where "s2 = at 1 (HasJob ?d) s1"
  from take_free_lock [OF assms(1,3)] obtain w where w: "take_lock ops (world n) = (True, w)" by blast
  define s3 where "s3 = at 0 (HasLock ?d) (with_node ((node s2)\<lparr>world := w\<rparr>) s2)"
  define s4 where "s4 = with_node ((node s3)\<lparr>world := later (world (node s3))\<rparr>) s3"
  from take_free_lock [OF assms(1,4)] obtain w' where w': "take_lock ops (world (node s4)) = (True, w')"
    by (auto simp: s4_def)
  define s5 where "s5 = at 1 (HasLock ?d) (with_node ((node s4)\<lparr>world := w'\<rparr>) s4)"
  have 1: "race_step ops (alone n) s1"
    using race_step.read_slot [of "alone n" 0 ?d ops] assms(2) by (simp add: s1_def)
  have n1: "node s1 = n" "pcs s1 1 = Start" by (simp_all add: s1_def)
  have 2: "race_step ops s1 s2"
    using race_step.read_slot [OF n1(2) refl, of ops] assms(2) by (simp add: s2_def n1(1))
  have 3: "race_step ops s2 s3"
    using race_step.try_lock [of s2 0 ?d ops True w] w by (simp add: s1_def s2_def s3_def)
  have "race_run ops (alone n) s3" by (rule run_step [OF 1 run_step [OF 2 r_into_rtranclp [where r = "race_step ops", OF 3]]])
  then have "(expiring_step ops later)\<^sup>*\<^sup>* (alone n) s3"
    by (rule rtranclp_mono [THEN predicate2D, rotated]) (auto intro: expiring_step.work)
  moreover have "expiring_step ops later s3 s4"
    unfolding s4_def by (rule expiring_step.expire)
  moreover have p: "pcs s4 0 = HasLock ?d" "pcs s4 1 = HasJob ?d"
    by (simp_all add: s4_def s3_def s2_def)
  have "race_step ops s4 s5"
    using race_step.try_lock [OF p(2) w'] by (simp add: s5_def)
  then have "expiring_step ops later s4 s5" by (rule expiring_step.work)
  moreover have "pcs s5 0 = HasLock ?d" "pcs s5 1 = HasLock ?d" using p by (simp_all add: s5_def)
  ultimately show ?thesis by (intro exI [of _ s5]) (simp add: rtranclp.rtrancl_into_rtrancl)
qed

section \<open>Properties\<close>




text \<open>Two runs that have not started yet.\<close>

definition two_runs :: "('w, 'acct, 'c) offchain \<Rightarrow> ('w, 'acct, 'c, 'd) race" where
  "two_runs n = (alone n)\<lparr>pcs := (\<lambda>i. if i < 2 then Start else Finished)\<rparr>"

lemma two_runs_unfinished: "unfinished (two_runs n) = {0, 1}"
  by (auto simp: unfinished_def two_runs_def)




end
