(* ===== verification/Node.thy ===== *)
theory Node
  imports Runtime_Config
begin

text \<open>
  What a chain starts from (\<open>node/src/chain_spec.rs\<close>, \<open>load_spec\<close> of \<open>node/src/command.rs\<close>): the keys made
  from seeds, the genesis, the two built-in specifications and the choice of one by its name.
\<close>

section \<open>Keys from seeds\<close>

text \<open>
  \<open>Pair::from_string(s, None)\<close> followed by \<open>public()\<close> for the three key kinds, and the account
  of an sr25519 key.
\<close>

record ('aura, 'grandpa, 'sr, 'acct) key_scheme =
  aura_from_string :: "string \<Rightarrow> 'aura option"
  grandpa_from_string :: "string \<Rightarrow> 'grandpa option"
  sr25519_from_string :: "string \<Rightarrow> 'sr option"
  into_account :: "'sr \<Rightarrow> 'acct"

definition get_from_seed :: "(string \<Rightarrow> 'pub option) \<Rightarrow> string \<Rightarrow> ('s, 'e, 'pub) rust" where
  "get_from_seed from_string seed = expect ''static values are valid; qed'' (from_string (''//'' @ seed))"

definition get_account_id_from_seed ::
  "('aura, 'grandpa, 'sr, 'acct) key_scheme \<Rightarrow> string \<Rightarrow> ('s, 'e, 'acct) rust" where
  "get_account_id_from_seed ks seed =
     rbind (get_from_seed (sr25519_from_string ks) seed) (\<lambda>public. ret (into_account ks public))"

definition authority_keys_from_seed ::
  "('aura, 'grandpa, 'sr, 'acct) key_scheme \<Rightarrow> string \<Rightarrow> ('s, 'e, 'aura \<times> 'grandpa) rust" where
  "authority_keys_from_seed ks s =
     rbind (get_from_seed (aura_from_string ks) s) (\<lambda>a.
     rbind (get_from_seed (grandpa_from_string ks) s) (\<lambda>g. ret (a, g)))"

section \<open>Genesis\<close>

record ('aura, 'grandpa, 'acct) genesis_config =
  system_code :: bytes
  balances :: "('acct \<times> 128 word) list"
  aura_authorities :: "'aura list"
  grandpa_authorities :: "('grandpa \<times> u64) list"
  sudo_key :: "'acct option"

definition testnet_genesis ::
  "bytes \<Rightarrow> ('aura \<times> 'grandpa) list \<Rightarrow> 'acct \<Rightarrow> 'acct list \<Rightarrow> bool \<Rightarrow> ('aura, 'grandpa, 'acct) genesis_config" where
  "testnet_genesis wasm_binary initial_authorities root_key endowed_accounts enable_println =
     \<lparr>system_code = wasm_binary,
      balances = map (\<lambda>k. (k, push_bit 60 1)) endowed_accounts,
      aura_authorities = map fst initial_authorities,
      grandpa_authorities = map (\<lambda>x. (snd x, 1)) initial_authorities,
      sudo_key = Some root_key\<rparr>"

datatype chain_type = Development | Local

text \<open>A specification: its name, its identifier, its type and the constructor of its genesis.\<close>

record ('aura, 'grandpa, 'acct) chain_spec =
  spec_name :: string
  spec_id :: string
  spec_type :: chain_type
  spec_genesis :: "(unit, unit, ('aura, 'grandpa, 'acct) genesis_config) rust"

definition genesis_of_seeds ::
  "('aura, 'grandpa, 'sr, 'acct) key_scheme \<Rightarrow> bytes \<Rightarrow> string list \<Rightarrow> string \<Rightarrow> string list \<Rightarrow>
   ('s, 'e, ('aura, 'grandpa, 'acct) genesis_config) rust" where
  "genesis_of_seeds ks wasm_binary authorities root endowed =
     rbind (map_collect (authority_keys_from_seed ks) authorities) (\<lambda>initial_authorities.
     rbind (get_account_id_from_seed ks root) (\<lambda>root_key.
     rbind (map_collect (get_account_id_from_seed ks) endowed) (\<lambda>endowed_accounts.
     ret (testnet_genesis wasm_binary initial_authorities root_key endowed_accounts True))))"

definition development_config ::
  "('aura, 'grandpa, 'sr, 'acct) key_scheme \<Rightarrow> bytes option \<Rightarrow> string + ('aura, 'grandpa, 'acct) chain_spec" where
  "development_config ks WASM_BINARY = (case WASM_BINARY of
     None \<Rightarrow> Inl ''Development wasm not available''
   | Some wasm_binary \<Rightarrow> Inr \<lparr>spec_name = ''Development'', spec_id = ''dev'', spec_type = Development,
       spec_genesis = genesis_of_seeds ks wasm_binary [''Alice''] ''Alice''
         [''Alice'', ''Bob'', ''Alice//stash'', ''Bob//stash'']\<rparr>)"

definition local_testnet_config ::
  "('aura, 'grandpa, 'sr, 'acct) key_scheme \<Rightarrow> bytes option \<Rightarrow> string + ('aura, 'grandpa, 'acct) chain_spec" where
  "local_testnet_config ks WASM_BINARY = (case WASM_BINARY of
     None \<Rightarrow> Inl ''Development wasm not available''
   | Some wasm_binary \<Rightarrow> Inr \<lparr>spec_name = ''Local Testnet'', spec_id = ''local_testnet'', spec_type = Local,
       spec_genesis = genesis_of_seeds ks wasm_binary [''Alice'', ''Bob''] ''Alice''
         [''Alice'', ''Bob'', ''Charlie'', ''Dave'', ''Eve'', ''Ferdie'',
          ''Alice//stash'', ''Bob//stash'', ''Charlie//stash'', ''Dave//stash'', ''Eve//stash'', ''Ferdie//stash'']\<rparr>)"

text \<open>\<open>from_json\<close> stands for \<open>ChainSpec::from_json_file\<close>.\<close>

definition load_spec ::
  "('aura, 'grandpa, 'sr, 'acct) key_scheme \<Rightarrow> bytes option \<Rightarrow> (string \<Rightarrow> string + ('aura, 'grandpa, 'acct) chain_spec) \<Rightarrow>
   string \<Rightarrow> string + ('aura, 'grandpa, 'acct) chain_spec" where
  "load_spec ks WASM_BINARY from_json name =
     (if name = ''dev'' then development_config ks WASM_BINARY
      else if name = '''' \<or> name = ''local'' then local_testnet_config ks WASM_BINARY
      else from_json name)"

section \<open>Keys that can be derived\<close>

definition keys_ok :: "('aura, 'grandpa, 'sr, 'acct) key_scheme \<Rightarrow> bool" where
  "keys_ok ks \<longleftrightarrow> (\<forall>s. aura_from_string ks s \<noteq> None \<and> grandpa_from_string ks s \<noteq> None \<and> sr25519_from_string ks s \<noteq> None)"

definition account_of :: "('aura, 'grandpa, 'sr, 'acct) key_scheme \<Rightarrow> string \<Rightarrow> 'acct" where
  "account_of ks seed = into_account ks (the (sr25519_from_string ks (''//'' @ seed)))"

lemma seeds_total:
  assumes "keys_ok ks"
  shows "get_account_id_from_seed ks seed s = (Ret (account_of ks seed), s)"
    "authority_keys_from_seed ks seed s =
      (Ret (the (aura_from_string ks (''//'' @ seed)), the (grandpa_from_string ks (''//'' @ seed))), s)"
proof -
  from assms obtain a g p where "aura_from_string ks (''//'' @ seed) = Some a"
    "grandpa_from_string ks (''//'' @ seed) = Some g" "sr25519_from_string ks (''//'' @ seed) = Some p"
    unfolding keys_ok_def by blast
  then show "get_account_id_from_seed ks seed s = (Ret (account_of ks seed), s)"
    "authority_keys_from_seed ks seed s =
      (Ret (the (aura_from_string ks (''//'' @ seed)), the (grandpa_from_string ks (''//'' @ seed))), s)"
    by (simp_all add: get_account_id_from_seed_def authority_keys_from_seed_def get_from_seed_def account_of_def)
qed

lemma genesis_of_seeds_eq:
  assumes "keys_ok ks"
  shows "genesis_of_seeds ks wasm auths root endowed s =
    (Ret (testnet_genesis wasm
       (map (\<lambda>a. (the (aura_from_string ks (''//'' @ a)), the (grandpa_from_string ks (''//'' @ a)))) auths)
       (account_of ks root) (map (account_of ks) endowed) True), s)"
proof -
  note a = map_collect_total [where f = "authority_keys_from_seed ks"
      and g = "\<lambda>a. (the (aura_from_string ks (''//'' @ a)), the (grandpa_from_string ks (''//'' @ a)))", OF seeds_total(2) [OF assms]]
  note e = map_collect_total [where f = "get_account_id_from_seed ks" and g = "account_of ks", OF seeds_total(1) [OF assms]]
  show ?thesis
    unfolding genesis_of_seeds_def
    by (simp add: rbind_Ret a e seeds_total [OF assms])
qed

section \<open>Genesis and the limits of the runtime\<close>

text \<open>
  What the genesis builders of the balances, Aura and GRANDPA pallets insist on: every account
  once, every balance at least the existential deposit, an issuance that fits the balance type, and
  no more authorities than the runtime allows.
\<close>

definition genesis_acceptable :: "('aura, 'grandpa, 'acct) genesis_config \<Rightarrow> bool" where
  "genesis_acceptable g \<longleftrightarrow> distinct (map fst (balances g))
     \<and> list_all (\<lambda>(a, b). ExistentialDeposit \<le> b) (balances g)
     \<and> sum_list (map (unat \<circ> snd) (balances g)) < 2 ^ 128
     \<and> length (aura_authorities g) \<le> AuraMaxAuthorities
     \<and> length (grandpa_authorities g) \<le> GrandpaMaxAuthorities"

lemma endowment: "unat (push_bit 60 1 :: 128 word) = 2 ^ 60" "ExistentialDeposit \<le> push_bit 60 1"
  by (simp_all add: push_bit_eq_mult ExistentialDeposit_def)

lemma testnet_genesis_acceptable:
  assumes "distinct endowed" "length endowed \<le> 100" "length authorities \<le> 32"
  shows "genesis_acceptable (testnet_genesis wasm authorities root endowed println)"
proof -
  have "sum_list (map (\<lambda>_. 2 ^ 60) endowed) = length endowed * 2 ^ 60" by (simp add: sum_list_triv)
  moreover have "length endowed * 2 ^ 60 \<le> 100 * 2 ^ 60" using assms(2) by (intro mult_le_mono1)
  ultimately have "sum_list (map (\<lambda>_. 2 ^ 60) endowed) < (2 :: nat) ^ 128" by simp
  then show ?thesis
    using assms by (simp add: genesis_acceptable_def testnet_genesis_def comp_def endowment [simplified] list_all_iff
        AuraMaxAuthorities_def GrandpaMaxAuthorities_def)
qed

definition built_in_seeds :: "string list" where
  "built_in_seeds = [''Alice'', ''Bob'', ''Charlie'', ''Dave'', ''Eve'', ''Ferdie'',
     ''Alice//stash'', ''Bob//stash'', ''Charlie//stash'', ''Dave//stash'', ''Eve//stash'', ''Ferdie//stash'']"

lemma built_in_genesis:
  assumes "keys_ok ks" "inj_on (account_of ks) (set built_in_seeds)"
    and "distinct seeds" "set seeds \<subseteq> set built_in_seeds" "''Alice'' \<in> set seeds" "length seeds \<le> 100" "length auths \<le> 32"
  shows "\<exists>g. genesis_of_seeds ks wasm auths ''Alice'' seeds () = (Ret g, ()) \<and> genesis_acceptable g
    \<and> sudo_key g = Some (account_of ks ''Alice'') \<and> (account_of ks ''Alice'', 2 ^ 60) \<in> set (balances g)"
proof -
  let ?auths = "map (\<lambda>a. (the (aura_from_string ks (''//'' @ a)), the (grandpa_from_string ks (''//'' @ a)))) auths"
  let ?g = "testnet_genesis wasm ?auths (account_of ks ''Alice'') (map (account_of ks) seeds) True"
  have "genesis_acceptable ?g"
    using assms(3-) inj_on_subset [OF assms(2)] by (intro testnet_genesis_acceptable) (simp_all add: distinct_map)
  moreover have "sudo_key ?g = Some (account_of ks ''Alice'')" "(account_of ks ''Alice'', 2 ^ 60) \<in> set (balances ?g)"
    using assms(5) by (simp_all add: testnet_genesis_def push_bit_eq_mult image_iff) blast
  ultimately show ?thesis using genesis_of_seeds_eq [OF assms(1), of wasm auths "''Alice''" seeds "()"] by blast
qed

lemma built_in_spec:
  assumes "keys_ok ks" "inj_on (account_of ks) (set built_in_seeds)" "name \<in> {''dev'', ''local'', ''''}"
  shows "\<exists>spec g. load_spec ks (Some wasm) from_json name = Inr spec \<and> spec_genesis spec () = (Ret g, ())
    \<and> genesis_acceptable g \<and> sudo_key g = Some (account_of ks ''Alice'')
    \<and> (account_of ks ''Alice'', 2 ^ 60) \<in> set (balances g)"
proof -
  note g = built_in_genesis [OF assms(1,2), of _ _ wasm]
  have dev: ?thesis if "name = ''dev''"
    using g [of "[''Alice'', ''Bob'', ''Alice//stash'', ''Bob//stash'']" "[''Alice'']"] that
    by (simp add: load_spec_def development_config_def built_in_seeds_def)
  have loc: ?thesis if "name = ''local'' \<or> name = []"
    using g [of built_in_seeds "[''Alice'', ''Bob'']"] that
    by (auto simp: load_spec_def local_testnet_config_def built_in_seeds_def)
  from assms(3) dev loc show ?thesis by blast
qed

section \<open>Properties\<close>


definition demo_keys :: "(string, string, string, string) key_scheme" where
  "demo_keys = \<lparr>aura_from_string = Some, grandpa_from_string = Some, sr25519_from_string = Some, into_account = id\<rparr>"

lemma demo_keys_ok: "keys_ok demo_keys" "account_of demo_keys seed = ''//'' @ seed"
  by (simp_all add: demo_keys_def keys_ok_def account_of_def)


end
