(* ===== verification/Service.thy ===== *)
theory Service
  imports Node Ocw_Garble "HOL-Library.Sublist"
begin

text \<open>
  The node's service (\<open>node/src/service.rs\<close>) and the RPC extensions it serves (\<open>node/src/rpc.rs\<close>):
  which components a configuration starts, in which order, with which of its settings, and what
  happens when one of them cannot be started. The components are library code; a call of one of
  them is an entry of the trace \<open>calls\<close>, and the parameter \<open>fails\<close> says how it leaves.
\<close>

section \<open>RPC extensions\<close>

text \<open>
  The two delegates that \<open>create_full\<close> adds to an empty handler, with the dependency that says
  whether unsafe calls are denied; client and pool are the node's own.
\<close>

datatype rpc_extension = SystemApi bool | TransactionPaymentApi

record full_deps =
  deny_unsafe :: bool

definition extend_with :: "'x list \<Rightarrow> 'x \<Rightarrow> 'x list" where
  "extend_with io x = io @ [x]"

definition create_full :: "full_deps \<Rightarrow> rpc_extension list" where
  "create_full deps =
     (let io = [];
          io = extend_with io (SystemApi (deny_unsafe deps));
          io = extend_with io TransactionPaymentApi
      in io)"

section \<open>Configuration, errors, the calls of the library\<close>

record node_configuration =
  keystore_remote :: "string option"
  telemetry_endpoints :: "string list option"
  offchain_worker_enabled :: bool
  role_is_authority :: bool
  force_authoring :: bool
  disable_grandpa :: bool
  node_name :: string
  extra_sets :: "string list"

datatype service_error = Other string | Library string

record task =
  task_name :: string
  task_group :: "string option"
  essential :: bool
  blocking :: bool

record start_aura_params =
  aura_slot_duration :: u64
  aura_force_authoring :: bool
  backoff_authoring_blocks :: "unit option"
  block_proposal_slot_portion :: f32
  max_block_proposal_slot_portion :: "f32 option"
  aura_telemetry :: bool

text \<open>Of the GRANDPA configuration, the keystore is represented by whether there is one.\<close>

record grandpa_config =
  gossip_duration_millis :: nat
  justification_period :: nat
  grandpa_name :: "string option"
  observer_enabled :: bool
  grandpa_keystore :: bool
  local_role_authority :: bool
  grandpa_telemetry :: bool
  grandpa_protocol_name :: string

text \<open>
  The calls of the library whose effect reaches beyond their own result, with what the code hands
  them besides the client, the backend and the task manager.
\<close>

datatype lib_call =
    TelemetryWorkerNew nat
  | NewTelemetry "string list"
  | NewFullParts bool
  | SpawnTask task
  | NewTransactionPool bool
  | GrandpaBlockImport bool
  | AuraSlotDuration
  | AuraImportQueue u64 bool
  | BuildNetwork "string list"
  | BuildOffchainWorkers
  | SpawnTasks "bool \<Rightarrow> rpc_extension list" bool
  | StartAura start_aura_params
  | RunGrandpaVoter grandpa_config
  | StartNetwork

record 'ks node_state =
  keystore :: 'ks
  calls :: "lib_call list"

text \<open>
  \<open>fails c cs\<close> is the error with which the call \<open>c\<close> leaves after the calls \<open>cs\<close>;
  \<open>block_hash_0\<close> is the client's answer to \<open>block_hash(0)\<close>.
\<close>

record ('h, 'ks, 'sr) service_lib =
  fails :: "lib_call \<Rightarrow> lib_call list \<Rightarrow> string option"
  client_slot_duration :: u64
  block_hash_0 :: "unit + 'h option"
  protocol_standard_name :: "'h \<Rightarrow> string"
  sr25519_generate_new :: "bytes \<Rightarrow> string option \<Rightarrow> 'ks \<Rightarrow> 'sr option \<times> 'ks"

definition make_call :: "('h, 'ks, 'sr) service_lib \<Rightarrow> lib_call \<Rightarrow> (('ks, 'z) node_state_scheme, service_error, unit) rust" where
  "make_call lib c = (\<lambda>s. (case fails lib c (calls s) of None \<Rightarrow> Ret () | Some e \<Rightarrow> Err (Library e),
     s\<lparr>calls := calls s @ [c]\<rparr>))"

text \<open>A call whose result is no \<open>Result\<close>.\<close>

definition note_call :: "lib_call \<Rightarrow> (('ks, 'z) node_state_scheme, 'e, unit) rust" where
  "note_call c = modify (\<lambda>s. s\<lparr>calls := calls s @ [c]\<rparr>)"

definition generate_key ::
  "('h, 'ks, 'sr) service_lib \<Rightarrow> bytes \<Rightarrow> string option \<Rightarrow> (('ks, 'z) node_state_scheme, 'e, 'sr option) rust" where
  "generate_key lib kt seed = (\<lambda>s. case sr25519_generate_new lib kt seed (keystore s) of
     (r, k) \<Rightarrow> (Ret r, s\<lparr>keystore := k\<rparr>))"

section \<open>The service\<close>

text \<open>The worker keys that \<open>new_partial\<close> puts into the keystore.\<close>

definition install_worker_keys ::
  "('h, 'ks, 'sr) service_lib \<Rightarrow> (('ks, 'z) node_state_scheme, service_error, unit) rust" where
  "install_worker_keys lib =
     rbind (generate_key lib GARB_KEY_TYPE (Some ''//Alice'')) (\<lambda>r.
     rbind (expect ''Creating key with account Alice should succeed.'' r) (\<lambda>_.
     rbind (generate_key lib CIRC_KEY_TYPE (Some ''//Alice'')) (\<lambda>r.
     rbind (expect ''Creating key with account Alice should succeed.'' r) (\<lambda>_. ret ()))))"

definition new_telemetry ::
  "('h, 'ks, 'sr) service_lib \<Rightarrow> node_configuration \<Rightarrow> (('ks, 'z) node_state_scheme, service_error, bool) rust" where
  "new_telemetry lib config = (case telemetry_endpoints config of
     None \<Rightarrow> ret False
   | Some endpoints \<Rightarrow> if endpoints = [] then ret False
       else rbind (make_call lib (TelemetryWorkerNew 16)) (\<lambda>_.
            rbind (note_call (NewTelemetry endpoints)) (\<lambda>_. ret True)))"

text \<open>The result of \<open>new_partial\<close> that \<open>new_full\<close> decides on: whether there is a telemetry.\<close>

definition new_partial ::
  "('h, 'ks, 'sr) service_lib \<Rightarrow> node_configuration \<Rightarrow> (('ks, 'z) node_state_scheme, service_error, bool) rust" where
  "new_partial lib config =
     rbind (if keystore_remote config \<noteq> None then throw (Other ''Remote Keystores are not supported.'') else ret ()) (\<lambda>_.
     rbind (new_telemetry lib config) (\<lambda>telemetry.
     rbind (make_call lib (NewFullParts telemetry)) (\<lambda>_.
     rbind (if offchain_worker_enabled config then install_worker_keys lib else ret ()) (\<lambda>_.
     rbind (if telemetry then note_call (SpawnTask \<lparr>task_name = ''telemetry'', task_group = None,
         essential = False, blocking = False\<rparr>) else ret ()) (\<lambda>_.
     rbind (note_call (NewTransactionPool (role_is_authority config))) (\<lambda>_.
     rbind (make_call lib (GrandpaBlockImport telemetry)) (\<lambda>_.
     rbind (make_call lib AuraSlotDuration) (\<lambda>_.
     rbind (make_call lib (AuraImportQueue (client_slot_duration lib) telemetry)) (\<lambda>_.
     ret telemetry)))))))))"

definition remote_keystore :: "string \<Rightarrow> string + 'keystore" where
  "remote_keystore url = Inl ''Remote Keystore not supported.''"

definition hook_remote_keystore ::
  "(string \<Rightarrow> string + 'ks) \<Rightarrow> node_configuration \<Rightarrow> (('ks, 'z) node_state_scheme, service_error, unit) rust" where
  "hook_remote_keystore remote config = (case keystore_remote config of
     None \<Rightarrow> ret ()
   | Some url \<Rightarrow> (case remote url of
       Inr k \<Rightarrow> modify (\<lambda>s. s\<lparr>keystore := k\<rparr>)
     | Inl e \<Rightarrow> throw (Other (''Error hooking up remote keystore for '' @ url @ '': '' @ e))))"

definition start_authoring ::
  "('h, 'ks, 'sr) service_lib \<Rightarrow> node_configuration \<Rightarrow> bool \<Rightarrow> (('ks, 'z) node_state_scheme, service_error, unit) rust" where
  "start_authoring lib config telemetry =
     rbind (make_call lib AuraSlotDuration) (\<lambda>_.
     rbind (make_call lib (StartAura \<lparr>aura_slot_duration = client_slot_duration lib,
       aura_force_authoring = force_authoring config, backoff_authoring_blocks = None,
       block_proposal_slot_portion = f32_of_frac 2 3, max_block_proposal_slot_portion = None,
       aura_telemetry = telemetry\<rparr>)) (\<lambda>_.
     note_call (SpawnTask \<lparr>task_name = ''aura'', task_group = Some ''block-authoring'',
       essential = True, blocking = True\<rparr>)))"

definition start_grandpa ::
  "('h, 'ks, 'sr) service_lib \<Rightarrow> node_configuration \<Rightarrow> bool \<Rightarrow> string \<Rightarrow> (('ks, 'z) node_state_scheme, service_error, unit) rust" where
  "start_grandpa lib config telemetry protocol_name =
     rbind (make_call lib (RunGrandpaVoter \<lparr>gossip_duration_millis = 333, justification_period = 512,
       grandpa_name = Some (node_name config), observer_enabled = False,
       grandpa_keystore = role_is_authority config, local_role_authority = role_is_authority config,
       grandpa_telemetry = telemetry, grandpa_protocol_name = protocol_name\<rparr>)) (\<lambda>_.
     note_call (SpawnTask \<lparr>task_name = ''grandpa-voter'', task_group = None, essential = True, blocking = True\<rparr>))"

definition new_full ::
  "('h, 'ks, 'sr) service_lib \<Rightarrow> node_configuration \<Rightarrow> (('ks, 'z) node_state_scheme, service_error, unit) rust" where
  "new_full lib config =
     rbind (new_partial lib config) (\<lambda>telemetry.
     rbind (hook_remote_keystore remote_keystore config) (\<lambda>_.
     rbind (expect ''Genesis block exists; qed'' (case block_hash_0 lib of Inl _ \<Rightarrow> None | Inr h \<Rightarrow> h)) (\<lambda>genesis.
     let grandpa_protocol_name = protocol_standard_name lib genesis;
         config = config\<lparr>extra_sets := extra_sets config @ [grandpa_protocol_name]\<rparr> in
     rbind (make_call lib (BuildNetwork (extra_sets config))) (\<lambda>_.
     rbind (if offchain_worker_enabled config then note_call BuildOffchainWorkers else ret ()) (\<lambda>_.
     let enable_grandpa = \<not> disable_grandpa config;
         rpc_extensions_builder = (\<lambda>deny. create_full \<lparr>deny_unsafe = deny\<rparr>) in
     rbind (make_call lib (SpawnTasks rpc_extensions_builder telemetry)) (\<lambda>_.
     rbind (if role_is_authority config then start_authoring lib config telemetry else ret ()) (\<lambda>_.
     rbind (if enable_grandpa then start_grandpa lib config telemetry grandpa_protocol_name else ret ()) (\<lambda>_.
     note_call StartNetwork))))))))"

section \<open>The plan of a start\<close>

text \<open>
  The calls of a complete start, in order, for a configuration and the answers of the library.
\<close>

definition telemetry_on :: "node_configuration \<Rightarrow> bool" where
  "telemetry_on config \<longleftrightarrow> telemetry_endpoints config \<noteq> None \<and> telemetry_endpoints config \<noteq> Some []"

definition genesis_hash :: "('h, 'ks, 'sr) service_lib \<Rightarrow> 'h option" where
  "genesis_hash lib = (case block_hash_0 lib of Inl _ \<Rightarrow> None | Inr h \<Rightarrow> h)"

definition partial_plan :: "('h, 'ks, 'sr) service_lib \<Rightarrow> node_configuration \<Rightarrow> lib_call list" where
  "partial_plan lib config = (let tele = telemetry_on config in
     (if tele then [TelemetryWorkerNew 16, NewTelemetry (the (telemetry_endpoints config))] else [])
     @ [NewFullParts tele]
     @ (if tele then [SpawnTask \<lparr>task_name = ''telemetry'', task_group = None, essential = False, blocking = False\<rparr>] else [])
     @ [NewTransactionPool (role_is_authority config), GrandpaBlockImport tele, AuraSlotDuration,
        AuraImportQueue (client_slot_duration lib) tele])"

definition node_plan :: "('h, 'ks, 'sr) service_lib \<Rightarrow> node_configuration \<Rightarrow> lib_call list" where
  "node_plan lib config =
     (let protocol = protocol_standard_name lib (the (genesis_hash lib)); tele = telemetry_on config in
     partial_plan lib config
     @ [BuildNetwork (extra_sets config @ [protocol])]
     @ (if offchain_worker_enabled config then [BuildOffchainWorkers] else [])
     @ [SpawnTasks (\<lambda>deny. [SystemApi deny, TransactionPaymentApi]) tele]
     @ (if role_is_authority config then [AuraSlotDuration,
          StartAura \<lparr>aura_slot_duration = client_slot_duration lib,
            aura_force_authoring = force_authoring config, backoff_authoring_blocks = None,
            block_proposal_slot_portion = f32_of_frac 2 3, max_block_proposal_slot_portion = None, aura_telemetry = tele\<rparr>,
          SpawnTask \<lparr>task_name = ''aura'', task_group = Some ''block-authoring'', essential = True, blocking = True\<rparr>] else [])
     @ (if disable_grandpa config then [] else [RunGrandpaVoter \<lparr>gossip_duration_millis = 333, justification_period = 512,
          grandpa_name = Some (node_name config), observer_enabled = False,
          grandpa_keystore = role_is_authority config, local_role_authority = role_is_authority config,
          grandpa_telemetry = tele, grandpa_protocol_name = protocol\<rparr>,
          SpawnTask \<lparr>task_name = ''grandpa-voter'', task_group = None, essential = True, blocking = True\<rparr>])
     @ [StartNetwork])"

text \<open>
  \<open>follows b m p x\<close>: when \<open>m\<close> returns, it returns \<open>x\<close> and has made the calls \<open>p\<close>; however else it
  leaves, it has made a prefix of them, and not all of them if \<open>b\<close>.
\<close>

definition follows :: "bool \<Rightarrow> (('ks, 'z) node_state_scheme, 'e, 'a) rust \<Rightarrow> lib_call list \<Rightarrow> 'a \<Rightarrow> bool" where
  "follows b m p x \<longleftrightarrow> (\<forall>s r t. m s = (r, t) \<longrightarrow>
     (case r of Ret y \<Rightarrow> y = x \<and> calls t = calls s @ p
      | _ \<Rightarrow> \<exists>q. prefix q p \<and> (b \<longrightarrow> q \<noteq> p) \<and> calls t = calls s @ q))"

lemma follows_basic:
  "follows b (ret x) [] x" "follows False (throw e) [] x" "follows False (expect msg v) [] (the v)"
  "follows b (note_call c) [c] ()" "follows False (make_call lib c) [c] ()"
  "follows False (hook_remote_keystore remote config) [] ()"
  by (cases v; auto simp: follows_def note_call_def make_call_def hook_remote_keystore_def split: option.splits sum.splits)+

lemma follows_rbind:
  assumes "follows a m p x" "follows b (f x) q y" "b \<longrightarrow> q \<noteq> []"
  shows "follows b (rbind m f) (p @ q) y"
  unfolding follows_def
proof (intro allI impI)
  fix s r t
  assume run: "rbind m f s = (r, t)"
  obtain r1 t1 where m: "m s = (r1, t1)" by fastforce
  with assms(1) have 1: "case r1 of Ret y \<Rightarrow> y = x \<and> calls t1 = calls s @ p
      | _ \<Rightarrow> \<exists>q. prefix q p \<and> (a \<longrightarrow> q \<noteq> p) \<and> calls t1 = calls s @ q"
    by (auto simp: follows_def)
  have early: "\<exists>q'. prefix q' (p @ q) \<and> (b \<longrightarrow> q' \<noteq> p @ q) \<and> calls t = calls s @ q'"
    if "prefix q' p" "calls t = calls s @ q'" for q'
  proof (intro exI conjI impI)
    show "prefix q' (p @ q)" using that(1) by (rule prefix_prefix)
    show "q' \<noteq> p @ q" if b
      using that assms(3) prefix_length_le [OF \<open>prefix q' p\<close>] by auto
  qed (fact that(2))
  show "case r of Ret z \<Rightarrow> z = y \<and> calls t = calls s @ p @ q
      | _ \<Rightarrow> \<exists>q'. prefix q' (p @ q) \<and> (b \<longrightarrow> q' \<noteq> p @ q) \<and> calls t = calls s @ q'"
  proof (cases r1)
    case (Ret z)
    with 1 m run have "f x t1 = (r, t)" "calls t1 = calls s @ p" by (simp_all add: rbind_Ret)
    with assms(2) show ?thesis by (fastforce simp: follows_def split: exit.splits)
  next
    case (Err e)
    with 1 m run early show ?thesis by (auto simp: rbind_Err)
  next
    case (Panic e)
    with 1 m run early show ?thesis by (auto simp: rbind_Panic)
  qed
qed

lemma follows_rbind_silent: "follows a m [] x \<Longrightarrow> follows b (f x) q y \<Longrightarrow> (b \<longrightarrow> q \<noteq> []) \<Longrightarrow> follows b (rbind m f) q y"
  using follows_rbind [of a m "[]"] by simp

lemma follows_rbind_call: "follows a m [c] x \<Longrightarrow> follows b (f x) q y \<Longrightarrow> (b \<longrightarrow> q \<noteq> []) \<Longrightarrow> follows b (rbind m f) (c # q) y"
  using follows_rbind [of a m "[c]"] by simp

lemma follows_if:
  "(c \<Longrightarrow> follows b m p x) \<Longrightarrow> (\<not> c \<Longrightarrow> follows b n q x) \<Longrightarrow> follows b (if c then m else n) (if c then p else q) x"
  by simp

lemmas follows_steps = follows_rbind_call follows_rbind_silent follows_rbind

lemma install_worker_keys_follows: "follows False (install_worker_keys lib) [] ()"
  by (auto simp: install_worker_keys_def follows_def generate_key_def rbind_def expect_def
      split: prod.splits option.splits exit.splits)

lemma new_telemetry_follows:
  "follows False (new_telemetry lib config)
     (if telemetry_on config then [TelemetryWorkerNew 16, NewTelemetry (the (telemetry_endpoints config))] else [])
     (telemetry_on config)"
proof -
  have "follows False (rbind (make_call lib (TelemetryWorkerNew 16)) (\<lambda>_. rbind (note_call (NewTelemetry e)) (\<lambda>_. ret True)))
      [TelemetryWorkerNew 16, NewTelemetry e] True" for e
    by (rule follows_rbind_call [OF follows_basic(5)] follows_rbind_call [OF follows_basic(4)] follows_basic(1) | simp)+
  then show ?thesis
    by (auto simp: new_telemetry_def telemetry_on_def follows_basic split: option.splits)
qed

lemma parts_follow:
  "follows False (if c then install_worker_keys lib else ret ()) [] ()"
  "follows b (if c then note_call x else ret ()) (if c then [x] else []) ()"
  "follows False (if c then throw e else ret ()) [] ()"
  by (simp_all add: install_worker_keys_follows follows_basic)

lemma optional_part:
  "follows b m p () \<Longrightarrow> follows b (if c then m else ret ()) (if c then p else []) ()"
  "follows b m p () \<Longrightarrow> follows b (if \<not> c then m else ret ()) (if c then [] else p) ()"
  by (simp_all add: follows_basic)

lemma new_partial_follows: "follows False (new_partial lib config) (partial_plan lib config) (telemetry_on config)"
  unfolding new_partial_def partial_plan_def Let_def
  by (rule follows_rbind_silent [OF parts_follow(3)], rule follows_rbind [OF new_telemetry_follows],
      rule follows_rbind [OF follows_basic(5)], rule follows_rbind_silent [OF parts_follow(1)],
      rule follows_rbind [OF parts_follow(2)])
    (rule follows_steps follows_basic | simp)+

lemma start_parts_follow:
  "follows False (start_authoring lib config tele) [AuraSlotDuration,
     StartAura \<lparr>aura_slot_duration = client_slot_duration lib,
       aura_force_authoring = force_authoring config, backoff_authoring_blocks = None,
       block_proposal_slot_portion = f32_of_frac 2 3, max_block_proposal_slot_portion = None, aura_telemetry = tele\<rparr>,
     SpawnTask \<lparr>task_name = ''aura'', task_group = Some ''block-authoring'', essential = True, blocking = True\<rparr>] ()"
  "follows False (start_grandpa lib config tele protocol) [RunGrandpaVoter \<lparr>gossip_duration_millis = 333, justification_period = 512,
       grandpa_name = Some (node_name config), observer_enabled = False,
       grandpa_keystore = role_is_authority config, local_role_authority = role_is_authority config,
       grandpa_telemetry = tele, grandpa_protocol_name = protocol\<rparr>,
     SpawnTask \<lparr>task_name = ''grandpa-voter'', task_group = None, essential = True, blocking = True\<rparr>] ()"
  unfolding start_authoring_def start_grandpa_def
  by (rule follows_rbind_call [OF follows_basic(5)] follows_basic(4) | simp)+

lemma create_full_eq: "create_full deps = [SystemApi (deny_unsafe deps), TransactionPaymentApi]"
  by (simp add: create_full_def extend_with_def)

lemma start_ignores_extra_sets:
  "start_authoring lib (config\<lparr>extra_sets := x\<rparr>) tele = start_authoring lib config tele"
  "start_grandpa lib (config\<lparr>extra_sets := x\<rparr>) tele protocol = start_grandpa lib config tele protocol"
  "extra_sets (config\<lparr>extra_sets := x\<rparr>) = x"
  "offchain_worker_enabled (config\<lparr>extra_sets := x\<rparr>) = offchain_worker_enabled config"
  "role_is_authority (config\<lparr>extra_sets := x\<rparr>) = role_is_authority config"
  "disable_grandpa (config\<lparr>extra_sets := x\<rparr>) = disable_grandpa config"
  by (simp_all add: start_authoring_def start_grandpa_def)

lemma new_full_follows: "follows True (new_full lib config) (node_plan lib config) ()"
proof -
  have g: "(case block_hash_0 lib of Inl _ \<Rightarrow> None | Inr h \<Rightarrow> h) = genesis_hash lib"
    by (simp add: genesis_hash_def)
  show ?thesis
    unfolding new_full_def node_plan_def Let_def g create_full_eq full_deps.simps start_ignores_extra_sets
    by (rule follows_rbind [OF new_partial_follows], rule follows_rbind_silent [OF follows_basic(6)],
        rule follows_rbind_silent [OF follows_basic(3)], rule follows_rbind [OF follows_basic(5)],
        rule follows_rbind [OF parts_follow(2)], rule follows_rbind [OF follows_basic(5)],
        rule follows_rbind [OF optional_part(1) [OF start_parts_follow(1)]],
        rule follows_rbind [OF optional_part(2) [OF start_parts_follow(2)]], rule follows_basic(4)) simp_all
qed

section \<open>The keystore of a started node\<close>

lemma call_Ret_iff:
  "make_call lib c s = (Ret u, t) \<longleftrightarrow> fails lib c (calls s) = None \<and> t = s\<lparr>calls := calls s @ [c]\<rparr>"
  "note_call c s = (Ret u, t) \<longleftrightarrow> t = s\<lparr>calls := calls s @ [c]\<rparr>"
  by (auto simp: make_call_def note_call_def split: option.splits)

definition worker_keys :: "('h, 'ks, 'sr) service_lib \<Rightarrow> 'ks \<Rightarrow> 'ks" where
  "worker_keys lib k = snd (sr25519_generate_new lib CIRC_KEY_TYPE (Some ''//Alice'')
     (snd (sr25519_generate_new lib GARB_KEY_TYPE (Some ''//Alice'') k)))"

lemma install_worker_keys_Ret:
  "install_worker_keys lib s = (Ret u, t) \<Longrightarrow> keystore t = worker_keys lib (keystore s)"
  by (auto simp: install_worker_keys_def rbind_eq_Ret generate_key_def expect_eq_Ret worker_keys_def split: prod.splits)

lemma new_telemetry_Ret: "new_telemetry lib config s = (Ret x, t) \<Longrightarrow> keystore t = keystore s"
  by (auto simp: new_telemetry_def rbind_eq_Ret call_Ret_iff split: option.splits if_splits)

lemma new_partial_Ret:
  assumes "new_partial lib config s = (Ret x, t)"
  shows "keystore_remote config = None
    \<and> keystore t = (if offchain_worker_enabled config then worker_keys lib (keystore s) else keystore s)"
  using assms
  by (auto simp: new_partial_def rbind_eq_Ret call_Ret_iff split: if_splits
      dest!: install_worker_keys_Ret new_telemetry_Ret)

lemma start_parts_Ret:
  "start_authoring lib config tele s = (Ret u, t) \<Longrightarrow> keystore t = keystore s"
  "start_grandpa lib config tele protocol s = (Ret u, t) \<Longrightarrow> keystore t = keystore s"
  by (auto simp: start_authoring_def start_grandpa_def rbind_eq_Ret call_Ret_iff)

lemma hook_no_remote: "keystore_remote config = None \<Longrightarrow> hook_remote_keystore remote config = ret ()"
  by (simp add: hook_remote_keystore_def)

lemma new_full_Ret:
  assumes "new_full lib config s = (Ret u, t)"
  shows "keystore_remote config = None
    \<and> keystore t = (if offchain_worker_enabled config then worker_keys lib (keystore s) else keystore s)"
proof -
  let ?rest = "\<lambda>tele. rbind (hook_remote_keystore remote_keystore config) (\<lambda>_.
      rbind (expect ''Genesis block exists; qed'' (genesis_hash lib)) (\<lambda>genesis.
      rbind (make_call lib (BuildNetwork (extra_sets config @ [protocol_standard_name lib genesis]))) (\<lambda>_.
      rbind (if offchain_worker_enabled config then note_call BuildOffchainWorkers else ret ()) (\<lambda>_.
      rbind (make_call lib (SpawnTasks (\<lambda>deny. [SystemApi deny, TransactionPaymentApi]) tele)) (\<lambda>_.
      rbind (if role_is_authority config then start_authoring lib config tele else ret ()) (\<lambda>_.
      rbind (if \<not> disable_grandpa config then start_grandpa lib config tele (protocol_standard_name lib genesis) else ret ()) (\<lambda>_.
      note_call StartNetwork)))))))"
  from assms have "rbind (new_partial lib config) ?rest s = (Ret u, t)"
    unfolding new_full_def Let_def create_full_eq full_deps.simps start_ignores_extra_sets genesis_hash_def [symmetric] .
  then obtain x s1 where p: "new_partial lib config s = (Ret x, s1)" and f: "?rest x s1 = (Ret u, t)"
    unfolding rbind_eq_Ret [of "new_partial lib config"] by blast
  from new_partial_Ret [OF p] have n: "keystore_remote config = None" by blast
  with f have "keystore t = keystore s1"
    by (auto simp: hook_no_remote [OF n] rbind_eq_Ret expect_eq_Ret call_Ret_iff split: if_splits dest!: start_parts_Ret)
  with new_partial_Ret [OF p] show ?thesis by simp
qed

text \<open>A keystore that keeps what it derives: the keys of each type, in the order of their generation.\<close>

definition deriving_keystore ::
  "('aura, 'grandpa, 'sr, 'acct) key_scheme \<Rightarrow> bytes \<Rightarrow> string option \<Rightarrow> (bytes \<times> 'sr) list \<Rightarrow>
   'sr option \<times> (bytes \<times> 'sr) list" where
  "deriving_keystore ks key_type seed k = (case Option.bind seed (sr25519_from_string ks) of
     None \<Rightarrow> (None, k)
   | Some p \<Rightarrow> (Some p, k @ [(key_type, p)]))"

text \<open>The accounts that sign for a key type.\<close>

definition signing_accounts ::
  "('aura, 'grandpa, 'sr, 'acct) key_scheme \<Rightarrow> (bytes \<times> 'sr) list \<Rightarrow> bytes \<Rightarrow> 'acct list" where
  "signing_accounts ks k key_type = map (into_account ks \<circ> snd) (filter (\<lambda>x. fst x = key_type) k)"

lemma worker_keys_sign:
  assumes "keys_ok ks" "sr25519_generate_new lib = deriving_keystore ks"
  shows "signing_accounts ks (worker_keys lib []) GARB_KEY_TYPE = [account_of ks ''Alice'']"
    "signing_accounts ks (worker_keys lib []) CIRC_KEY_TYPE = [account_of ks ''Alice'']"
proof -
  from assms(1) obtain p where p: "sr25519_from_string ks ''//Alice'' = Some p" by (auto simp: keys_ok_def)
  have "GARB_KEY_TYPE \<noteq> CIRC_KEY_TYPE"
    by (simp add: GARB_KEY_TYPE_def CIRC_KEY_TYPE_def ascii_def byte_of_def)
  then show "signing_accounts ks (worker_keys lib []) GARB_KEY_TYPE = [account_of ks ''Alice'']"
    "signing_accounts ks (worker_keys lib []) CIRC_KEY_TYPE = [account_of ks ''Alice'']"
    by (auto simp: worker_keys_def assms(2) deriving_keystore_def signing_accounts_def account_of_def p)
qed

section \<open>Properties\<close>

fun spawned_tasks :: "lib_call list \<Rightarrow> string list" where
  "spawned_tasks [] = []"
| "spawned_tasks (SpawnTask t # cs) = task_name t # spawned_tasks cs"
| "spawned_tasks (_ # cs) = spawned_tasks cs"

lemma spawned_append [simp]: "spawned_tasks (xs @ ys) = spawned_tasks xs @ spawned_tasks ys"
  by (induction xs rule: spawned_tasks.induct) simp_all

text \<open>C26: However a start of the node ends, it has made a prefix of the planned calls, and it returns exactly when
  it has made all of them; the network is started last, and only by a start that returns. Such a node runs the
  telemetry task iff there are endpoints, the authoring task iff it is an authority and the GRANDPA voter unless
  it is disabled, and its off-chain workers iff they are enabled.\<close>

theorem starts_follow_the_plan:
  assumes "new_full lib config s = (r, t)"
  shows "\<exists>q. calls t = calls s @ q \<and> prefix q (node_plan lib config)
    \<and> (r = Ret () \<longleftrightarrow> q = node_plan lib config) \<and> (StartNetwork \<in> set q \<longleftrightarrow> r = Ret ())
    \<and> (r = Ret () \<longrightarrow> (BuildOffchainWorkers \<in> set q \<longleftrightarrow> offchain_worker_enabled config)
        \<and> spawned_tasks q = (if telemetry_on config then [''telemetry''] else [])
           @ (if role_is_authority config then [''aura''] else [])
           @ (if disable_grandpa config then [] else [''grandpa-voter'']))"
proof -
  from new_full_follows [of lib config] assms obtain q where q: "calls t = calls s @ q" "prefix q (node_plan lib config)"
    "r = Ret () \<longleftrightarrow> q = node_plan lib config"
    unfolding follows_def by (cases r) (fastforce intro: prefix_order.refl)+
  obtain p where p: "node_plan lib config = p @ [StartNetwork]" "StartNetwork \<notin> set p"
  proof
    show "node_plan lib config = butlast (node_plan lib config) @ [StartNetwork]" "StartNetwork \<notin> set (butlast (node_plan lib config))"
      by (simp_all add: node_plan_def partial_plan_def Let_def butlast_append)
  qed
  from q(2) have n: "StartNetwork \<in> set q \<longleftrightarrow> r = Ret ()"
    unfolding q(3) p(1) prefix_snoc using p(2) by (auto dest: set_mono_prefix)
  have "(BuildOffchainWorkers \<in> set q \<longleftrightarrow> offchain_worker_enabled config)
        \<and> spawned_tasks q = (if telemetry_on config then [''telemetry''] else [])
           @ (if role_is_authority config then [''aura''] else [])
           @ (if disable_grandpa config then [] else [''grandpa-voter''])" if "r = Ret ()"
    using that unfolding q(3) by (simp add: node_plan_def partial_plan_def Let_def)
  with q n show ?thesis by blast
qed

text \<open>
  A node that has started with its off-chain workers enabled has one key under each key type of the two pallets,
  both for the account of seed Alice, which both built-in specifications endow.
\<close>

lemma node_can_submit:
  assumes "new_full lib config s = (Ret (), t)" "offchain_worker_enabled config" "keystore s = []"
    and "sr25519_generate_new lib = deriving_keystore ks" "keys_ok ks" "inj_on (account_of ks) (set built_in_seeds)"
  shows "keystore_remote config = None
    \<and> signing_accounts ks (keystore t) GARB_KEY_TYPE = [account_of ks ''Alice'']
    \<and> signing_accounts ks (keystore t) CIRC_KEY_TYPE = [account_of ks ''Alice'']
    \<and> (\<forall>name \<in> {''dev'', ''local'', ''''}. \<exists>spec g. load_spec ks (Some wasm) from_json name = Inr spec
         \<and> fst (spec_genesis spec ()) = Ret g \<and> (account_of ks ''Alice'', 2 ^ 60) \<in> set (balances g))"
proof -
  have g: "\<exists>spec g. load_spec ks (Some wasm) from_json name = Inr spec
      \<and> fst (spec_genesis spec ()) = Ret g \<and> (account_of ks ''Alice'', 2 ^ 60) \<in> set (balances g)"
    if "name \<in> {''dev'', ''local'', ''''}" for name
    using built_in_spec [OF assms(5,6) that, of wasm from_json] by fastforce
  from new_full_Ret [OF assms(1)] assms(2,3) have "keystore_remote config = None" "keystore t = worker_keys lib []"
    by simp_all
  with worker_keys_sign [OF assms(5,4)] g show ?thesis by (intro conjI ballI) simp_all
qed

definition demo_lib :: "(nat, (bytes \<times> string) list, string) service_lib" where
  "demo_lib = \<lparr>fails = (\<lambda>_ _. None), client_slot_duration = SLOT_DURATION, block_hash_0 = Inr (Some 7),
     protocol_standard_name = (\<lambda>_. ''/grandpa/1''), sr25519_generate_new = deriving_keystore demo_keys\<rparr>"

definition demo_config :: node_configuration where
  "demo_config = \<lparr>keystore_remote = None, telemetry_endpoints = None, offchain_worker_enabled = True,
     role_is_authority = True, force_authoring = False, disable_grandpa = False, node_name = ''alice'', extra_sets = []\<rparr>"

definition new_node :: "(bytes \<times> string) list node_state" where
  "new_node = \<lparr>keystore = [], calls = []\<rparr>"

lemma demo_start: "\<exists>t. new_full demo_lib demo_config new_node = (Ret (), t)"
  by (simp add: new_full_def new_partial_def new_telemetry_def install_worker_keys_def generate_key_def make_call_def
      note_call_def hook_remote_keystore_def start_authoring_def start_grandpa_def demo_lib_def demo_config_def
      deriving_keystore_def demo_keys_def rbind_def Let_def)

theorem starts_follow_the_plan_witness:
  "\<exists>t. new_full demo_lib demo_config new_node = (Ret (), t) \<and> StartNetwork \<in> set (calls t)
    \<and> spawned_tasks (calls t) = [''aura'', ''grandpa-voter'']"
proof -
  from demo_start obtain t where t: "new_full demo_lib demo_config new_node = (Ret (), t)" by blast
  from starts_follow_the_plan [OF t] t show ?thesis
    by (auto simp: new_node_def demo_config_def telemetry_on_def)
qed

end
