(* ===== verification/Command.thy ===== *)
theory Command
  imports Service
begin

text \<open>
  The command line of the node (\<open>node/src/cli.rs\<close>, \<open>node/src/command.rs\<close>): the subcommands, what each
  of them builds before it runs, and what a build without a feature answers. Running a command of
  the library on the components handed to it is a parameter.
\<close>

section \<open>Subcommands\<close>

text \<open>\<open>TryRuntime\<close> carries arguments only in a build with the feature; here it always does.\<close>

datatype 'cmd subcommand =
    Key 'cmd
  | BuildSpec 'cmd
  | CheckBlock 'cmd
  | ExportBlocks 'cmd
  | ExportState 'cmd
  | ImportBlocks 'cmd
  | PurgeChain 'cmd
  | Revert 'cmd
  | Benchmark 'cmd
  | TryRuntime 'cmd

record 'cmd cli =
  cli_subcommand :: "'cmd subcommand option"
  cli_run :: 'cmd

section \<open>What the command line tells the library about the node\<close>

definition impl_name :: string where
  "impl_name = ''Substrate Node''"

definition support_url :: string where
  "support_url = ''support.anonymous.an''"

definition copyright_start_year :: int where
  "copyright_start_year = 2017"

definition native_runtime_version_of :: "'spec \<Rightarrow> runtime_version" where
  "native_runtime_version_of spec = VERSION"

section \<open>Running a command\<close>

datatype cli_error = ServiceError service_error | InputError string | CliLibrary string

datatype component = TheCli | Client | ImportQueue | Backend | Database | ChainSpec | NetworkConfig | WholeConfig | NodeTasks

record ('ks, 'cmd) cli_state = "'ks node_state" +
  executed :: "('cmd \<times> component list) list"

text \<open>
  The features of the build, the runner that the library makes for a command (with the command's
  configuration), its task manager, and \<open>cmd.run(...)\<close> on some components.
\<close>

record ('h, 'ks, 'sr, 'cmd) cli_lib =
  runtime_benchmarks :: bool
  try_runtime :: bool
  cli_service :: "('h, 'ks, 'sr) service_lib"
  runner_of :: "'cmd \<Rightarrow> string + node_configuration"
  task_manager_new :: "node_configuration \<Rightarrow> string option"
  command_run :: "'cmd \<Rightarrow> component list \<Rightarrow> string option"

definition create_runner ::
  "('h, 'ks, 'sr, 'cmd) cli_lib \<Rightarrow> 'cmd \<Rightarrow> (('ks, 'cmd) cli_state, cli_error, node_configuration) rust" where
  "create_runner lib cmd = (case runner_of lib cmd of Inl e \<Rightarrow> throw (CliLibrary e) | Inr config \<Rightarrow> ret config)"

definition execute ::
  "('h, 'ks, 'sr, 'cmd) cli_lib \<Rightarrow> 'cmd \<Rightarrow> component list \<Rightarrow> (('ks, 'cmd) cli_state, cli_error, unit) rust" where
  "execute lib cmd comps = (\<lambda>s. (case command_run lib cmd comps of None \<Rightarrow> Ret () | Some e \<Rightarrow> Err (CliLibrary e),
     s\<lparr>executed := executed s @ [(cmd, comps)]\<rparr>))"

text \<open>\<open>sync_run\<close>, and \<open>async_run\<close> with the components of \<open>new_partial\<close>.\<close>

definition sync_run ::
  "('h, 'ks, 'sr, 'cmd) cli_lib \<Rightarrow> 'cmd \<Rightarrow> component list \<Rightarrow> (('ks, 'cmd) cli_state, cli_error, unit) rust" where
  "sync_run lib cmd comps = rbind (create_runner lib cmd) (\<lambda>config. execute lib cmd comps)"

definition async_run_partial ::
  "('h, 'ks, 'sr, 'cmd) cli_lib \<Rightarrow> 'cmd \<Rightarrow> component list \<Rightarrow> (('ks, 'cmd) cli_state, cli_error, unit) rust" where
  "async_run_partial lib cmd comps =
     rbind (create_runner lib cmd) (\<lambda>config.
     rbind (map_err ServiceError (new_partial (cli_service lib) config)) (\<lambda>_.
     execute lib cmd comps))"

definition run :: "('h, 'ks, 'sr, 'cmd) cli_lib \<Rightarrow> 'cmd cli \<Rightarrow> (('ks, 'cmd) cli_state, cli_error, unit) rust" where
  "run lib cli = (case cli_subcommand cli of
     Some (Key cmd) \<Rightarrow> execute lib cmd [TheCli]
   | Some (BuildSpec cmd) \<Rightarrow> sync_run lib cmd [ChainSpec, NetworkConfig]
   | Some (CheckBlock cmd) \<Rightarrow> async_run_partial lib cmd [Client, ImportQueue]
   | Some (ExportBlocks cmd) \<Rightarrow> async_run_partial lib cmd [Client, Database]
   | Some (ExportState cmd) \<Rightarrow> async_run_partial lib cmd [Client, ChainSpec]
   | Some (ImportBlocks cmd) \<Rightarrow> async_run_partial lib cmd [Client, ImportQueue]
   | Some (PurgeChain cmd) \<Rightarrow> sync_run lib cmd [Database]
   | Some (Revert cmd) \<Rightarrow> async_run_partial lib cmd [Client, Backend]
   | Some (Benchmark cmd) \<Rightarrow>
       if runtime_benchmarks lib then sync_run lib cmd [WholeConfig]
       else throw (InputError ''Benchmarking wasn't enabled when building the node. You can enable it with `--features runtime-benchmarks`.'')
   | Some (TryRuntime cmd) \<Rightarrow>
       if try_runtime lib then
         rbind (create_runner lib cmd) (\<lambda>config.
         rbind (case task_manager_new lib config of None \<Rightarrow> ret () | Some e \<Rightarrow> throw (ServiceError (Library e))) (\<lambda>_.
         execute lib cmd [WholeConfig]))
       else throw (InputError ''TryRuntime wasn't enabled when building the node. You can enable it with `--features try-runtime`.'')
   | None \<Rightarrow>
       rbind (create_runner lib (cli_run cli)) (\<lambda>config.
       rbind (map_err ServiceError (new_full (cli_service lib) config)) (\<lambda>_.
       execute lib (cli_run cli) [NodeTasks])))"

section \<open>What the commands share\<close>

text \<open>The command that the runner is made for, and the commands that open the node's client.\<close>

definition command_of :: "'cmd cli \<Rightarrow> 'cmd" where
  "command_of cli = (case cli_subcommand cli of
     Some (Key cmd) \<Rightarrow> cmd | Some (BuildSpec cmd) \<Rightarrow> cmd | Some (CheckBlock cmd) \<Rightarrow> cmd | Some (ExportBlocks cmd) \<Rightarrow> cmd
   | Some (ExportState cmd) \<Rightarrow> cmd | Some (ImportBlocks cmd) \<Rightarrow> cmd | Some (PurgeChain cmd) \<Rightarrow> cmd | Some (Revert cmd) \<Rightarrow> cmd
   | Some (Benchmark cmd) \<Rightarrow> cmd | Some (TryRuntime cmd) \<Rightarrow> cmd | None \<Rightarrow> cli_run cli)"

definition opens_client :: "'cmd subcommand option \<Rightarrow> bool" where
  "opens_client c = (case c of
     None \<Rightarrow> True | Some (CheckBlock cmd) \<Rightarrow> True | Some (ExportBlocks cmd) \<Rightarrow> True | Some (ExportState cmd) \<Rightarrow> True
   | Some (ImportBlocks cmd) \<Rightarrow> True | Some (Revert cmd) \<Rightarrow> True | _ \<Rightarrow> False)"

definition same_services :: "('ks, 'z) node_state_scheme \<Rightarrow> ('ks, 'z) node_state_scheme \<Rightarrow> bool" where
  "same_services s t \<longleftrightarrow> keystore t = keystore s \<and> calls t = calls s"

lemma same_services_preorder: "preorder_rel same_services"
  by (auto simp: preorder_rel_def same_services_def)

interpretation services: kept_relation same_services
  by (rule kept_relation.intro) (rule same_services_preorder)

lemma light_parts_keep:
  "keeps same_services (execute lib cmd comps)" "keeps same_services (create_runner lib cmd)"
  "keeps same_services (case e of None \<Rightarrow> ret () | Some x \<Rightarrow> throw (ServiceError (Library x)))"
  by (auto simp: keeps_def execute_def create_runner_def same_services_def split: sum.splits option.splits)

lemma light_commands_keep:
  assumes "\<not> opens_client (cli_subcommand cli)"
  shows "keeps same_services (run lib cli)"
proof -
  note k = services.kept_rbind light_parts_keep services.kept_pure(1-3)
  have s: "keeps same_services (sync_run lib cmd comps)" for cmd comps
    unfolding sync_run_def by (intro k)
  have t: "keeps same_services (rbind (create_runner lib cmd) (\<lambda>config.
      rbind (case task_manager_new lib config of None \<Rightarrow> ret () | Some e \<Rightarrow> throw (ServiceError (Library e))) (\<lambda>_.
      execute lib cmd [WholeConfig])))" for cmd
    by (intro k)
  show ?thesis
    using assms unfolding run_def opens_client_def
    by (auto split: option.splits subcommand.splits simp del: rbind_ret_right intro: s t k)
qed

text \<open>What a command that opens the client and succeeds has done to the keystore.\<close>

definition opened ::
  "('h, 'ks, 'sr, 'cmd) cli_lib \<Rightarrow> 'cmd \<Rightarrow> ('ks, 'cmd) cli_state \<Rightarrow> ('ks, 'cmd) cli_state \<Rightarrow> bool" where
  "opened lib cmd s t \<longleftrightarrow> (\<exists>config. runner_of lib cmd = Inr config \<and> keystore_remote config = None
     \<and> keystore t = (if offchain_worker_enabled config then worker_keys (cli_service lib) (keystore s) else keystore s))"

lemma execute_Ret: "execute lib cmd comps s = (Ret u, t) \<Longrightarrow> keystore t = keystore s"
  by (auto simp: execute_def split: option.splits)

lemma map_err_Ret: "map_err f m s = (Ret x, t) \<longleftrightarrow> m s = (Ret x, t)"
  by (auto simp: map_err_def split: prod.splits exit.splits)

lemma create_runner_Ret: "create_runner lib cmd s = (Ret config, t) \<longleftrightarrow> runner_of lib cmd = Inr config \<and> t = s"
  by (auto simp: create_runner_def split: sum.splits)

lemma async_run_opened: "async_run_partial lib cmd comps s = (Ret (), t) \<Longrightarrow> opened lib cmd s t"
  by (fastforce simp: opened_def async_run_partial_def rbind_eq_Ret map_err_Ret create_runner_Ret
      dest!: new_partial_Ret execute_Ret)

lemma client_commands_opened:
  assumes "opens_client (cli_subcommand cli)" "run lib cli s = (Ret (), t)"
  shows "opened lib (command_of cli) s t"
proof -
  have n: "opened lib (cli_run cli) s t" if "cli_subcommand cli = None"
    using that assms(2) by (fastforce simp: opened_def run_def rbind_eq_Ret map_err_Ret create_runner_Ret
        dest!: new_full_Ret execute_Ret)
  show ?thesis
    using assms n by (auto simp: run_def opens_client_def command_of_def async_run_opened split: option.splits subcommand.splits)
qed

lemma remote_keystore_refused:
  assumes "keystore_remote config \<noteq> None"
  shows "new_partial lib config s = (Err (Other ''Remote Keystores are not supported.''), s)"
    "new_full lib config s = (Err (Other ''Remote Keystores are not supported.''), s)"
  using assms by (simp_all add: new_partial_def new_full_def rbind_def)

subsection \<open>What is run\<close>

text \<open>Starting components does not run a command: it leaves what extends the node's state alone.\<close>

abbreviation same_more :: "('ks, 'z) node_state_scheme \<Rightarrow> ('ks, 'z) node_state_scheme \<Rightarrow> bool" where
  "same_more s t \<equiv> node_state.more t = node_state.more s"

lemma service_parts_keep_more:
  "keeps same_more (make_call lib c)" "keeps same_more (note_call c)" "keeps same_more (generate_key lib kt seed)"
  "keeps same_more (hook_remote_keystore remote config)"
  by (auto simp: keeps_def make_call_def note_call_def generate_key_def hook_remote_keystore_def
      split: prod.splits option.splits sum.splits)

lemmas same_more_intros = field_rel.kept_rbind service_parts_keep_more field_rel.kept_pure(1,2,5)

lemma keeps_if: "keeps P m \<Longrightarrow> keeps P n \<Longrightarrow> keeps P (if c then m else n)"
  by simp

lemma new_partial_keeps_more: "keeps same_more (new_partial lib config)"
proof -
  have "keeps same_more (new_telemetry lib config)"
    by (auto simp: new_telemetry_def split: option.split intro!: same_more_intros)
  then show ?thesis
    unfolding new_partial_def install_worker_keys_def by (intro same_more_intros keeps_if)
qed

lemma new_full_keeps_more: "keeps same_more (new_full lib config)"
  unfolding new_full_def Let_def start_authoring_def start_grandpa_def
  by (intro same_more_intros keeps_if new_partial_keeps_more)

lemma executed_more: "same_more s t \<Longrightarrow> executed t = executed (s :: ('ks, 'cmd) cli_state)"
  by (cases s; cases t) simp

definition components_of :: "'cmd subcommand option \<Rightarrow> component list" where
  "components_of c = (case c of
     None \<Rightarrow> [NodeTasks] | Some (Key cmd) \<Rightarrow> [TheCli] | Some (BuildSpec cmd) \<Rightarrow> [ChainSpec, NetworkConfig]
   | Some (CheckBlock cmd) \<Rightarrow> [Client, ImportQueue] | Some (ExportBlocks cmd) \<Rightarrow> [Client, Database]
   | Some (ExportState cmd) \<Rightarrow> [Client, ChainSpec] | Some (ImportBlocks cmd) \<Rightarrow> [Client, ImportQueue]
   | Some (PurgeChain cmd) \<Rightarrow> [Database] | Some (Revert cmd) \<Rightarrow> [Client, Backend]
   | Some (Benchmark cmd) \<Rightarrow> [WholeConfig] | Some (TryRuntime cmd) \<Rightarrow> [WholeConfig])"

text \<open>A computation that ends by running one command, or fails before it.\<close>

definition runs_once ::
  "'cmd \<Rightarrow> component list \<Rightarrow> (('ks, 'cmd) cli_state, cli_error, unit) rust \<Rightarrow> bool" where
  "runs_once cmd comps m \<longleftrightarrow> (\<forall>s r t. m s = (r, t) \<longrightarrow>
     executed t = executed s @ [(cmd, comps)] \<or> r \<noteq> Ret () \<and> executed t = executed s)"

lemma runs_once_execute: "runs_once cmd comps (execute lib cmd comps)"
  by (simp add: runs_once_def execute_def)

lemma runs_once_throw: "runs_once cmd comps (throw e)"
  by (simp add: runs_once_def)

lemma runs_once_rbind:
  assumes "keeps same_more m" "\<And>x. runs_once cmd comps (f x)"
  shows "runs_once cmd comps (rbind m f)"
  unfolding runs_once_def
proof (intro allI impI)
  fix s r t
  assume run: "rbind m f s = (r, t)"
  obtain q u where m: "m s = (q, u)" by fastforce
  with keepsD [OF assms(1), of s] have u: "executed u = executed s" by (auto intro: executed_more)
  show "executed t = executed s @ [(cmd, comps)] \<or> r \<noteq> Ret () \<and> executed t = executed s"
  proof (cases q)
    case (Ret x)
    with run m have "f x u = (r, t)" by (simp add: rbind_Ret)
    with assms(2) [of x] u show ?thesis unfolding runs_once_def by metis
  qed (use run m u in \<open>auto simp: rbind_def\<close>)
qed

lemma create_runner_keeps_more: "keeps same_more (create_runner lib cmd)"
  by (simp add: create_runner_def field_rel.kept_pure split: sum.split)

lemma commands_run_once: "runs_once (command_of cli) (components_of (cli_subcommand cli)) (run lib cli)"
proof -
  note k = runs_once_rbind create_runner_keeps_more keeps_map_err new_partial_keeps_more new_full_keeps_more
    runs_once_execute runs_once_throw
  have s: "runs_once cmd comps (sync_run lib cmd comps)" "runs_once cmd comps (async_run_partial lib cmd comps)" for cmd comps
    unfolding sync_run_def async_run_partial_def by (intro k)+
  have n: "runs_once cmd comps (rbind (create_runner lib cmd) (\<lambda>config.
      rbind (map_err ServiceError (new_full (cli_service lib) config)) (\<lambda>_. execute lib cmd comps)))" for cmd comps
    by (intro k)
  have tm: "keeps same_more (case task_manager_new lib config of None \<Rightarrow> ret () | Some e \<Rightarrow> throw (ServiceError (Library e)))" for config
    by (simp add: field_rel.kept_pure split: option.split)
  have t: "runs_once cmd comps (rbind (create_runner lib cmd) (\<lambda>config.
      rbind (case task_manager_new lib config of None \<Rightarrow> ret () | Some e \<Rightarrow> throw (ServiceError (Library e))) (\<lambda>_.
      execute lib cmd comps)))" for cmd comps
    by (intro k tm)
  show ?thesis
    unfolding run_def command_of_def components_of_def
    by (auto split: option.splits subcommand.splits intro: s n t k)
qed

section \<open>Properties\<close>



text \<open>A command line runs one command of the library at most: the one it names, once, with the components of
  that command, unless something it needs before fails; a build without the feature runs neither benchmark nor
  try-runtime but returns an input error and changes nothing.\<close>

lemma command_line_runs_its_command:
  "(\<forall>r t. run lib cli s = (r, t) \<longrightarrow>
      executed t = executed s @ [(command_of cli, components_of (cli_subcommand cli))]
      \<or> r \<noteq> Ret () \<and> executed t = executed s)
   \<and> ((\<not> runtime_benchmarks lib \<and> cli_subcommand cli = Some (Benchmark cmd)
       \<or> \<not> try_runtime lib \<and> cli_subcommand cli = Some (TryRuntime cmd))
      \<longrightarrow> (\<exists>msg. run lib cli s = (Err (InputError msg), s)))"
  using commands_run_once [of cli lib] unfolding runs_once_def by (intro conjI) (blast, auto simp: run_def)

definition demo_cli_lib :: "(nat, (bytes \<times> string) list, string, string) cli_lib" where
  "demo_cli_lib = \<lparr>runtime_benchmarks = False, try_runtime = False, cli_service = demo_lib,
     runner_of = (\<lambda>cmd. Inr (if cmd = ''remote'' then demo_config\<lparr>keystore_remote := Some ''http://keys''\<rparr> else demo_config)),
     task_manager_new = (\<lambda>_. None), command_run = (\<lambda>_ _. None)\<rparr>"

definition demo_cli_state :: "((bytes \<times> string) list, string) cli_state" where
  "demo_cli_state = \<lparr>keystore = [], calls = [], executed = []\<rparr>"


lemma demo_export: "\<exists>t. run demo_cli_lib \<lparr>cli_subcommand = Some (ExportBlocks ''export''), cli_run = ''run''\<rparr> demo_cli_state = (Ret (), t)"
  by (simp add: run_def async_run_partial_def create_runner_def execute_def new_partial_def new_telemetry_def
      install_worker_keys_def generate_key_def make_call_def note_call_def demo_cli_lib_def demo_lib_def demo_config_def
      deriving_keystore_def demo_keys_def rbind_def map_err_def)


lemma command_line_runs_its_command_witness:
  "\<exists>t. run demo_cli_lib \<lparr>cli_subcommand = Some (ExportBlocks ''export''), cli_run = ''run''\<rparr> demo_cli_state = (Ret (), t)
    \<and> executed t = [(''export'', [Client, Database])]"
proof -
  from demo_export obtain t where
    t: "run demo_cli_lib \<lparr>cli_subcommand = Some (ExportBlocks ''export''), cli_run = ''run''\<rparr> demo_cli_state = (Ret (), t)" by blast
  with command_line_runs_its_command [of demo_cli_lib "\<lparr>cli_subcommand = Some (ExportBlocks ''export''), cli_run = ''run''\<rparr>" demo_cli_state]
  show ?thesis by (auto simp: command_of_def components_of_def demo_cli_state_def)
qed

end
