(* ===== verification/Authority.thy ===== *)
theory Authority
  imports Service
begin

text \<open>
  The keys that the off-chain workers sign with: the modules \<open>crypto\<close> of \<open>pallets/ocw-garble/src/lib.rs\<close> and
  \<open>pallets/ocw-circuits/src/lib.rs\<close>, the authorities and signing types that the runtime chooses
  (\<open>runtime/src/lib.rs\<close>), and the keys that a node generates for them when it starts. How the library signs
  with such a key is not in the repository.
\<close>

section \<open>The pallets' crypto types\<close>

text \<open>
  The kinds of keys of the library, what an application's key type is made of, and the kinds that the public
  keys and the signatures of a runtime can be of.
\<close>

datatype crypto = Ed25519 | Sr25519 | Ecdsa

record app_public =
  app_kind :: crypto
  app_key_type :: bytes

record signing_types =
  public_kinds :: "crypto list"
  signature_kinds :: "crypto list"

text \<open>\<open>MultiSigner\<close> and \<open>MultiSignature\<close> are of any kind.\<close>

definition multi_types :: signing_types where
  "multi_types = \<lparr>public_kinds = [Ed25519, Sr25519, Ecdsa], signature_kinds = [Ed25519, Sr25519, Ecdsa]\<rparr>"

definition sr25519_types :: signing_types where
  "sr25519_types = \<lparr>public_kinds = [Sr25519], signature_kinds = [Sr25519]\<rparr>"

text \<open>An implementation of \<open>AppCrypto<Public, Signature>\<close>, and that trait's two parameters.\<close>

record app_crypto =
  for_types :: signing_types
  runtime_app_public :: app_public
  generic_signature :: crypto
  generic_public :: crypto

text \<open>\<open>app_crypto!(sr25519, KEY_TYPE)\<close>, and \<open>TestAuthId\<close> for the runtime and for a mock runtime.\<close>

definition garble_public :: app_public where
  "garble_public = \<lparr>app_kind = Sr25519, app_key_type = GARB_KEY_TYPE\<rparr>"

definition garble_TestAuthId :: app_crypto where
  "garble_TestAuthId = \<lparr>for_types = multi_types, runtime_app_public = garble_public,
     generic_signature = Sr25519, generic_public = Sr25519\<rparr>"

definition garble_TestAuthId_mock :: app_crypto where
  "garble_TestAuthId_mock = \<lparr>for_types = sr25519_types, runtime_app_public = garble_public,
     generic_signature = Sr25519, generic_public = Sr25519\<rparr>"

definition circuits_public :: app_public where
  "circuits_public = \<lparr>app_kind = Sr25519, app_key_type = CIRC_KEY_TYPE\<rparr>"

definition circuits_TestAuthId :: app_crypto where
  "circuits_TestAuthId = \<lparr>for_types = multi_types, runtime_app_public = circuits_public,
     generic_signature = Sr25519, generic_public = Sr25519\<rparr>"

definition circuits_TestAuthId_mock :: app_crypto where
  "circuits_TestAuthId_mock = \<lparr>for_types = sr25519_types, runtime_app_public = circuits_public,
     generic_signature = Sr25519, generic_public = Sr25519\<rparr>"

section \<open>What the runtime chooses\<close>

text \<open>The \<open>AuthorityId\<close> of a worker pallet's configuration; the runtime's own signing types.\<close>

definition garble_AuthorityId :: app_crypto where
  "garble_AuthorityId = garble_TestAuthId"

definition circuits_AuthorityId :: app_crypto where
  "circuits_AuthorityId = circuits_TestAuthId"

definition runtime_signing_types :: signing_types where
  "runtime_signing_types = multi_types"

text \<open>
  What \<open>AuthorityId: AppCrypto<Self::Public, Self::Signature>\<close> needs: the implementation is the one for the
  runtime's types, a public key of the runtime can be one of its keys, the keys sign with their own kind, and the
  runtime takes that signature.
\<close>

definition authority_fits :: "signing_types \<Rightarrow> app_crypto \<Rightarrow> bool" where
  "authority_fits types app \<longleftrightarrow> for_types app = types
     \<and> generic_public app \<in> set (public_kinds types) \<and> generic_signature app \<in> set (signature_kinds types)
     \<and> generic_public app = app_kind (runtime_app_public app) \<and> generic_signature app = app_kind (runtime_app_public app)"

text \<open>The kind of the keys that \<open>SyncCryptoStore::sr25519_generate_new\<close> generates.\<close>

definition generated_kind :: crypto where
  "generated_kind = Sr25519"

section \<open>Properties\<close>

text \<open>The mock implementations fit a mock runtime that signs with sr25519 only, and not this one.\<close>

lemma mock_ids_fit:
  "authority_fits sr25519_types garble_TestAuthId_mock" "authority_fits sr25519_types circuits_TestAuthId_mock"
  "\<not> authority_fits runtime_signing_types garble_TestAuthId_mock" "\<not> authority_fits runtime_signing_types circuits_TestAuthId_mock"
  by (simp_all add: authority_fits_def runtime_signing_types_def multi_types_def sr25519_types_def garble_TestAuthId_mock_def
      garble_public_def circuits_TestAuthId_mock_def circuits_public_def)

lemma test_ids_fit: "authority_fits runtime_signing_types garble_AuthorityId" "authority_fits runtime_signing_types circuits_AuthorityId"
  by (simp_all add: authority_fits_def runtime_signing_types_def multi_types_def garble_AuthorityId_def garble_TestAuthId_def
      garble_public_def circuits_AuthorityId_def circuits_TestAuthId_def circuits_public_def)



end
