(* ===== verification/Pallet_Tests.thy ===== *)
theory Pallet_Tests
  imports Tx_Validation Runtime_Config
begin

text \<open>
  The repository's own tests of the two pallets without a worker, and the mock runtimes they run on
  (\<open>mock.rs\<close> and \<open>tests.rs\<close> of \<open>pallets/mobile-registry\<close> and \<open>pallets/tx-validation\<close>). A test is a computation
  that panics when one of its assertions fails; that all of them return validates the model of the pallets
  against what their authors expect.
\<close>

section \<open>The mock runtimes\<close>

text \<open>The settings of \<open>frame_system::Config\<close> that are values; accounts, indices and block numbers are \<open>u64\<close>.\<close>

definition mobile_test_config :: "u64 system_config" where
  "mobile_test_config = \<lparr>block_hash_count = 250, ss58_prefix = 42, max_consumers = 16\<rparr>"

definition txval_test_config :: "u64 system_config" where
  "txval_test_config = \<lparr>block_hash_count = 250, ss58_prefix = 42, max_consumers = 16\<rparr>"

text \<open>
  \<open>TestExternalities\<close>: the storage built from a genesis, at a block number. \<open>System::set_block_number\<close> sets
  it. In block 0 the System pallet drops deposited events.
\<close>

record 's test_externalities =
  block_number :: u64
  storage :: 's

definition set_block_number :: "u64 \<Rightarrow> ('s test_externalities, 'e, unit) rust" where
  "set_block_number n = modify (\<lambda>ext. ext\<lparr>block_number := n\<rparr>)"

definition in_pallet :: "(('acct, 'z) system_scheme, 'e, 'a) rust \<Rightarrow> (('acct, 'z) system_scheme test_externalities, 'e, 'a) rust" where
  "in_pallet m ext = (case m (storage ext) of (r, t) \<Rightarrow>
     (r, ext\<lparr>storage := (if block_number ext = 0 then t\<lparr>events := events (storage ext)\<rparr> else t)\<rparr>))"

text \<open>\<open>execute_with\<close> runs a closure on the externalities, whose state stays.\<close>

definition mobile_new_test_ext :: "u64 mobile test_externalities" where
  "mobile_new_test_ext =
     (let ext = \<lparr>block_number = 0, storage = \<lparr>events = [], offchain_index_writes = [], mobile_registry_map = (\<lambda>_. None)\<rparr>\<rparr>
      in snd ((set_block_number 1 :: (_, unit, unit) rust) ext))"

definition txval_new_test_ext :: "u64 txval test_externalities" where
  "txval_new_test_ext =
     (let ext = \<lparr>block_number = 0, storage = txval_genesis\<rparr>
      in snd ((set_block_number 1 :: (_, unit, unit) rust) ext))"

section \<open>Assertions\<close>

definition assert_that :: "string \<Rightarrow> bool \<Rightarrow> ('s, 'e, unit) rust" where
  "assert_that what b = (if b then ret () else panic_with (Expect what))"

definition assert_ok :: "('s, 'e, unit) rust \<Rightarrow> ('s, 'f, unit) rust" where
  "assert_ok m = rbind (attempt m) (expect_ok ''assert_ok'')"

text \<open>\<open>assert_noop!\<close>: the call gives this error and the storage is as before.\<close>

definition assert_noop :: "('s, 'e, unit) rust \<Rightarrow> 'e \<Rightarrow> ('s, 'f, unit) rust" where
  "assert_noop m e = rbind (gets (\<lambda>s. s)) (\<lambda>before.
     rbind (attempt m) (\<lambda>result.
     rbind (assert_that ''assert_err'' (result = Inl e)) (\<lambda>_.
     rbind (gets (\<lambda>s. s)) (\<lambda>after. assert_that ''assert_noop'' (after = before)))))"

definition assert_last_event :: "'acct event \<Rightarrow> (('acct, 'z) system_scheme test_externalities, 'e, unit) rust" where
  "assert_last_event e = rbind (gets (\<lambda>ext. events (storage ext))) (\<lambda>es.
     rbind (assert_that ''events expected'' (es \<noteq> [])) (\<lambda>_. assert_that ''assert_last_event'' (last es = e)))"

definition passes :: "('s, unit, unit) rust \<Rightarrow> 's \<Rightarrow> bool" where
  "passes test ext \<longleftrightarrow> fst (test ext) = Ret ()"

section \<open>Tests of mobile-registry\<close>

definition test_register_mobile_ok :: "bytes \<Rightarrow> (u64 mobile test_externalities, unit, unit) rust" where
  "test_register_mobile_ok k =
     (let account_id = 1 in
      rbind (assert_ok (in_pallet (register_mobile (SignedOrigin account_id) k))) (\<lambda>_.
      assert_last_event (MobileRegistryEvent (NewMobileRegistered 1))))"

definition test_register_mobile_basic_ok :: "(u64 mobile test_externalities, unit, unit) rust" where
  "test_register_mobile_basic_ok = test_register_mobile_ok (replicate 32 0)"

definition test_register_mobile_android_ok :: "(u64 mobile test_externalities, unit, unit) rust" where
  "test_register_mobile_android_ok = test_register_mobile_ok [
     48, 89, 48, 19, 6, 7, 42, 134, 72, 206, 61, 2, 1, 6, 8, 42, 134, 72, 206, 61, 3, 1, 7, 3,
     66, 0, 4, 186, 127, 99, 179, 251, 134, 228, 44, 51, 163, 15, 28, 47, 124, 216, 16, 163,
     184, 49, 5, 176, 21, 198, 136, 177, 67, 44, 197, 133, 149, 161, 38, 143, 218, 202, 47, 22,
     73, 105, 192, 57, 149, 67, 193, 58, 186, 113, 95, 159, 98, 62, 27, 185, 8, 164, 239, 118,
     140, 242, 135, 29, 221, 20, 250]"

definition test_register_mobile_pub_key_too_small_err :: "(u64 mobile test_externalities, unit, unit) rust" where
  "test_register_mobile_pub_key_too_small_err =
     (let account_id = 1 in
      assert_noop (in_pallet (register_mobile (SignedOrigin account_id) [0, 1])) (Module InvalidKeySize))"

section \<open>Tests of tx-validation\<close>

definition test_store_metadata_ok :: "(u64 txval test_externalities, unit, unit) rust" where
  "test_store_metadata_ok =
     (let account_id = 1; ipfs_cid = [1, 2]; digits = [3, 4]; pad = [0, 1, 2, 3, 4, 5, 6, 7, 8, 9] in
      rbind (assert_ok (in_pallet (store_metadata (SignedOrigin account_id) ipfs_cid digits pad))) (\<lambda>_.
      rbind (unwrap ''ipfs_cid'' (bounded 64 ipfs_cid)) (\<lambda>key_ipfs_hash.
      rbind (unwrap ''message_digits'' (bounded 10 digits)) (\<lambda>expected_message_digits.
      rbind (unwrap ''pinpad_digits'' (bounded 10 pad)) (\<lambda>expected_pinpad_digits.
      rbind (gets (\<lambda>ext. circuit_server_metadata_map (storage ext) (account_id, key_ipfs_hash))) (\<lambda>entry.
      rbind (unwrap ''circuit_server_metadata_map'' entry) (\<lambda>stored.
      rbind (assert_that ''assert_eq'' (message_digits stored = expected_message_digits)) (\<lambda>_.
      assert_that ''assert_eq'' (pinpad_digits stored = expected_pinpad_digits)))))))))"

definition test_check_input_ok :: "bool \<Rightarrow> bytes \<Rightarrow> (u64 txval test_externalities, unit, unit) rust" where
  "test_check_input_ok lg inputs =
     (let account_id = 1; ipfs_cid = [1, 2] in
      rbind (assert_ok (in_pallet (store_metadata (SignedOrigin account_id) ipfs_cid [3, 4] [4, 5, 6, 0, 1, 2, 3, 7, 8, 9]))) (\<lambda>_.
      rbind (assert_ok (in_pallet (check_input lg (SignedOrigin account_id) ipfs_cid inputs))) (\<lambda>_.
      assert_last_event (TxValidationEvent (TxPass 1)))))"

definition check_input_good_ascii_ok :: "bool \<Rightarrow> (u64 txval test_externalities, unit, unit) rust" where
  "check_input_good_ascii_ok lg = test_check_input_ok lg (ascii ''60'')"

definition check_input_good_u8_ok :: "bool \<Rightarrow> (u64 txval test_externalities, unit, unit) rust" where
  "check_input_good_u8_ok lg = test_check_input_ok lg [6, 0]"

definition check_input_bad_error :: "bool \<Rightarrow> (u64 txval test_externalities, unit, unit) rust" where
  "check_input_bad_error lg =
     (let account_id = 1; ipfs_cid = [1, 2] in
      rbind (assert_ok (in_pallet (store_metadata (SignedOrigin account_id) ipfs_cid [3, 4] [0, 1, 2, 3, 4, 5, 6, 7, 8, 9]))) (\<lambda>_.
      rbind (attempt (in_pallet (check_input lg (SignedOrigin account_id) ipfs_cid (ascii ''00'')))) (\<lambda>result.
      rbind (assert_last_event (TxValidationEvent (TxFail 1))) (\<lambda>_.
      assert_that ''assert_err'' (result = Inl (Module TxWrongCodeGiven))))))"

section \<open>The tests hold\<close>

lemma assert_that_True [simp]: "assert_that what True = ret ()"
  and assert_that_False: "assert_that what False = panic_with (Expect what)"
  by (simp_all add: assert_that_def)

lemma in_pallet_later:
  "m (storage ext) = (r, t) \<Longrightarrow> block_number ext \<noteq> 0 \<Longrightarrow> in_pallet m ext = (r, ext\<lparr>storage := t\<rparr>)"
  by (simp add: in_pallet_def)

lemma rbind_assert_ok: "m s = (Ret (), t) \<Longrightarrow> rbind (assert_ok m) f s = f () t"
  by (simp add: assert_ok_def rbind_def attempt_def)

lemma new_test_ext_facts:
  "block_number mobile_new_test_ext = 1" "block_number txval_new_test_ext = 1"
  "events (storage mobile_new_test_ext) = []" "storage txval_new_test_ext = txval_genesis"
  by (simp_all add: mobile_new_test_ext_def txval_new_test_ext_def set_block_number_def)

text \<open>Keys of an acceptable length pass, a short one does not.\<close>

lemma register_test:
  assumes "32 \<le> length k" "length k \<le> 256"
  shows "passes (test_register_mobile_ok k) mobile_new_test_ext"
proof -
  have "in_pallet (register_mobile (SignedOrigin 1) k) mobile_new_test_ext = (Ret (), mobile_new_test_ext\<lparr>storage :=
      mobile_insert 1 \<lparr>pub_key = k\<rparr> (mobile_registered 1 (storage mobile_new_test_ext))\<rparr>)"
    by (rule in_pallet_later [OF register_mobile_ok [OF assms]]) (simp add: new_test_ext_facts)
  then show ?thesis
    by (simp add: passes_def test_register_mobile_ok_def rbind_assert_ok assert_last_event_def new_test_ext_facts)
qed

lemma small_key_test: "passes test_register_mobile_pub_key_too_small_err mobile_new_test_ext"
proof -
  have "in_pallet (register_mobile (SignedOrigin 1) [0, 1]) mobile_new_test_ext = (Err (Module InvalidKeySize), mobile_new_test_ext)"
    by (subst in_pallet_later [OF register_mobile_short]) (simp_all add: new_test_ext_facts)
  then show ?thesis
    by (simp add: passes_def test_register_mobile_pub_key_too_small_err_def assert_noop_def rbind_Ret attempt_Err)
qed

text \<open>The storage that a validation entry of the tests leaves.\<close>

definition test_stored :: "bytes \<Rightarrow> u64 txval" where
  "test_stored pad = metadata_insert (1, [1, 2]) \<lparr>message_digits = [3, 4], pinpad_digits = pad\<rparr>
     (deposited (TxValidationEvent (DEBUGNewDigitsSet [3, 4] pad)) txval_genesis)"

lemma store_test_entry:
  assumes "length pad \<le> 10"
  shows "in_pallet (store_metadata (SignedOrigin 1) [1, 2] [3, 4] pad) txval_new_test_ext = (Ret (), txval_new_test_ext\<lparr>storage := test_stored pad\<rparr>)"
  using assms by (subst in_pallet_later [where t = "test_stored pad"])
    (simp_all add: new_test_ext_facts store_metadata_ok test_stored_def)

lemma store_test: "passes test_store_metadata_ok txval_new_test_ext"
  by (simp add: passes_def test_store_metadata_ok_def Let_def rbind_assert_ok store_test_entry test_stored_def metadata_map.lookup_same)

lemma check_on_test_entry:
  assumes "\<forall>b \<in> set input. in_pinpad pad b" "is_ascii pad"
  shows "check_input lg (SignedOrigin 1) [1, 2] input (test_stored pad) =
    (if [3, 4] = computed_inputs pad input
     then (Ret (), deposited (TxValidationEvent (TxPass 1)) (test_stored pad))
     else (Err (Module TxWrongCodeGiven), deposited (TxValidationEvent (TxFail 1)) (test_stored pad)))"
  using check_input_verdict [of "[1, 2]" "test_stored pad" 1 "\<lparr>message_digits = [3, 4], pinpad_digits = pad\<rparr>" input lg] assms
  by (simp add: test_stored_def metadata_map.lookup_same log_safe_def valid_ascii is_ascii_def)

lemma check_tests:
  assumes "\<forall>b \<in> set input. in_pinpad [4, 5, 6, 0, 1, 2, 3, 7, 8, 9] b" "computed_inputs [4, 5, 6, 0, 1, 2, 3, 7, 8, 9] input = [3, 4]"
  shows "passes (test_check_input_ok lg input) txval_new_test_ext"
proof -
  let ?pad = "[4, 5, 6, 0, 1, 2, 3, 7, 8, 9]"
  have "in_pallet (check_input lg (SignedOrigin 1) [1, 2] input) (txval_new_test_ext\<lparr>storage := test_stored ?pad\<rparr>) =
      (Ret (), txval_new_test_ext\<lparr>storage := deposited (TxValidationEvent (TxPass 1)) (test_stored ?pad)\<rparr>)"
    by (subst in_pallet_later [where r = "Ret ()" and t = "deposited (TxValidationEvent (TxPass 1)) (test_stored ?pad)"])
      (simp_all add: check_on_test_entry [OF assms(1)] assms(2) new_test_ext_facts is_ascii_def)
  then show ?thesis
    by (simp add: passes_def test_check_input_ok_def Let_def rbind_assert_ok store_test_entry assert_last_event_def)
qed

lemma bad_check_test: "passes (check_input_bad_error lg) txval_new_test_ext"
proof -
  let ?pad = "[0, 1, 2, 3, 4, 5, 6, 7, 8, 9]" and ?zeros = "ascii ''00''"
  have z: "\<forall>b \<in> set ?zeros. in_pinpad ?pad b" "computed_inputs ?pad ?zeros = [0, 0]"
    by (simp_all add: ascii_def byte_of_def in_pinpad_def computed_inputs_def typed_index_def)
  have "in_pallet (check_input lg (SignedOrigin 1) [1, 2] ?zeros) (txval_new_test_ext\<lparr>storage := test_stored ?pad\<rparr>) =
      (Err (Module TxWrongCodeGiven), txval_new_test_ext\<lparr>storage := deposited (TxValidationEvent (TxFail 1)) (test_stored ?pad)\<rparr>)"
    by (subst in_pallet_later [where r = "Err (Module TxWrongCodeGiven)" and t = "deposited (TxValidationEvent (TxFail 1)) (test_stored ?pad)"])
      (simp_all add: check_on_test_entry [OF z(1)] z(2) new_test_ext_facts is_ascii_def)
  then show ?thesis
    by (simp add: passes_def check_input_bad_error_def Let_def rbind_assert_ok store_test_entry assert_last_event_def
        rbind_Ret [OF attempt_Err])
qed

section \<open>Properties\<close>


text \<open>The tests need the block number that \<open>new_test_ext\<close> sets: in block 0 there is no event to assert.\<close>

lemma tests_need_a_block:
  "\<not> passes test_register_mobile_basic_ok (mobile_new_test_ext\<lparr>block_number := 0\<rparr>)"
  by (simp add: passes_def test_register_mobile_basic_ok_def test_register_mobile_ok_def Let_def rbind_assert_ok in_pallet_def
      register_mobile_ok assert_last_event_def new_test_ext_facts assert_that_False)

end
