(* ===== verification/Build_Scripts.thy ===== *)
theory Build_Scripts
  imports Main
begin

text \<open>
  The build scripts: the protobuf code of the two worker pallets
  (\<open>pallets/ocw-circuits/build.rs\<close>, \<open>pallets/ocw-garble/build.rs\<close>), the Wasm of the runtime
  (\<open>runtime/build.rs\<close>) and the version keys of the node (\<open>node/build.rs\<close>). The compilers they call are
  arguments.
\<close>

section \<open>Protobuf code\<close>

text \<open>What is set of a \<open>prost_build::Config\<close>: the paths whose maps become B-trees, and whose bytes become \<open>Bytes\<close>.\<close>

record prost_config =
  btree_map_paths :: "string list"
  bytes_paths :: "string list"

definition new_prost_config :: prost_config where
  "new_prost_config = \<lparr>btree_map_paths = [], bytes_paths = []\<rparr>"

text \<open>\<open>compile_protos\<close> gets the configuration, the files and the directories of their imports.\<close>

definition circuits_build :: "(prost_config \<Rightarrow> string list \<Rightarrow> string list \<Rightarrow> 'io_error + unit) \<Rightarrow> 'io_error + unit" where
  "circuits_build compile_protos =
     (let config = new_prost_config;
          config = config\<lparr>btree_map_paths := [''.'']\<rparr>;
          config = config\<lparr>bytes_paths := [''.'']\<rparr>
      in case compile_protos config [''deps/protos/api_circuits/api.proto'', ''deps/protos/api_circuits/circuits_routes.proto'']
             [''deps/protos''] of
           Inl e \<Rightarrow> Inl e
         | Inr _ \<Rightarrow> Inr ())"

definition garble_build :: "(prost_config \<Rightarrow> string list \<Rightarrow> string list \<Rightarrow> 'io_error + unit) \<Rightarrow> 'io_error + unit" where
  "garble_build compile_protos =
     (let config = new_prost_config;
          config = config\<lparr>btree_map_paths := [''.'']\<rparr>;
          config = config\<lparr>bytes_paths := [''.'']\<rparr>
      in case compile_protos config [''deps/protos/api_garble/api.proto'', ''deps/protos/api_garble/garble_routes.proto'']
             [''deps/protos''] of
           Inl e \<Rightarrow> Inl e
         | Inr _ \<Rightarrow> Inr ())"

text \<open>
  The scripts of the two pallets are one, on the files of each: so code generated for one pallet without a
  hash map and without an allocation per byte string is so for the other.
\<close>

definition pallet_build ::
  "string \<Rightarrow> string \<Rightarrow> (prost_config \<Rightarrow> string list \<Rightarrow> string list \<Rightarrow> 'io_error + unit) \<Rightarrow> 'io_error + unit" where
  "pallet_build api routes compile_protos = compile_protos \<lparr>btree_map_paths = [''.''], bytes_paths = [''.'']\<rparr>
     [''deps/protos/'' @ api @ ''/api.proto'', ''deps/protos/'' @ api @ ''/'' @ routes] [''deps/protos'']"

lemma pallet_builds:
  "circuits_build compile_protos = pallet_build ''api_circuits'' ''circuits_routes.proto'' compile_protos"
  "garble_build compile_protos = pallet_build ''api_garble'' ''garble_routes.proto'' compile_protos"
  by (simp_all add: circuits_build_def garble_build_def pallet_build_def new_prost_config_def split: sum.splits)

section \<open>Runtime and node\<close>

record wasm_builder =
  current_project :: bool
  heap_base_exported :: bool
  memory_imported :: bool

text \<open>The chain of the builder's settings; \<open>build\<close> runs the compiler with them.\<close>

definition runtime_build :: "(wasm_builder \<Rightarrow> 'wasm) \<Rightarrow> 'wasm" where
  "runtime_build build =
     (let builder = \<lparr>current_project = False, heap_base_exported = False, memory_imported = False\<rparr>;
          builder = builder\<lparr>current_project := True\<rparr>;
          builder = builder\<lparr>heap_base_exported := True\<rparr>;
          builder = builder\<lparr>memory_imported := True\<rparr>
      in build builder)"

datatype build_step = GenerateCargoKeys | RerunIfGitHeadChanged

definition node_build :: "build_step list" where
  "node_build = [GenerateCargoKeys, RerunIfGitHeadChanged]"

end
