(* ===== verification/Spec2Isabelle.thy ===== *)
theory Spec2Isabelle
  imports Runtime_Invariant Call_Weights Worker_Calls Executive Worker_Time Command Authority Pallet_Tests Build_Scripts
begin

text \<open>
  A verification development for the Substrate off-chain worker demo: four pallets (mobile-registry,
  tx-validation, ocw-circuits, ocw-garble), the crate ocw-common, the runtime and the node, as far as they
  are the repository's own code.

  The program. A user asks ocw-garble for garbled display circuits. The call draws a pinpad permutation
  and message digits from on-chain randomness, reads the reference circuits that ocw-circuits keeps, and
  leaves a job in the node's local storage by an off-chain index write. The pallet's off-chain worker
  takes the job, asks an external API for the circuits over gRPC-web (ocw-common), and submits a signed
  callback that stores the digits with tx-validation and appends the circuits to a pending list. The user
  sees the circuits, types a code, and check_input of tx-validation compares it with the digits through
  the permutation. ocw-circuits prepares the reference circuits by the same pattern of call, job, worker
  and callback. mobile-registry keeps a public key per account.

  The model. A Rust function is a function from a state to an exit (a value, \<open>Err\<close>, or a panic) and the
  state at that exit; a state written before an error or panic stays written, which is what a pallet
  function itself does (the runtime's executive drops the writes of a call that panics, as Executive says; so what is
  proved of panics of a call says that it does not get into a block, and the invariants of the runtime hold
  without relying on it). On-chain state is a chain of records, one per pallet, and the operations are polymorphic in the
  extension. An off-chain worker's state is the host's world, the requests made, the node's local storage
  and the calls handed over for submission. Machine integers are words, byte vectors are lists of 8 bit
  words, \<open>f32\<close> values are a significand and a scale with rounding to nearest.

  The theories.
  \<^item> Prelude: the exits and their combinators, the relations that computations keep (locale kept_relation,
    interpreted on every frame condition), step invariants (locale step_invariant).
  \<^item> Rust_Std: byte strings, UTF-8, integers in big endian, powers of two, \<open>f32\<close> products.
  \<^item> Frame: origins, events, bounded vectors, index writes; the locales storage_map and signed_call.
  \<^item> Mobile_Registry: \<open>pallets/mobile-registry/src/lib.rs\<close>; the registry refines a map of the last
    acceptable registrations.
  \<^item> Tx_Validation: \<open>pallets/tx-validation/src/lib.rs\<close>; the unique accepted code, all exits of
    check_input, bounds, and what repeated attempts and self-issued codes do.
  \<^item> Ocw_Common: \<open>ocw-common/src/lib.rs\<close>; framing round trip and its exact domain, one HTTP exchange.
  \<^item> Offchain: what both workers share (environment, storage, lock guard, submission) and the locale
    job_worker, the contract of one job slot.
  \<^item> Ocw_Circuits, Ocw_Garble: \<open>pallets/ocw-circuits/src/lib.rs\<close> and \<open>pallets/ocw-garble/src/lib.rs\<close>: data, calls,
    worker; each interprets job_worker on its process_if_needed and signed_call on each of its calls.
    Ocw_Circuits also has the jobs of a block's calls, every exit of the worker and complete runs of a job.
  \<^item> Garble_Calls, Garble_Worker: the effect of ocw-garble's calls (digits drawn, callback, pending lists,
    nonces); its worker's exits, complete runs of a job, and the way of the digits from the request to
    check_input.
  \<^item> Worker_Race: the workers cut at their accesses to shared state, any number of overlapping runs and
    late blocks; mutual exclusion, refinement of the uninterrupted workers, and two races.
  \<^item> Runtime_Config: the runtime's version, block time, limits and the other numbers of its configuration, and
    the APIs it answers itself (\<open>runtime/src/lib.rs\<close>). Runtime_Api: all its APIs over the library that
    answers them, those behind build features, and the native build of the executor.
  \<^item> Worker_Time: how long runs last. Every run ends (a measure on the steps left), what the ten seconds of
    a request and the life of a lock bound, and what a lock that expires lets happen.
  \<^item> Runtime: the calls of the four pallets on one state (\<open>runtime/src/lib.rs\<close>) and create_transaction.
  \<^item> Effects: an effect system for these calls (items written, events, errors, accounts touched), sound for
    every dispatch, and the isolation of accounts that follows. Runtime_Invariant: the bounds that any
    calls keep, checked only for the calls whose signature writes an item. Call_Weights: the weights that the
    calls declare, compared with the items that their dispatches change.
  \<^item> System, System_Runs: chain and node together, one inductive relation of dispatches, block ends,
    overlapping runs of both workers and outside changes; the invariant on the jobs found and the callbacks
    submitted, and what follows for the codes that can be checked.
  \<^item> Worker_Calls: the pallets in their order and the hooks that one call of the API runs; what a panic of the
    circuits worker does to the other, and which URLs the workers post to in the native and the Wasm build.
  \<^item> Executive: extrinsics, the executive that applies them, and runs of a node in which whole blocks, whoever
    made them, are built on any block of a tree. The transactions of the workers are dispatched as what they
    are. In the state of every block, on every branch, a circuit listed as pending under an account of the node
    has one code, and an account whose list is full never files anything again on that branch. A request whose
    block is abandoned is answered on the other branch all the same.
  \<^item> Node: chain specifications (\<open>node/src/chain_spec.rs\<close>) and load_spec (\<open>node/src/command.rs\<close>), and that
    the genesis respects the runtime's limits.
  \<^item> Service: new_partial, new_full (\<open>node/src/service.rs\<close>) and create_full (\<open>node/src/rpc.rs\<close>) as the sequence
    of their calls of the library, compared with the plan of a configuration; the worker keys.
  \<^item> Authority: the crypto types of the two worker pallets, the authorities and signing types that the runtime
    chooses, and that a started node has a key of each authority, of an account that the genesis endows.
  \<^item> Pallet_Tests: the mock runtimes and the tests of mobile-registry and tx-validation (\<open>mock.rs\<close>,
    \<open>tests.rs\<close>); the model passes them. Build_Scripts: the four \<open>build.rs\<close>.
  \<^item> Command: the subcommands and the dispatch of run (\<open>node/src/cli.rs\<close>, \<open>node/src/command.rs\<close>).

  Parameters. What is not in the repository is an argument: SCALE and protobuf codecs (the protobuf
  messages are generated from submodules), base64, the HTTP host and its clock, the storage lock, the
  process environment, the keystore's accounts, the randomness source, the \<open>rand\<close> crate, the framework's
  eras, payloads and signatures, how the library's components and commands leave. Properties that need
  their documented behaviour name it as a hypothesis (a codec that decodes what it encodes, rand_ok,
  replies, host_lock_laws, timed_host, deriving_keystore, keys_ok, hooks_in_order, native_only_if_same,
  executive_ok, and deployment_ok, which collects what System needs), and their witnesses instantiate it with concrete functions. Whether \<open>log::info!\<close> arguments
  are evaluated is the argument lg, because the pallets put panicking conversions there.

  Bounds. No fuel is used: every loop of the modelled code runs over a list or a fixed range. The
  interleaving relation allows unboundedly many runs; mutual exclusion is claimed while the lock does not
  expire, and Worker_Time shows for which jobs that is so and what happens otherwise. System has the steps of
  overlapping runs and lets locks expire.

  Whose keys. In Executive an account of the node signs only what the node's workers submit. That is an
  assumption on a deployment: in the built-in chain specifications the worker's key is the well-known one of
  the seed Alice (Service), and Alice holds the sudo key, whose calls may act for any account.

  Not modelled: how the library charges weights and fees, the library pallets and the types of their configuration, the inherent data
  providers, the derived codecs and type information of the pallets' types (the SCALE codecs are parameters),
  the tests of ocw-circuits, which are of another pallet and no part of a build. The pool between the
  submissions of a node and the blocks may drop or delay a transaction; a block may hold any extrinsics. What
  is not modelled of the four pallets, the runtime and the node are imports, and the library types that
  their configurations name.
\<close>

end
